(* ===== verification/Liteway_Prelude.thy ===== *)
theory Liteway_Prelude
  imports Main "HOL-Library.Word" "HOL-Library.AList" "HOL-Library.Monad_Syntax"
begin

text \<open>
  Shared vocabulary of the development: the machine integers of the Rust sources, byte strings,
  instants and durations, saturating arithmetic, big-endian encodings, association lists for
  \<open>HashMap\<close>, the result type of fallible code, and the locale that lifts a one-step invariant to
  runs.

  Conventions.
  \<^item> \<open>u8\<close>, \<open>u16\<close>, \<open>u32\<close>, \<open>u64\<close>, \<open>u128\<close> are words of that width; \<open>usize\<close> is \<open>nat\<close>, with the 64-bit
    bound written out where the source saturates (every release target is 64-bit).
  \<^item> A fixed array \<open>[u8; N]\<close> and a \<open>Vec<u8>\<close> are both \<open>bytes\<close>; the length of an array is a fact of
    the definitions that build it, or a named hypothesis on the external function that returns it.
  \<^item> \<open>Duration\<close> and \<open>Instant\<close> are nanoseconds in \<open>nat\<close>. \<open>Instant::duration_since\<close> saturates at zero
    in Rust exactly as subtraction on \<open>nat\<close> does.
  \<^item> A \<open>HashMap\<close> is an association list with distinct keys. Its list order stands for the
    unspecified iteration order of the map; no theorem fixes that order.
\<close>

unbundle bit_operations_syntax

section \<open>Machine types\<close>

type_synonym u8 = "8 word"
type_synonym u16 = "16 word"
type_synonym u32 = "32 word"
type_synonym u64 = "64 word"
type_synonym u128 = "128 word"
type_synonym bytes = "u8 list"
type_synonym instant = nat
type_synonym duration = nat
type_synonym ('k, 'v) hashmap = "('k \<times> 'v) list"

named_theorems wire_simps \<open>reading back what the encoders wrote\<close>
named_theorems frame_simps \<open>what an operation leaves unchanged\<close>

definition usize_max :: nat where
  "usize_max = 2 ^ 64 - 1"

definition saturating_add :: "nat \<Rightarrow> nat \<Rightarrow> nat" where
  "saturating_add a b = min (a + b) usize_max"

definition saturating_sub :: "nat \<Rightarrow> nat \<Rightarrow> nat" where
  "saturating_sub a b = a - b"

definition saturating_add_w :: "'a::len word \<Rightarrow> 'a word \<Rightarrow> 'a word" where
  "saturating_add_w a b = (if unat a + unat b < 2 ^ LENGTH('a) then a + b else - 1)"

definition saturating_sub_w :: "'a::len word \<Rightarrow> 'a word \<Rightarrow> 'a word" where
  "saturating_sub_w a b = (if a < b then 0 else a - b)"

definition from_secs :: "nat \<Rightarrow> duration" where
  "from_secs s = s * 1000000000"

text \<open>
  A \<open>Duration\<close> counts at most \<open>2 ^ 64\<close> seconds and an \<open>Instant\<close> of the Unix targets is a signed 64-bit number
  of seconds with the nanoseconds, so the operators that add and scale them panic beyond these limits:
  \<open>None\<close> stands for the panic.
\<close>

definition INSTANT_LIMIT :: nat where "INSTANT_LIMIT = 2 ^ 63 * 1000000000"
definition DURATION_LIMIT :: nat where "DURATION_LIMIT = 2 ^ 64 * 1000000000"

definition instant_add :: "instant \<Rightarrow> duration \<Rightarrow> instant option" where
  "instant_add t d = (if t + d < INSTANT_LIMIT then Some (t + d) else None)"

definition duration_mul :: "duration \<Rightarrow> nat \<Rightarrow> duration option" where
  "duration_mul d k = (if d * k < DURATION_LIMIT then Some (d * k) else None)"

definition from_millis :: "nat \<Rightarrow> duration" where
  "from_millis ms = ms * 1000000"

definition from_micros :: "nat \<Rightarrow> duration" where
  "from_micros us = us * 1000"

definition as_secs :: "duration \<Rightarrow> nat" where
  "as_secs d = d div 1000000000"

section \<open>Big-endian integers\<close>

fun be_bytes :: "nat \<Rightarrow> nat \<Rightarrow> bytes" where
  "be_bytes 0 v = []"
| "be_bytes (Suc n) v = be_bytes n (v div 256) @ [word_of_nat v]"

definition be_value :: "bytes \<Rightarrow> nat" where
  "be_value bs = foldl (\<lambda>acc b. acc * 256 + unat b) 0 bs"

definition u16_to_be_bytes :: "u16 \<Rightarrow> bytes" where
  "u16_to_be_bytes v = be_bytes 2 (unat v)"

definition u32_to_be_bytes :: "u32 \<Rightarrow> bytes" where
  "u32_to_be_bytes v = be_bytes 4 (unat v)"

definition u64_to_be_bytes :: "u64 \<Rightarrow> bytes" where
  "u64_to_be_bytes v = be_bytes 8 (unat v)"

definition u16_from_be_bytes :: "bytes \<Rightarrow> u16" where
  "u16_from_be_bytes bs = word_of_nat (be_value bs)"

definition u32_from_be_bytes :: "bytes \<Rightarrow> u32" where
  "u32_from_be_bytes bs = word_of_nat (be_value bs)"

definition u64_from_be_bytes :: "bytes \<Rightarrow> u64" where
  "u64_from_be_bytes bs = word_of_nat (be_value bs)"

definition u128_from_be_bytes :: "bytes \<Rightarrow> u128" where
  "u128_from_be_bytes bs = word_of_nat (be_value bs)"

section \<open>Results and loops\<close>

fun rbind :: "'e + 'a \<Rightarrow> ('a \<Rightarrow> 'e + 'b) \<Rightarrow> 'e + 'b" where
  "rbind (Inl e) f = Inl e"
| "rbind (Inr a) f = f a"

text \<open>\<open>slice::chunks\<close>: consecutive pieces of \<open>n\<close> elements, the last one possibly shorter. The
  source panics for \<open>n = 0\<close>; the callers never pass it.\<close>

fun chunks :: "nat \<Rightarrow> 'a list \<Rightarrow> 'a list list" where
  "chunks n xs = (if xs = [] \<or> n = 0 then [] else take n xs # chunks n (drop n xs))"

declare chunks.simps [simp del]

text \<open>\<open>Iterator::max_by_key\<close>: the last of the maximal elements.\<close>

fun max_by_key :: "('a \<Rightarrow> 'b::linorder) \<Rightarrow> 'a list \<Rightarrow> 'a option" where
  "max_by_key f [] = None"
| "max_by_key f (x # xs) =
     (case max_by_key f xs of
        None \<Rightarrow> Some x
      | Some y \<Rightarrow> if f x \<le> f y then Some y else Some x)"

text \<open>\<open>Iterator::min_by_key\<close>: the first of the minimal elements.\<close>

fun min_by_key :: "('a \<Rightarrow> 'b::linorder) \<Rightarrow> 'a list \<Rightarrow> 'a option" where
  "min_by_key f [] = None"
| "min_by_key f (x # xs) =
     (case min_by_key f xs of
        None \<Rightarrow> Some x
      | Some y \<Rightarrow> if f x \<le> f y then Some x else Some y)"

text \<open>Feeding a sequence of events to a stateful operation: what it answers, and the final state.\<close>

fun run_outputs :: "('s \<Rightarrow> 'e \<Rightarrow> 'o \<times> 's) \<Rightarrow> 's \<Rightarrow> 'e list \<Rightarrow> 'o list \<times> 's" where
  "run_outputs f s [] = ([], s)"
| "run_outputs f s (e # es) =
     (let (r, s1) = f s e; (rs, s2) = run_outputs f s1 es in (r # rs, s2))"

text \<open>\<open>HashMap\<close> over association lists: \<open>map_of\<close> is \<open>get\<close>, \<open>AList.update\<close> is \<open>insert\<close>,
  \<open>AList.delete\<close> is \<open>remove\<close>, \<open>filter\<close> is \<open>retain\<close>.\<close>

abbreviation hm_keys :: "('k, 'v) hashmap \<Rightarrow> 'k list" where
  "hm_keys m \<equiv> map fst m"

abbreviation hm_wf :: "('k, 'v) hashmap \<Rightarrow> bool" where
  "hm_wf m \<equiv> distinct (hm_keys m)"

definition hm_modify :: "'k \<Rightarrow> ('v \<Rightarrow> 'v) \<Rightarrow> ('k, 'v) hashmap \<Rightarrow> ('k, 'v) hashmap" where
  "hm_modify k f m = map (\<lambda>(k', v). (k', if k' = k then f v else v)) m"

definition hm_sum :: "('k \<Rightarrow> 'v \<Rightarrow> nat) \<Rightarrow> ('k, 'v) hashmap \<Rightarrow> nat" where
  "hm_sum g m = sum_list (map (\<lambda>(k, v). g k v) m)"

section \<open>Lemmas on big-endian encodings\<close>

lemma length_be_bytes [simp]: "length (be_bytes n v) = n"
  by (induction n arbitrary: v) auto

lemma be_value_Nil [simp]: "be_value [] = 0"
  by (simp add: be_value_def)

lemma be_value_snoc [simp]: "be_value (bs @ [b]) = be_value bs * 256 + unat b"
  by (simp add: be_value_def)

lemma be_value_be_bytes: "be_value (be_bytes n v) = v mod 256 ^ n"
proof (induction n arbitrary: v)
  case 0
  then show ?case by simp
next
  case (Suc n)
  have "v mod (256 * 256 ^ n) = 256 * (v div 256 mod 256 ^ n) + v mod 256"
    by (rule mod_mult2_eq)
  with Suc show ?case
    by (simp add: unat_of_nat mult.commute)
qed

lemma be_value_less: "be_value bs < 256 ^ length bs"
proof (induction bs rule: rev_induct)
  case Nil
  then show ?case by simp
next
  case (snoc b bs)
  have "unat b < 256" using unsigned_less [of b, where ?'a = nat] by simp
  with snoc show ?case by simp
qed

lemma be_bytes_be_value: "length bs = n \<Longrightarrow> be_bytes n (be_value bs) = bs"
proof (induction bs arbitrary: n rule: rev_induct)
  case Nil
  then show ?case by simp
next
  case (snoc b bs)
  have "unat b < 256" using unsigned_less [of b, where ?'a = nat] by simp
  moreover have "word_of_nat (be_value bs * 256) = (0 :: u8)"
    by (simp only: word_of_nat_eq_0_iff) simp
  then have "word_of_nat (be_value bs * 256 + unat b) = b"
    by (simp only: of_nat_add) simp
  ultimately show ?case using snoc by auto
qed

lemma length_u16_to_be_bytes [simp]: "length (u16_to_be_bytes v) = 2"
  by (simp add: u16_to_be_bytes_def)

lemma length_u32_to_be_bytes [simp]: "length (u32_to_be_bytes v) = 4"
  by (simp add: u32_to_be_bytes_def)

lemma length_u64_to_be_bytes [simp]: "length (u64_to_be_bytes v) = 8"
  by (simp add: u64_to_be_bytes_def)

lemma unat_mod_u16: "unat (v :: u16) mod 65536 = unat v"
  using unsigned_less [of v, where ?'a = nat] by simp

lemma unat_mod_u32: "unat (v :: u32) mod 4294967296 = unat v"
  using unsigned_less [of v, where ?'a = nat] by simp

lemma unat_mod_u64: "unat (v :: u64) mod 18446744073709551616 = unat v"
  using unsigned_less [of v, where ?'a = nat] by simp

lemma u16_from_to_be [simp]: "u16_from_be_bytes (u16_to_be_bytes v) = v"
  by (simp add: u16_from_be_bytes_def u16_to_be_bytes_def be_value_be_bytes unat_mod_u16)

lemma u32_from_to_be [simp]: "u32_from_be_bytes (u32_to_be_bytes v) = v"
  by (simp add: u32_from_be_bytes_def u32_to_be_bytes_def be_value_be_bytes unat_mod_u32)

lemma u64_from_to_be [simp]: "u64_from_be_bytes (u64_to_be_bytes v) = v"
  by (simp add: u64_from_be_bytes_def u64_to_be_bytes_def be_value_be_bytes unat_mod_u64)

lemma u32_to_from_be: "length bs = 4 \<Longrightarrow> u32_to_be_bytes (u32_from_be_bytes bs) = bs"
  using be_value_less [of bs]
  by (simp add: u32_from_be_bytes_def u32_to_be_bytes_def unat_of_nat be_bytes_be_value)

lemma u64_to_from_be: "length bs = 8 \<Longrightarrow> u64_to_be_bytes (u64_from_be_bytes bs) = bs"
  using be_value_less [of bs]
  by (simp add: u64_from_be_bytes_def u64_to_be_bytes_def unat_of_nat be_bytes_be_value)

section \<open>Lemmas on lists, options and results\<close>

lemma rbind_eq_Inr: "rbind m f = Inr b \<longleftrightarrow> (\<exists>a. m = Inr a \<and> f a = Inr b)"
  by (cases m) auto

lemma rbind_eq_Inl: "rbind m f = Inl e \<longleftrightarrow> m = Inl e \<or> (\<exists>a. m = Inr a \<and> f a = Inl e)"
  by (cases m) auto

lemma run_outputs_append:
  "run_outputs f s (xs @ ys) =
     (let (r1, s1) = run_outputs f s xs; (r2, s2) = run_outputs f s1 ys in (r1 @ r2, s2))"
  by (induction xs arbitrary: s) (simp_all add: case_prod_beta)

lemma drop_split: "drop m xs = take n (drop m xs) @ drop (m + n) xs"
proof -
  have "drop (m + n) xs = drop n (drop m xs)" by (simp add: add.commute)
  then show ?thesis by (simp del: drop_drop)
qed

lemma chunks_Nil [simp]: "chunks n [] = []"
  by (simp add: chunks.simps)

lemma chunks_Cons: "xs \<noteq> [] \<Longrightarrow> 0 < n \<Longrightarrow> chunks n xs = take n xs # chunks n (drop n xs)"
  by (simp add: chunks.simps [of n xs])

lemma concat_chunks: "0 < n \<Longrightarrow> concat (chunks n xs) = xs"
proof (induction n xs rule: chunks.induct)
  case (1 n xs)
  then show ?case by (cases "xs = []") (auto simp: chunks_Cons)
qed

lemma chunks_length_le: "c \<in> set (chunks n xs) \<Longrightarrow> length c \<le> n"
proof (induction n xs rule: chunks.induct)
  case (1 n xs)
  then show ?case by (cases "xs = [] \<or> n = 0") (auto simp: chunks.simps [of n xs])
qed

lemma length_chunks: "0 < n \<Longrightarrow> length (chunks n xs) = (length xs + n - 1) div n"
proof (induction n xs rule: chunks.induct)
  case (1 n xs)
  show ?case
  proof (cases "xs = []")
    case True
    with 1 show ?thesis by simp
  next
    case False
    with 1 have IH: "length (chunks n (drop n xs)) = (length xs - n + n - 1) div n"
      by simp
    show ?thesis
    proof (cases "length xs \<le> n")
      case True
      with 1(2) False have "(length xs + n - 1) div n = 1"
        by (intro div_nat_eqI) (cases xs; simp)+
      with IH True 1(2) False show ?thesis by (simp add: chunks_Cons)
    next
      case nle: False
      with 1(2) have "length xs + n - 1 = (length xs - n + n - 1) + n" by simp
      then have "(length xs + n - 1) div n = Suc ((length xs - n + n - 1) div n)"
        using 1(2) by (metis Suc_eq_plus1 div_add_self2 less_numeral_extra(3))
      with IH False 1(2) show ?thesis by (simp add: chunks_Cons)
    qed
  qed
qed

lemma max_by_key_None [simp]: "max_by_key f xs = None \<longleftrightarrow> xs = []"
  by (cases xs) (auto split: option.splits)

lemma max_by_key_in: "max_by_key f xs = Some x \<Longrightarrow> x \<in> set xs"
  by (induction xs arbitrary: x) (auto split: option.splits if_splits)

lemma max_by_key_max: "max_by_key f xs = Some x \<Longrightarrow> y \<in> set xs \<Longrightarrow> f y \<le> f x"
proof (induction xs arbitrary: x)
  case Nil
  then show ?case by simp
next
  case (Cons a xs)
  then show ?case by (fastforce split: option.splits if_splits)
qed

lemma min_by_key_None [simp]: "min_by_key f xs = None \<longleftrightarrow> xs = []"
  by (cases xs) (auto split: option.splits)

lemma min_by_key_in: "min_by_key f xs = Some x \<Longrightarrow> x \<in> set xs"
  by (induction xs arbitrary: x) (auto split: option.splits if_splits)

lemma min_by_key_min: "min_by_key f xs = Some x \<Longrightarrow> y \<in> set xs \<Longrightarrow> f x \<le> f y"
proof (induction xs arbitrary: x)
  case Nil
  then show ?case by simp
next
  case (Cons a xs)
  then show ?case by (fastforce split: option.splits if_splits)
qed

section \<open>Lemmas on association lists\<close>

lemma hm_keys_modify [simp]: "hm_keys (hm_modify k f m) = hm_keys m"
  by (simp add: hm_modify_def case_prod_beta comp_def)

lemma map_of_hm_modify: "map_of (hm_modify k f m) k' = (if k' = k then map_option f (map_of m k) else map_of m k')"
  by (induction m) (auto simp: hm_modify_def)

lemma hm_wf_update: "hm_wf m \<Longrightarrow> hm_wf (AList.update k v m)"
  by (rule distinct_update)

lemma hm_wf_delete: "hm_wf m \<Longrightarrow> hm_wf (AList.delete k m)"
  by (rule distinct_delete)

lemma hm_wf_filter: "hm_wf m \<Longrightarrow> hm_wf (filter P m)"
  by (rule distinct_map_filter)

lemma length_update_le: "length (AList.update k v m) \<le> Suc (length m)"
  by (induction m) auto

lemma length_update_eq:
  "length (AList.update k v m) = (if k \<in> fst ` set m then length m else Suc (length m))"
  by (induction m) auto

lemma map_of_filter_wf:
  "hm_wf m \<Longrightarrow> map_of (filter P m) k = (case map_of m k of None \<Rightarrow> None | Some v \<Rightarrow> if P (k, v) then Some v else None)"
proof (induction m)
  case Nil
  then show ?case by simp
next
  case (Cons a m)
  then show ?case by (cases a) (auto split: option.splits simp: map_of_eq_None_iff rev_image_eqI)
qed

text \<open>How a weight summed over a map changes.\<close>

definition hm_at :: "('k \<Rightarrow> 'v \<Rightarrow> nat) \<Rightarrow> ('k, 'v) hashmap \<Rightarrow> 'k \<Rightarrow> nat" where
  "hm_at g m k = (case map_of m k of None \<Rightarrow> 0 | Some v \<Rightarrow> g k v)"

lemma hm_sum_Nil [simp]: "hm_sum g [] = 0"
  by (simp add: hm_sum_def)

lemma hm_sum_Cons [simp]: "hm_sum g ((k, v) # m) = g k v + hm_sum g m"
  by (simp add: hm_sum_def)

lemma hm_sum_update: "hm_sum g (AList.update k v m) + hm_at g m k = hm_sum g m + g k v"
  by (induction m) (auto simp: hm_at_def)

lemma hm_sum_absent: "k \<notin> fst ` set m \<Longrightarrow> AList.delete k m = m"
  by (rule delete_id)

lemma hm_sum_delete: "hm_wf m \<Longrightarrow> hm_sum g (AList.delete k m) + hm_at g m k = hm_sum g m"
proof (induction m)
  case Nil
  then show ?case by (simp add: hm_at_def)
next
  case (Cons a m)
  then show ?case by (cases a) (auto simp: hm_at_def hm_sum_absent)
qed

lemma hm_sum_filter: "hm_sum g (filter P m) + hm_sum g (filter (\<lambda>x. \<not> P x) m) = hm_sum g m"
  by (induction m) (auto simp: hm_sum_def)

lemma hm_sum_filter_le: "hm_sum g (filter P m) \<le> hm_sum g m"
  using hm_sum_filter [of g P m] by simp

lemma hm_sum_length: "hm_sum (\<lambda>_ _. 1) m = length m"
  by (induction m) auto

lemma hm_sum_delete_le: "hm_wf m \<Longrightarrow> hm_sum g (AList.delete k m) \<le> hm_sum g m"
  using hm_sum_delete [of m g k] by simp

lemma delete_update: "AList.delete k (AList.update k v m) = AList.delete k m"
  by (induction m) auto

lemma set_update: "hm_wf m \<Longrightarrow> x \<in> set (AList.update k v m) \<Longrightarrow> x = (k, v) \<or> x \<in> set m \<and> fst x \<noteq> k"
proof (induction m)
  case Nil
  then show ?case by simp
next
  case (Cons a m)
  then show ?case by (cases a) (auto split: if_splits)
qed

lemma set_delete: "x \<in> set (AList.delete k m) \<Longrightarrow> x \<in> set m \<and> fst x \<noteq> k"
  by (auto simp: AList.delete_eq)

section \<open>Invariants of step machines\<close>

text \<open>
  A component whose operations are events on a state: what one admissible event keeps, every run
  of admissible events keeps. The components interpret it on their own operations.
\<close>

locale step_machine =
  fixes init :: 's
    and step :: "'e \<Rightarrow> 's \<Rightarrow> 's"
    and admissible :: "'e \<Rightarrow> bool"
    and inv :: "'s \<Rightarrow> bool"
  assumes inv_init: "inv init"
    and inv_step: "admissible e \<Longrightarrow> inv s \<Longrightarrow> inv (step e s)"
begin

lemma inv_run: "list_all admissible es \<Longrightarrow> inv s \<Longrightarrow> inv (fold step es s)"
  by (induction es arbitrary: s) (auto intro: inv_step)

lemma inv_reachable: "list_all admissible es \<Longrightarrow> inv (fold step es init)"
  by (rule inv_run) (auto intro: inv_init)

end

text \<open>
  The same for a component whose operations may fail to return (\<open>None\<close>): what every returning
  operation keeps holds after every returning run. If from a \<open>live\<close> state an operation fails exactly when
  it is \<open>faulty\<close> there, and otherwise leads to a live state, then a run fails exactly when one of its
  operations is reached in a state in which it is faulty.
\<close>

fun run_option :: "('e \<Rightarrow> 's \<Rightarrow> 's option) \<Rightarrow> 'e list \<Rightarrow> 's \<Rightarrow> 's option" where
  "run_option step [] s = Some s"
| "run_option step (e # es) s = Option.bind (step e s) (run_option step es)"

locale partial_machine =
  fixes step :: "'e \<Rightarrow> 's \<Rightarrow> 's option"
    and inv :: "'s \<Rightarrow> bool"
    and live :: "'s \<Rightarrow> bool"
    and faulty :: "'e \<Rightarrow> 's \<Rightarrow> bool"
  assumes inv_step: "inv s \<Longrightarrow> step e s = Some s' \<Longrightarrow> inv s'"
    and live_step: "inv s \<Longrightarrow> live s \<Longrightarrow> step e s = Some s' \<Longrightarrow> live s'"
    and faulty_step: "inv s \<Longrightarrow> live s \<Longrightarrow> step e s = None \<longleftrightarrow> faulty e s"
begin

lemma inv_run: "inv s \<Longrightarrow> run_option step es s = Some s' \<Longrightarrow> inv s'"
  by (induction es arbitrary: s) (auto simp: bind_eq_Some_conv dest: inv_step)

lemma run_faulty:
  "inv s \<Longrightarrow> live s \<Longrightarrow> run_option step es s = None \<longleftrightarrow>
     (\<exists>es1 e es2 s'. es = es1 @ e # es2 \<and> run_option step es1 s = Some s' \<and> faulty e s')"
proof (induction es arbitrary: s)
  case (Cons e es)
  show ?case
  proof (cases "step e s")
    case None
    then have "faulty e s" using faulty_step [OF Cons.prems, of e] by simp
    with None show ?thesis by (simp, intro exI [of _ "[]"]) simp
  next
    case (Some s1)
    have nf: "\<not> faulty e s" using faulty_step [OF Cons.prems, of e] Some by simp
    have "(\<exists>es1 x es2 s'. e # es = es1 @ x # es2 \<and> run_option step es1 s = Some s' \<and> faulty x s') \<longleftrightarrow>
        (\<exists>es1 x es2 s'. es = es1 @ x # es2 \<and> run_option step es1 s1 = Some s' \<and> faulty x s')" (is "?l \<longleftrightarrow> ?r")
    proof
      assume ?l
      then obtain es1 x es2 s' where *: "e # es = es1 @ x # es2" "run_option step es1 s = Some s'" "faulty x s'" by blast
      with nf obtain es1' where "es1 = e # es1'" "es = es1' @ x # es2" by (cases es1) auto
      with * Some show ?r by auto
    next
      assume ?r
      then obtain es1 x es2 s' where "es = es1 @ x # es2" "run_option step es1 s1 = Some s'" "faulty x s'" by blast
      with Some show ?l by (intro exI [of _ "e # es1"] exI [of _ x] exI [of _ es2] exI [of _ s']) simp
    qed
    with Cons.IH [OF inv_step [OF Cons.prems(1) Some] live_step [OF Cons.prems Some]] Some show ?thesis by simp
  qed
qed simp

end

section \<open>Refinement of stateful operations\<close>

text \<open>
  An implementation whose every answer is the specification's, as long as the two states are
  related. Over whole sequences of events the answers then coincide.
\<close>

locale simulation =
  fixes astep :: "'a \<Rightarrow> 'e \<Rightarrow> 'o \<times> 'a"
    and cstep :: "'c \<Rightarrow> 'e \<Rightarrow> 'o \<times> 'c"
    and R :: "'a \<Rightarrow> 'c \<Rightarrow> bool"
  assumes sim_output: "R a c \<Longrightarrow> fst (cstep c e) = fst (astep a e)"
    and sim_state: "R a c \<Longrightarrow> R (snd (astep a e)) (snd (cstep c e))"
begin

lemma sim_run:
  "R a c \<Longrightarrow> fst (run_outputs cstep c es) = fst (run_outputs astep a es)
    \<and> R (snd (run_outputs astep a es)) (snd (run_outputs cstep c es))"
proof (induction es arbitrary: a c)
  case Nil
  then show ?case by simp
next
  case (Cons e es)
  from Cons.IH [OF sim_state [OF Cons.prems]] sim_output [OF Cons.prems, of e] show ?case
    by (simp add: case_prod_beta)
qed

end

end
