(* ===== verification/Replay.thy ===== *)
theory Replay
  imports Liteway_Prelude
begin

text \<open>
  \<open>ReplayWindow\<close> of \<open>litewayd/src/state.rs\<close>: a 64-bit window of the sequence numbers accepted from a
  peer. The specification keeps the list of accepted numbers; the bit window answers the same.
\<close>

unbundle bit_operations_syntax

section \<open>Definitions\<close>

definition REPLAY_WINDOW_BITS :: u64 where "REPLAY_WINDOW_BITS = 64"

record ReplayWindow =
  initialized :: bool
  highest :: u64
  seen :: u64

definition ReplayWindow_new :: ReplayWindow where
  "ReplayWindow_new = \<lparr>initialized = False, highest = 0, seen = 0\<rparr>"

definition accept :: "ReplayWindow \<Rightarrow> u64 \<Rightarrow> bool \<times> ReplayWindow" where
  "accept rw sq =
     (if \<not> initialized rw then (True, rw\<lparr>initialized := True, highest := sq, seen := 1\<rparr>)
      else if sq > highest rw then
        let shift = sq - highest rw;
            sn = (if shift \<ge> REPLAY_WINDOW_BITS then 1 else push_bit (unat shift) (seen rw) OR 1)
        in (True, rw\<lparr>seen := sn, highest := sq\<rparr>)
      else
        let behind = highest rw - sq
        in if behind \<ge> REPLAY_WINDOW_BITS then (False, rw)
           else
             let bt = push_bit (unat behind) 1
             in if seen rw AND bt \<noteq> 0 then (False, rw)
                else (True, rw\<lparr>seen := seen rw OR bt\<rparr>))"

section \<open>Specification\<close>

text \<open>The accepted numbers, newest first. A number is accepted when it was not accepted before and
  is not 64 or more behind the greatest accepted one.\<close>

definition replay_spec :: "u64 list \<Rightarrow> u64 \<Rightarrow> bool" where
  "replay_spec acc sq \<longleftrightarrow> sq \<notin> set acc \<and> (\<forall>a\<in>set acc. unat a < unat sq + 64)"

definition replay_spec_step :: "u64 list \<Rightarrow> u64 \<Rightarrow> bool \<times> u64 list" where
  "replay_spec_step acc sq = (if replay_spec acc sq then (True, sq # acc) else (False, acc))"

definition replay_rel :: "u64 list \<Rightarrow> ReplayWindow \<Rightarrow> bool" where
  "replay_rel acc rw \<longleftrightarrow>
     (initialized rw \<longleftrightarrow> acc \<noteq> [])
   \<and> (initialized rw \<longrightarrow>
        highest rw \<in> set acc \<and> (\<forall>a\<in>set acc. a \<le> highest rw)
      \<and> (\<forall>sq\<le>highest rw. unat (highest rw - sq) < 64 \<longrightarrow>
           (bit (seen rw) (unat (highest rw - sq)) \<longleftrightarrow> sq \<in> set acc)))"

section \<open>Lemmas\<close>

lemma and_bit_zero: "x AND 2 ^ n = (0 :: u64) \<longleftrightarrow> \<not> bit x n"
  by (rule and_exp_eq_0_iff_not_bit)

lemma unat_behind: "b \<le> (a :: u64) \<Longrightarrow> unat (a - b) = unat a - unat b"
  by (rule unat_sub)

lemma bit_one_iff: "bit (1 :: u64) n \<longleftrightarrow> n = 0"
  by (auto simp: bit_simps)

lemma replay_old:
  assumes "replay_rel acc rw" and "initialized rw" and "sq \<le> highest rw"
  shows "replay_spec acc sq \<longleftrightarrow> unat (highest rw - sq) < 64 \<and> \<not> bit (seen rw) (unat (highest rw - sq))"
proof -
  from assms have h: "highest rw \<in> set acc" and m: "\<forall>a\<in>set acc. a \<le> highest rw"
    and b: "unat (highest rw - sq) < 64 \<longrightarrow> (bit (seen rw) (unat (highest rw - sq)) \<longleftrightarrow> sq \<in> set acc)"
    by (auto simp: replay_rel_def)
  have "(\<forall>a\<in>set acc. unat a < unat sq + 64) \<longleftrightarrow> unat (highest rw) < unat sq + 64"
    using h m by (auto simp: word_le_nat_alt)
  moreover have "unat (highest rw) < unat sq + 64 \<longleftrightarrow> unat (highest rw - sq) < 64"
    using assms(3) by (auto simp: unat_behind word_le_nat_alt)
  ultimately show ?thesis using b by (auto simp: replay_spec_def)
qed

text \<open>The bit that stands for a number after the window has moved.\<close>

lemma shifted_bit:
  assumes "sh = sq - (hi :: u64)" and "hi < sq" and "q \<le> sq" and "unat (sq - q) < 64" and "unat sh < 64"
  shows "bit (push_bit (unat sh) s OR 1) (unat (sq - q)) \<longleftrightarrow>
    q = sq \<or> q \<le> hi \<and> bit (s :: u64) (unat (hi - q))"
proof -
  have sh: "unat sh = unat sq - unat hi"
    unfolding assms(1) using assms(2) by (intro unat_behind less_imp_le)
  have lt: "unat hi < unat sq" using assms(2) by (simp only: word_less_nat_alt)
  have sq: "unat (sq - q) = unat sq - unat q" and le: "unat q \<le> unat sq"
    using assms(3) by (simp_all add: unat_behind word_le_nat_alt)
  have "unat (sq - q) = 0 \<longleftrightarrow> q = sq" by (auto simp: unat_eq_0)
  moreover have "unat sh \<le> unat (sq - q) \<longleftrightarrow> q \<le> hi"
    using sh sq lt le by (auto simp: word_le_nat_alt)
  moreover have "q \<le> hi \<Longrightarrow> unat (sq - q) - unat sh = unat (hi - q)"
    using sh sq lt le by (simp add: unat_behind word_le_nat_alt)
  ultimately show ?thesis
    using assms(4) by (auto simp: bit_simps)
qed

lemma replay_rel_new: "replay_rel [] ReplayWindow_new"
  by (simp add: replay_rel_def ReplayWindow_new_def)

lemma replay_step_first:
  assumes "replay_rel acc rw" and "\<not> initialized rw"
  shows "replay_spec acc sq \<and> replay_rel (sq # acc) (snd (accept rw sq)) \<and> fst (accept rw sq)"
proof -
  from assms have "acc = []" by (auto simp: replay_rel_def)
  moreover have "(bit (1 :: u64) (unat (sq - q)) \<longleftrightarrow> q = sq)" for q
    by (auto simp: bit_one_iff unat_eq_0)
  ultimately show ?thesis
    using assms by (auto simp: replay_rel_def accept_def replay_spec_def)
qed

lemma replay_step_new:
  assumes "replay_rel acc rw" and "initialized rw" and "highest rw < sq"
  shows "replay_spec acc sq \<and> replay_rel (sq # acc) (snd (accept rw sq)) \<and> fst (accept rw sq)"
proof -
  from assms have m: "\<forall>a\<in>set acc. a \<le> highest rw" and
    b: "\<And>q. q \<le> highest rw \<Longrightarrow> unat (highest rw - q) < 64 \<Longrightarrow> bit (seen rw) (unat (highest rw - q)) \<longleftrightarrow> q \<in> set acc"
    by (auto simp: replay_rel_def)
  have lt: "a < sq" if "a \<in> set acc" for a using m that assms(3) by fastforce
  then have spec: "replay_spec acc sq" by (fastforce simp: replay_spec_def word_less_nat_alt)
  define sn where "sn = (if sq - highest rw \<ge> 64 then 1 else push_bit (unat (sq - highest rw)) (seen rw) OR 1)"
  have acc: "accept rw sq = (True, rw\<lparr>seen := sn, highest := sq\<rparr>)"
    using assms(2,3) by (simp add: accept_def sn_def REPLAY_WINDOW_BITS_def)
  have "bit sn (unat (sq - q)) \<longleftrightarrow> q = sq \<or> q \<in> set acc" if q: "q \<le> sq" "unat (sq - q) < 64" for q
  proof (cases "sq - highest rw \<ge> 64")
    case True
    then have "unat (highest rw) + 64 \<le> unat sq"
      using assms(3) by (simp add: word_le_nat_alt unat_behind word_less_nat_alt)
    moreover have "unat sq < unat q + 64" using q by (auto simp: unat_behind word_le_nat_alt)
    ultimately have "q \<notin> set acc" using m by (auto simp: word_le_nat_alt)
    with True show ?thesis by (auto simp: sn_def bit_one_iff unat_eq_0)
  next
    case False
    then have sh: "unat (sq - highest rw) < 64" by (simp add: word_le_nat_alt)
    have "q \<le> highest rw \<Longrightarrow> unat (highest rw - q) < 64"
      using q(2) assms(3) by (simp add: unat_behind word_le_nat_alt word_less_nat_alt)
    then have "q \<le> highest rw \<and> bit (seen rw) (unat (highest rw - q)) \<longleftrightarrow> q \<in> set acc"
      using b m by blast
    with shifted_bit [OF refl assms(3) q sh, of "seen rw"] False show ?thesis by (simp add: sn_def)
  qed
  with acc spec lt assms(2) show ?thesis by (auto simp: replay_rel_def less_imp_le)
qed

lemma replay_step_old:
  assumes rel: "replay_rel acc rw" and ini: "initialized rw" and le: "\<not> highest rw < sq"
  shows "fst (accept rw sq) = replay_spec acc sq
    \<and> replay_rel (if replay_spec acc sq then sq # acc else acc) (snd (accept rw sq))"
proof -
  let ?d = "unat (highest rw - sq)"
  have le': "sq \<le> highest rw" using le by simp
  have big: "highest rw - sq \<ge> REPLAY_WINDOW_BITS \<longleftrightarrow> \<not> ?d < 64"
    by (auto simp: REPLAY_WINDOW_BITS_def word_le_nat_alt)
  show ?thesis
  proof (cases "replay_spec acc sq")
    case True
    with replay_old [OF rel ini le'] have d: "?d < 64" "\<not> bit (seen rw) ?d" by auto
    then have acc: "accept rw sq = (True, rw\<lparr>seen := seen rw OR push_bit ?d 1\<rparr>)"
      using ini le big by (simp add: accept_def Let_def and_bit_zero)
    have "bit (seen rw OR push_bit ?d 1) (unat (highest rw - q)) \<longleftrightarrow> q = sq \<or> q \<in> set acc"
      if q: "q \<le> highest rw" "unat (highest rw - q) < 64" for q
    proof -
      have "unat (highest rw - q) = ?d \<longleftrightarrow> q = sq" by (simp flip: word_unat_eq_iff)
      moreover have "bit (seen rw) (unat (highest rw - q)) \<longleftrightarrow> q \<in> set acc"
        using rel ini q by (auto simp: replay_rel_def)
      ultimately show ?thesis using d(1) q(2) by (auto simp: bit_simps)
    qed
    with True acc rel ini le' show ?thesis by (auto simp: replay_rel_def)
  next
    case False
    with replay_old [OF rel ini le'] have "?d < 64 \<longrightarrow> bit (seen rw) ?d" by auto
    then have "accept rw sq = (False, rw)"
      using ini le big by (auto simp: accept_def Let_def and_bit_zero)
    with False rel show ?thesis by simp
  qed
qed

interpretation replay: simulation replay_spec_step accept replay_rel
proof
  fix acc rw sq
  assume rel: "replay_rel acc rw"
  have both: "fst (accept rw sq) = replay_spec acc sq
    \<and> replay_rel (if replay_spec acc sq then sq # acc else acc) (snd (accept rw sq))"
  proof (cases "initialized rw \<and> \<not> highest rw < sq")
    case True
    then show ?thesis using replay_step_old [OF rel] by blast
  next
    case False
    then show ?thesis using replay_step_first [OF rel] replay_step_new [OF rel] by (cases "initialized rw") auto
  qed
  then show "fst (accept rw sq) = fst (replay_spec_step acc sq)" by (simp add: replay_spec_step_def)
  from both show "replay_rel (snd (replay_spec_step acc sq)) (snd (accept rw sq))"
    by (simp add: replay_spec_step_def split: if_splits)
qed

lemma spec_run_accepted:
  "snd (run_outputs replay_spec_step acc sqs) = rev (map fst (filter snd (zip sqs (fst (run_outputs replay_spec_step acc sqs))))) @ acc"
proof (induction sqs arbitrary: acc)
  case Nil
  then show ?case by simp
next
  case (Cons a sqs)
  show ?case
    using Cons.IH [of "snd (replay_spec_step acc a)"]
    by (cases "replay_spec acc a") (simp_all add: replay_spec_step_def case_prod_beta)
qed

lemma spec_run_distinct: "distinct acc \<Longrightarrow> distinct (snd (run_outputs replay_spec_step acc sqs))"
proof (induction sqs arbitrary: acc)
  case Nil
  then show ?case by simp
next
  case (Cons a sqs)
  have "distinct (snd (replay_spec_step acc a))"
    using Cons.prems by (simp add: replay_spec_step_def replay_spec_def)
  from Cons.IH [OF this] show ?case by (simp add: case_prod_beta)
qed

section \<open>Properties\<close>

text \<open>C11. The 64-bit window refines the specification over every sequence of received numbers: it
  accepts a number exactly when it was not accepted before and is less than 64 behind the greatest
  accepted one.\<close>

theorem replay_refines:
  "fst (run_outputs accept ReplayWindow_new sqs) = fst (run_outputs replay_spec_step [] sqs)"
  using replay.sim_run [OF replay_rel_new] by blast

text \<open>Replay safety: over the whole life of a session, no sequence number is accepted twice,
  whatever the order, loss and duplication of the packets.\<close>

lemma replay_never_twice:
  "distinct (map fst (filter snd (zip sqs (fst (run_outputs accept ReplayWindow_new sqs)))))"
proof -
  have "fst (run_outputs accept ReplayWindow_new sqs) = fst (run_outputs replay_spec_step [] sqs)"
    using replay.sim_run [OF replay_rel_new] by blast
  with spec_run_distinct [of "[]" sqs] spec_run_accepted [of "[]" sqs] show ?thesis by simp
qed

end
