(* ===== verification/NetAddr.thy ===== *)
theory NetAddr
  imports Liteway_Prelude "HOL-Library.Product_Lexorder"
begin

text \<open>
  The network address types the daemon uses: \<open>IpAddr\<close> and \<open>SocketAddr\<close> of the Rust standard
  library, with their predicates, their ordering, their \<open>Display\<close> output and the parser behind
  \<open>FromStr\<close>; UTF-8 validation; and the data of \<open>IpNetwork\<close>, whose operations are parameters (theory
  \<open>Externals\<close>).

  An IPv4 address is its 32-bit value, an IPv6 address its 128-bit value. A string is its UTF-8
  byte sequence.
\<close>

unbundle bit_operations_syntax

section \<open>Addresses\<close>

datatype IpAddr = V4 u32 | V6 u128

datatype SocketAddr =
    SocketAddrV4 (sa_ip4: u32) (sa_port4: u16)
  | SocketAddrV6 (sa_ip6: u128) (sa_port6: u16) (sa_flowinfo: u32) (sa_scope_id: u32)

datatype IpNetwork = IpNetwork (net_ip: IpAddr) (net_prefix: u8)

text \<open>\<open>IpAddr\<close> derives \<open>Ord\<close>: every IPv4 address is below every IPv6 address, and addresses of one
  family compare by their octets, which is by their value.\<close>

instantiation IpAddr :: linorder
begin

fun less_eq_IpAddr :: "IpAddr \<Rightarrow> IpAddr \<Rightarrow> bool" where
  "less_eq_IpAddr (V4 a) (V4 b) = (a \<le> b)"
| "less_eq_IpAddr (V4 a) (V6 b) = True"
| "less_eq_IpAddr (V6 a) (V4 b) = False"
| "less_eq_IpAddr (V6 a) (V6 b) = (a \<le> b)"

definition less_IpAddr :: "IpAddr \<Rightarrow> IpAddr \<Rightarrow> bool" where
  "less_IpAddr a b = (a \<le> b \<and> \<not> b \<le> a)"

instance
proof
  fix x y z :: IpAddr
  show "(x < y) = (x \<le> y \<and> \<not> y \<le> x)" by (rule less_IpAddr_def)
  show "x \<le> x" by (cases x) simp_all
  show "x \<le> y \<Longrightarrow> y \<le> z \<Longrightarrow> x \<le> z" by (cases x; cases y; cases z) simp_all
  show "x \<le> y \<Longrightarrow> y \<le> x \<Longrightarrow> x = y" by (cases x; cases y) simp_all
  show "x \<le> y \<or> y \<le> x" by (cases x; cases y) (simp_all add: linear)
qed

end

definition octets4 :: "u32 \<Rightarrow> bytes" where
  "octets4 a = be_bytes 4 (unat a)"

definition segments :: "u128 \<Rightarrow> u16 list" where
  "segments a = map (\<lambda>i. word_of_nat (unat a div 65536 ^ (7 - i))) [0..<8]"

definition from_segments :: "u16 list \<Rightarrow> u128" where
  "from_segments ss = word_of_nat (foldl (\<lambda>acc s. acc * 65536 + unat s) 0 ss)"

text \<open>\<open>Ipv4Addr::is_multicast\<close>, \<open>is_link_local\<close>, \<open>Ipv6Addr::is_multicast\<close>,
  \<open>is_unicast_link_local\<close>.\<close>

fun is_multicast :: "IpAddr \<Rightarrow> bool" where
  "is_multicast (V4 a) = (224 \<le> drop_bit 24 a \<and> drop_bit 24 a \<le> 239)"
| "is_multicast (V6 a) = (drop_bit 120 a = 255)"

fun std_is_link_local :: "IpAddr \<Rightarrow> bool" where
  "std_is_link_local (V4 a) = (drop_bit 16 a = 43518)"
| "std_is_link_local (V6 a) = (drop_bit 118 a = 1018)"

fun is_ipv6 :: "SocketAddr \<Rightarrow> bool" where
  "is_ipv6 (SocketAddrV4 a p) = False"
| "is_ipv6 (SocketAddrV6 a p f s) = True"

section \<open>Strings and UTF-8\<close>

definition as_bytes :: "string \<Rightarrow> bytes" where
  "as_bytes s = map (\<lambda>c. word_of_nat (of_char c)) s"

definition str_of_bytes :: "bytes \<Rightarrow> string" where
  "str_of_bytes bs = map (\<lambda>b. char_of (unat b)) bs"

definition utf8_cont :: "u8 \<Rightarrow> bool" where
  "utf8_cont b \<longleftrightarrow> 128 \<le> b \<and> b \<le> 191"

text \<open>\<open>std::str::from_utf8\<close>: the well-formed byte sequences of the Unicode standard.\<close>

fun utf8_valid :: "bytes \<Rightarrow> bool" where
  "utf8_valid [] = True"
| "utf8_valid (b0 # bs) =
     (if b0 < 128 then utf8_valid bs
      else if 194 \<le> b0 \<and> b0 \<le> 223 then
        (case bs of b1 # r \<Rightarrow> utf8_cont b1 \<and> utf8_valid r | _ \<Rightarrow> False)
      else if 224 \<le> b0 \<and> b0 \<le> 239 then
        (case bs of
           b1 # b2 # r \<Rightarrow>
             utf8_cont b1 \<and> (b0 = 224 \<longrightarrow> 160 \<le> b1) \<and> (b0 = 237 \<longrightarrow> b1 \<le> 159)
               \<and> utf8_cont b2 \<and> utf8_valid r
         | _ \<Rightarrow> False)
      else if 240 \<le> b0 \<and> b0 \<le> 244 then
        (case bs of
           b1 # b2 # b3 # r \<Rightarrow>
             utf8_cont b1 \<and> (b0 = 240 \<longrightarrow> 144 \<le> b1) \<and> (b0 = 244 \<longrightarrow> b1 \<le> 143)
               \<and> utf8_cont b2 \<and> utf8_cont b3 \<and> utf8_valid r
         | _ \<Rightarrow> False)
      else False)"

section \<open>Printing addresses\<close>

definition digit_char :: "nat \<Rightarrow> char" where
  "digit_char d = (if d < 10 then char_of (48 + d) else char_of (87 + d))"

text \<open>The integer formats \<open>{}\<close> (radix 10) and \<open>{:x}\<close> (radix 16): no leading zeros.\<close>

fun show_radix :: "nat \<Rightarrow> nat \<Rightarrow> string" where
  "show_radix r v =
     (if v < r \<or> r < 2 then [digit_char v] else show_radix r (v div r) @ [digit_char (v mod r)])"

declare show_radix.simps [simp del]

definition show_ipv4 :: "u32 \<Rightarrow> string" where
  "show_ipv4 a =
     (let os = map (\<lambda>b. show_radix 10 (unat b)) (octets4 a)
      in os ! 0 @ ''.'' @ os ! 1 @ ''.'' @ os ! 2 @ ''.'' @ os ! 3)"

text \<open>\<open>fmt_subslice\<close> of the IPv6 formatter: hexadecimal groups joined with colons.\<close>

fun fmt_subslice :: "u16 list \<Rightarrow> string" where
  "fmt_subslice [] = []"
| "fmt_subslice [s] = show_radix 16 (unat s)"
| "fmt_subslice (s # ss) = show_radix 16 (unat s) @ '':'' @ fmt_subslice ss"

text \<open>The span of zero groups the formatter replaces by \<open>::\<close>: the first of the longest ones. The
  state is \<open>(index, current start, current length, longest start, longest length)\<close>.\<close>

fun zero_span :: "u16 list \<Rightarrow> nat \<times> nat \<times> nat \<times> nat \<times> nat \<Rightarrow> nat \<times> nat" where
  "zero_span [] (i, cs, cl, ls, ll) = (ls, ll)"
| "zero_span (s # ss) (i, cs, cl, ls, ll) =
     (if s = 0 then
        let cs' = (if cl = 0 then i else cs); cl' = cl + 1
        in zero_span ss (i + 1, cs', cl', if cl' > ll then (cs', cl') else (ls, ll))
      else zero_span ss (i + 1, 0, 0, ls, ll))"

definition ipv4_mapped :: "u128 \<Rightarrow> bool" where
  "ipv4_mapped a \<longleftrightarrow> drop_bit 32 a = 65535"

definition show_ipv6 :: "u128 \<Rightarrow> string" where
  "show_ipv6 a =
     (if ipv4_mapped a then ''::ffff:'' @ show_ipv4 (ucast a)
      else
        let ss = segments a; (start, len) = zero_span ss (0, 0, 0, 0, 0)
        in if len > 1 then fmt_subslice (take start ss) @ ''::'' @ fmt_subslice (drop (start + len) ss)
           else fmt_subslice ss)"

fun IpAddr_to_string :: "IpAddr \<Rightarrow> string" where
  "IpAddr_to_string (V4 a) = show_ipv4 a"
| "IpAddr_to_string (V6 a) = show_ipv6 a"

fun SocketAddr_to_string :: "SocketAddr \<Rightarrow> string" where
  "SocketAddr_to_string (SocketAddrV4 a p) = show_ipv4 a @ '':'' @ show_radix 10 (unat p)"
| "SocketAddr_to_string (SocketAddrV6 a p f s) =
     (if s = 0 then ''['' @ show_ipv6 a @ '']:'' @ show_radix 10 (unat p)
      else ''['' @ show_ipv6 a @ ''%'' @ show_radix 10 (unat s) @ '']:'' @ show_radix 10 (unat p))"

section \<open>Parsing addresses\<close>

text \<open>The standard library's address parser. A parser takes the rest of the input and returns a
  value and what is left, or \<open>None\<close>; \<open>read_atomically\<close> is that a failed parser consumes nothing.\<close>

definition to_digit :: "nat \<Rightarrow> char \<Rightarrow> nat option" where
  "to_digit radix c =
     (let v = (of_char c :: nat);
          d = (if 48 \<le> v \<and> v \<le> 57 then v - 48
               else if 97 \<le> v \<and> v \<le> 122 then v - 87
               else if 65 \<le> v \<and> v \<le> 90 then v - 55
               else radix)
      in if d < radix then Some d else None)"

fun read_digits :: "nat \<Rightarrow> string \<Rightarrow> nat list \<times> string" where
  "read_digits radix [] = ([], [])"
| "read_digits radix (c # cs) =
     (case to_digit radix c of
        None \<Rightarrow> ([], c # cs)
      | Some d \<Rightarrow> (let (ds, rest) = read_digits radix cs in (d # ds, rest)))"

text \<open>\<open>read_number\<close>. With a digit limit the value is accumulated without overflow checks and
  converted at the end; without one, every multiplication and addition is checked. Both fail
  exactly when the value exceeds the target type.\<close>

definition read_number :: "nat \<Rightarrow> nat option \<Rightarrow> bool \<Rightarrow> nat \<Rightarrow> string \<Rightarrow> (nat \<times> string) option" where
  "read_number radix max_digits allow_zero_prefix bound inp =
     (let (ds, rest) = read_digits radix inp; v = foldl (\<lambda>acc d. acc * radix + d) 0 ds
      in if (case max_digits of None \<Rightarrow> False | Some m \<Rightarrow> length ds > m) then None
         else if ds = [] then None
         else if \<not> allow_zero_prefix \<and> hd ds = 0 \<and> length ds > 1 then None
         else if v < bound then Some (v, rest) else None)"

fun read_given_char :: "char \<Rightarrow> string \<Rightarrow> string option" where
  "read_given_char c [] = None"
| "read_given_char c (x # xs) = (if x = c then Some xs else None)"

definition read_separator :: "char \<Rightarrow> nat \<Rightarrow> (string \<Rightarrow> ('a \<times> string) option) \<Rightarrow> string \<Rightarrow> ('a \<times> string) option" where
  "read_separator sep index inner inp =
     (if index > 0 then do { inp' \<leftarrow> read_given_char sep inp; inner inp' } else inner inp)"

definition read_octet :: "nat \<Rightarrow> string \<Rightarrow> (nat \<times> string) option" where
  "read_octet i = read_separator CHR ''.'' i (read_number 10 (Some 3) False 256)"

definition read_ipv4_addr :: "string \<Rightarrow> (u32 \<times> string) option" where
  "read_ipv4_addr s0 = do {
     (a, s1) \<leftarrow> read_octet 0 s0;
     (b, s2) \<leftarrow> read_octet 1 s1;
     (c, s3) \<leftarrow> read_octet 2 s2;
     (d, s4) \<leftarrow> read_octet 3 s3;
     Some (word_of_nat (((a * 256 + b) * 256 + c) * 256 + d), s4)
   }"

text \<open>\<open>read_groups p groups\<close> from group \<open>i\<close> of \<open>limit\<close>: the groups read, whether a trailing IPv4
  address was among them, and the rest of the input.\<close>

function read_groups :: "nat \<Rightarrow> nat \<Rightarrow> string \<Rightarrow> u16 list \<times> bool \<times> string" where
  "read_groups i limit inp =
     (if limit \<le> i then ([], False, inp)
      else
        case (if i + 1 < limit then read_separator CHR '':'' i read_ipv4_addr inp else None) of
          Some (v4, rest) \<Rightarrow> ([word_of_nat (unat v4 div 65536), word_of_nat (unat v4)], True, rest)
        | None \<Rightarrow>
            (case read_separator CHR '':'' i (read_number 16 (Some 4) True 65536) inp of
               None \<Rightarrow> ([], False, inp)
             | Some (g, rest) \<Rightarrow>
                 (let (gs, v4, rest') = read_groups (i + 1) limit rest
                  in (word_of_nat g # gs, v4, rest'))))"
  by pat_completeness auto
termination
  by (relation "measure (\<lambda>(i, limit, inp). limit - i)") auto

declare read_groups.simps [simp del]

definition read_ipv6_addr :: "string \<Rightarrow> (u128 \<times> string) option" where
  "read_ipv6_addr s0 =
     (let (head, head_ipv4, s1) = read_groups 0 8 s0
      in if length head = 8 then Some (from_segments head, s1)
         else if head_ipv4 then None
         else do {
           s2 \<leftarrow> read_given_char CHR '':'' s1;
           s3 \<leftarrow> read_given_char CHR '':'' s2;
           let (tail, _, s4) = read_groups 0 (8 - (length head + 1)) s3;
           Some (from_segments (head @ replicate (8 - length head - length tail) 0 @ tail), s4)
         })"

definition read_ip_addr :: "string \<Rightarrow> (IpAddr \<times> string) option" where
  "read_ip_addr s =
     (case read_ipv4_addr s of
        Some (a, rest) \<Rightarrow> Some (V4 a, rest)
      | None \<Rightarrow> map_option (\<lambda>(a, rest). (V6 a, rest)) (read_ipv6_addr s))"

definition read_port :: "string \<Rightarrow> (u16 \<times> string) option" where
  "read_port s0 = do {
     s1 \<leftarrow> read_given_char CHR '':'' s0;
     (p, s2) \<leftarrow> read_number 10 None True 65536 s1;
     Some (word_of_nat p, s2)
   }"

definition read_scope_id :: "string \<Rightarrow> (u32 \<times> string) option" where
  "read_scope_id s0 = do {
     s1 \<leftarrow> read_given_char CHR ''%'' s0;
     (p, s2) \<leftarrow> read_number 10 None True 4294967296 s1;
     Some (word_of_nat p, s2)
   }"

definition read_socket_addr_v4 :: "string \<Rightarrow> (SocketAddr \<times> string) option" where
  "read_socket_addr_v4 s0 = do {
     (a, s1) \<leftarrow> read_ipv4_addr s0;
     (p, s2) \<leftarrow> read_port s1;
     Some (SocketAddrV4 a p, s2)
   }"

definition read_socket_addr_v6 :: "string \<Rightarrow> (SocketAddr \<times> string) option" where
  "read_socket_addr_v6 s0 = do {
     s1 \<leftarrow> read_given_char CHR ''['' s0;
     (a, s2) \<leftarrow> read_ipv6_addr s1;
     let (scope, s3) = (case read_scope_id s2 of None \<Rightarrow> (0, s2) | Some x \<Rightarrow> x);
     s4 \<leftarrow> read_given_char CHR '']'' s3;
     (p, s5) \<leftarrow> read_port s4;
     Some (SocketAddrV6 a p 0 scope, s5)
   }"

definition parse_with :: "(string \<Rightarrow> ('a \<times> string) option) \<Rightarrow> string \<Rightarrow> 'a option" where
  "parse_with inner s = do { (a, rest) \<leftarrow> inner s; if rest = [] then Some a else None }"

definition IpAddr_parse :: "string \<Rightarrow> IpAddr option" where
  "IpAddr_parse s = parse_with read_ip_addr s"

definition SocketAddr_parse :: "string \<Rightarrow> SocketAddr option" where
  "SocketAddr_parse s =
     parse_with (\<lambda>i. case read_socket_addr_v4 i of Some x \<Rightarrow> Some x | None \<Rightarrow> read_socket_addr_v6 i) s"

end
