(* ===== verification/World.thy ===== *)
theory World
  imports NetAddr
begin

text \<open>
  The environment a node acts on, as explicit state: the random generator, the two clocks, name
  resolution, the UDP socket, the TUN device and the kernel routing table.

  Inputs are streams read from the front: \<open>rng\<close> is the sequence of bytes the thread's generator
  will deliver, \<open>unix\<close> the successive readings of the wall clock in seconds, \<open>mono\<close> the successive
  readings of the monotonic clock, \<open>send_ok\<close> whether the next \<open>send_to\<close> succeeds, \<open>dns\<close> what the
  next name lookup answers. A theorem that quantifies over the world quantifies over every such
  behaviour. Outputs are logs: the datagrams handed to the socket, the packets handed to the TUN
  device, the route changes asked of the kernel. Whether the device takes a packet changes only a warning
  in the program's log, so \<open>tun_write\<close> has no result: an entry of \<open>tun_out\<close> is a call of \<open>write\<close>.
\<close>

datatype io_error = InvalidInput | PermissionDenied | SendFailed | Unsupported | NotFound | Other

datatype route_cmd = RouteAdd string string | RouteDel string string

record world =
  rng :: "nat \<Rightarrow> u8"
  unix :: "nat \<Rightarrow> u64"
  mono :: "nat \<Rightarrow> instant"
  send_ok :: "nat \<Rightarrow> bool"
  dns :: "nat \<Rightarrow> string \<Rightarrow> SocketAddr option"
  outbox :: "(bytes \<times> SocketAddr) list"
  tun_out :: "bytes list"
  route_log :: "route_cmd list"

definition fill_bytes :: "nat \<Rightarrow> world \<Rightarrow> bytes \<times> world" where
  "fill_bytes n w = (map (rng w) [0..<n], w\<lparr>rng := \<lambda>i. rng w (i + n)\<rparr>)"

definition unix_now :: "world \<Rightarrow> u64 \<times> world" where
  "unix_now w = (unix w 0, w\<lparr>unix := \<lambda>i. unix w (i + 1)\<rparr>)"

definition instant_now :: "world \<Rightarrow> instant \<times> world" where
  "instant_now w = (mono w 0, w\<lparr>mono := \<lambda>i. mono w (i + 1)\<rparr>)"

definition resolve :: "string \<Rightarrow> world \<Rightarrow> SocketAddr option \<times> world" where
  "resolve name w = (dns w 0 name, w\<lparr>dns := \<lambda>i. dns w (i + 1)\<rparr>)"

text \<open>\<open>UdpSocket::send_to\<close>: the number of bytes sent, or an error and nothing sent.\<close>

definition send_to :: "bytes \<Rightarrow> SocketAddr \<Rightarrow> world \<Rightarrow> (io_error + nat) \<times> world" where
  "send_to pkt addr w =
     (let w' = w\<lparr>send_ok := \<lambda>i. send_ok w (i + 1)\<rparr>
      in if send_ok w 0 then (Inr (length pkt), w'\<lparr>outbox := outbox w @ [(pkt, addr)]\<rparr>)
         else (Inl SendFailed, w'))"

definition tun_write :: "bytes \<Rightarrow> world \<Rightarrow> world" where
  "tun_write pkt w = w\<lparr>tun_out := tun_out w @ [pkt]\<rparr>"

definition log_route :: "route_cmd \<Rightarrow> world \<Rightarrow> world" where
  "log_route c w = w\<lparr>route_log := route_log w @ [c]\<rparr>"

text \<open>\<open>rand::random::<u32>()\<close> and \<open>rand::random::<u64>()\<close>-sized draws.\<close>

definition random_u32 :: "world \<Rightarrow> u32 \<times> world" where
  "random_u32 w = (let (bs, w') = fill_bytes 4 w in (u32_from_be_bytes bs, w'))"

section \<open>Lemmas\<close>

lemma fst_fill_bytes_length [simp]: "length (fst (fill_bytes n w)) = n"
  by (simp add: fill_bytes_def)

lemma fill_bytes_length: "fill_bytes n w = (bs, w') \<Longrightarrow> length bs = n"
  by (auto simp: fill_bytes_def)

text \<open>Drawing randomness and reading clocks change only the input streams.\<close>

definition same_outputs :: "world \<Rightarrow> world \<Rightarrow> bool" where
  "same_outputs w w' \<longleftrightarrow> outbox w' = outbox w \<and> tun_out w' = tun_out w \<and> route_log w' = route_log w"

lemma same_outputs_refl [simp]: "same_outputs w w"
  by (simp add: same_outputs_def)

lemma same_outputs_trans: "same_outputs a b \<Longrightarrow> same_outputs b c \<Longrightarrow> same_outputs a c"
  by (simp add: same_outputs_def)

lemma same_outputs_fill: "fill_bytes n w = (bs, w') \<Longrightarrow> same_outputs w w'"
  by (auto simp: same_outputs_def fill_bytes_def)

lemma same_outputs_unix: "unix_now w = (t, w') \<Longrightarrow> same_outputs w w'"
  by (auto simp: same_outputs_def unix_now_def)

lemma same_outputs_instant: "instant_now w = (t, w') \<Longrightarrow> same_outputs w w'"
  by (auto simp: same_outputs_def instant_now_def)

lemma outbox_send_to:
  "outbox (snd (send_to pkt addr w)) = outbox w @ (if send_ok w 0 then [(pkt, addr)] else [])"
  by (simp add: send_to_def Let_def)

text \<open>A generator that never goes silent: some later byte is always non-zero. It is what the
  rejection loop of \<open>random_session_id\<close> needs to end, and no draw can break it.\<close>

definition rng_live :: "world \<Rightarrow> bool" where
  "rng_live w \<longleftrightarrow> (\<forall>n. \<exists>i\<ge>n. rng w i \<noteq> 0)"

lemma rng_live_fill: "rng_live w \<Longrightarrow> fill_bytes n w = (bs, w') \<Longrightarrow> rng_live w'"
proof -
  assume live: "rng_live w" and fill: "fill_bytes n w = (bs, w')"
  have "\<exists>i\<ge>m. rng w (i + n) \<noteq> 0" for m
  proof -
    obtain j where j: "j \<ge> m + n" "rng w j \<noteq> 0" using live by (auto simp: rng_live_def)
    then have "j - n \<ge> m \<and> rng w (j - n + n) \<noteq> 0" by simp
    then show ?thesis by blast
  qed
  with fill show ?thesis by (auto simp: rng_live_def fill_bytes_def)
qed

lemma rng_live_unix: "rng_live w \<Longrightarrow> unix_now w = (t, w') \<Longrightarrow> rng_live w'"
  by (auto simp: rng_live_def unix_now_def)

lemma rng_live_instant: "rng_live w \<Longrightarrow> instant_now w = (t, w') \<Longrightarrow> rng_live w'"
  by (auto simp: rng_live_def instant_now_def)

lemma rng_live_send: "rng_live w \<Longrightarrow> send_to pkt addr w = (r, w') \<Longrightarrow> rng_live w'"
  by (auto simp: rng_live_def send_to_def Let_def split: if_splits)

text \<open>A step that only draws randomness.\<close>

definition draws :: "world \<Rightarrow> world \<Rightarrow> bool" where
  "draws w w' \<longleftrightarrow> same_outputs w w' \<and> unix w' = unix w \<and> mono w' = mono w \<and> send_ok w' = send_ok w
     \<and> dns w' = dns w \<and> (rng_live w \<longrightarrow> rng_live w')"

lemma draws_refl [simp]: "draws w w"
  by (simp add: draws_def)

lemma draws_trans: "draws a b \<Longrightarrow> draws b c \<Longrightarrow> draws a c"
  by (auto simp: draws_def intro: same_outputs_trans)

lemma draws_fill: "fill_bytes n w = (bs, w') \<Longrightarrow> draws w w'"
  using rng_live_fill [of w n bs w'] by (auto simp: draws_def same_outputs_def fill_bytes_def)

lemma draws_random_u32: "random_u32 w = (v, w') \<Longrightarrow> draws w w'"
  by (auto simp: random_u32_def split: prod.splits intro: draws_fill)

end
