(* ===== verification/Wire.thy ===== *)
theory Wire
  imports World
begin

text \<open>
  Byte-level encoding shared by \<open>liteway-core/src/packet.rs\<close> and \<open>liteway-core/src/handshake.rs\<close>: the
  cursor-based \<open>Reader\<close> of each file (one returns \<open>Option\<close>, the other an error), the
  length-prefixed vectors, the random padding. The locale \<open>field_codec\<close> states what a field writer
  and its reader promise each other, and is interpreted on every field type of the wire format.
\<close>

section \<open>Definitions\<close>

record reader =
  rd_data :: bytes
  rd_pos :: nat

definition Reader_new :: "bytes \<Rightarrow> reader" where
  "Reader_new data = \<lparr>rd_data = data, rd_pos = 0\<rparr>"

definition rd_bytes :: "nat \<Rightarrow> reader \<Rightarrow> (bytes \<times> reader) option" where
  "rd_bytes len rd =
     (if rd_pos rd + len > length (rd_data rd) then None
      else Some (take len (drop (rd_pos rd) (rd_data rd)), rd\<lparr>rd_pos := rd_pos rd + len\<rparr>))"

definition rd_u8 :: "reader \<Rightarrow> (u8 \<times> reader) option" where
  "rd_u8 rd = do { (bs, rd') \<leftarrow> rd_bytes 1 rd; Some (bs ! 0, rd') }"

definition rd_u32 :: "reader \<Rightarrow> (u32 \<times> reader) option" where
  "rd_u32 rd = do { (bs, rd') \<leftarrow> rd_bytes 4 rd; Some (u32_from_be_bytes bs, rd') }"

definition rd_u64 :: "reader \<Rightarrow> (u64 \<times> reader) option" where
  "rd_u64 rd = do { (bs, rd') \<leftarrow> rd_bytes 8 rd; Some (u64_from_be_bytes bs, rd') }"

definition rd_vec_u32 :: "reader \<Rightarrow> (bytes \<times> reader) option" where
  "rd_vec_u32 rd = do {
     (bs, rd') \<leftarrow> rd_bytes 4 rd;
     rd_bytes (unat (u32_from_be_bytes bs)) rd'
   }"

text \<open>The handshake's reader reports its failures.\<close>

datatype hs_error =
    FieldOutOfBounds
  | DecryptFailed
  | TooShort
  | WrongKind
  | UnsupportedVersion
  | ClockSkew
  | TranscriptMismatch
  | BadCertificate
  | CertVerificationFailed
  | SignatureFailed
  | InvalidMlKemKey
  | InvalidMlKemCiphertext

definition hrd_bytes :: "nat \<Rightarrow> reader \<Rightarrow> hs_error + (bytes \<times> reader)" where
  "hrd_bytes len rd =
     (if rd_pos rd + len > length (rd_data rd) then Inl FieldOutOfBounds
      else Inr (take len (drop (rd_pos rd) (rd_data rd)), rd\<lparr>rd_pos := rd_pos rd + len\<rparr>))"

definition hrd_u8 :: "reader \<Rightarrow> hs_error + (u8 \<times> reader)" where
  "hrd_u8 rd = rbind (hrd_bytes 1 rd) (\<lambda>(bs, rd'). Inr (bs ! 0, rd'))"

text \<open>\<open>array::<N>\<close>: the conversion to \<open>[u8; N]\<close> cannot fail on the \<open>N\<close> bytes just read.\<close>

definition hrd_array :: "nat \<Rightarrow> reader \<Rightarrow> hs_error + (bytes \<times> reader)" where
  "hrd_array n rd = hrd_bytes n rd"

definition hrd_u16 :: "reader \<Rightarrow> hs_error + (u16 \<times> reader)" where
  "hrd_u16 rd = rbind (hrd_array 2 rd) (\<lambda>(bs, rd'). Inr (u16_from_be_bytes bs, rd'))"

definition hrd_u32 :: "reader \<Rightarrow> hs_error + (u32 \<times> reader)" where
  "hrd_u32 rd = rbind (hrd_array 4 rd) (\<lambda>(bs, rd'). Inr (u32_from_be_bytes bs, rd'))"

definition hrd_u64 :: "reader \<Rightarrow> hs_error + (u64 \<times> reader)" where
  "hrd_u64 rd = rbind (hrd_array 8 rd) (\<lambda>(bs, rd'). Inr (u64_from_be_bytes bs, rd'))"

definition hrd_vec_u32 :: "reader \<Rightarrow> hs_error + (bytes \<times> reader)" where
  "hrd_vec_u32 rd = rbind (hrd_u32 rd) (\<lambda>(len, rd'). hrd_bytes (unat len) rd')"

text \<open>\<open>put_vec_u32\<close>: \<open>bytes.len() as u32\<close> keeps the low 32 bits of the length.\<close>

definition put_vec_u32 :: "bytes \<Rightarrow> bytes \<Rightarrow> bytes" where
  "put_vec_u32 out bs = out @ u32_to_be_bytes (word_of_nat (length bs)) @ bs"

definition parse_utf8 :: "bytes \<Rightarrow> string option" where
  "parse_utf8 bs = (if utf8_valid bs then Some (str_of_bytes bs) else None)"

definition add_random_padding :: "bytes \<Rightarrow> world \<Rightarrow> bytes \<times> world" where
  "add_random_padding out w =
     (let (pl, w1) = fill_bytes 1 w;
          pad_len = unat (pl ! 0) mod 32;
          (padding, w2) = fill_bytes pad_len w1
      in (out @ padding, w2))"

section \<open>Reading what was written\<close>

text \<open>A reader that has consumed \<open>pre\<close> and still has \<open>rest\<close> before it.\<close>

definition reader_at :: "bytes \<Rightarrow> bytes \<Rightarrow> reader" where
  "reader_at pre rest = \<lparr>rd_data = pre @ rest, rd_pos = length pre\<rparr>"

lemma Reader_new_at: "Reader_new data = reader_at [] data"
  by (simp add: Reader_new_def reader_at_def)

lemma reader_at_pos [simp]: "rd_pos (reader_at pre rest) = length pre"
  by (simp add: reader_at_def)

lemma reader_at_data [simp]: "rd_data (reader_at pre rest) = pre @ rest"
  by (simp add: reader_at_def)

lemma rd_bytes_at [wire_simps]:
  "length xs = n \<Longrightarrow> rd_bytes n (reader_at pre (xs @ rest)) = Some (xs, reader_at (pre @ xs) rest)"
  by (auto simp: rd_bytes_def reader_at_def)

lemma rd_u8_at [wire_simps]:
  "rd_u8 (reader_at pre (x # rest)) = Some (x, reader_at (pre @ [x]) rest)"
  using rd_bytes_at [of "[x]" 1 pre rest] by (simp add: rd_u8_def)

lemma rd_u32_at [wire_simps]:
  "rd_u32 (reader_at pre (u32_to_be_bytes v @ rest)) = Some (v, reader_at (pre @ u32_to_be_bytes v) rest)"
  by (simp add: rd_u32_def rd_bytes_at)

lemma rd_u64_at [wire_simps]:
  "rd_u64 (reader_at pre (u64_to_be_bytes v @ rest)) = Some (v, reader_at (pre @ u64_to_be_bytes v) rest)"
  by (simp add: rd_u64_def rd_bytes_at)

lemma unat_length_u32: "length bs < 2 ^ 32 \<Longrightarrow> unat (word_of_nat (length bs) :: u32) = length bs"
  by (simp add: unat_of_nat)

lemma rd_vec_u32_at [wire_simps]:
  "length bs < 2 ^ 32 \<Longrightarrow>
   rd_vec_u32 (reader_at pre (put_vec_u32 [] bs @ rest)) = Some (bs, reader_at (pre @ put_vec_u32 [] bs) rest)"
  by (simp add: rd_vec_u32_def put_vec_u32_def rd_bytes_at unat_length_u32 del: power_numeral)

lemma put_vec_u32_append: "put_vec_u32 out bs = out @ put_vec_u32 [] bs"
  by (simp add: put_vec_u32_def)

lemma hrd_bytes_option: "hrd_bytes n rd = (case rd_bytes n rd of None \<Rightarrow> Inl FieldOutOfBounds | Some x \<Rightarrow> Inr x)"
  by (simp add: hrd_bytes_def rd_bytes_def)

lemma hrd_bytes_at [wire_simps]:
  "length xs = n \<Longrightarrow> hrd_bytes n (reader_at pre (xs @ rest)) = Inr (xs, reader_at (pre @ xs) rest)"
  by (simp add: hrd_bytes_option rd_bytes_at)

lemma hrd_array_at [wire_simps]:
  "length xs = n \<Longrightarrow> hrd_array n (reader_at pre (xs @ rest)) = Inr (xs, reader_at (pre @ xs) rest)"
  by (simp add: hrd_array_def hrd_bytes_at)

lemma hrd_u8_at [wire_simps]:
  "hrd_u8 (reader_at pre (x # rest)) = Inr (x, reader_at (pre @ [x]) rest)"
  using hrd_bytes_at [of "[x]" 1 pre rest] by (simp add: hrd_u8_def)

lemma hrd_u16_at [wire_simps]:
  "hrd_u16 (reader_at pre (u16_to_be_bytes v @ rest)) = Inr (v, reader_at (pre @ u16_to_be_bytes v) rest)"
  by (simp add: hrd_u16_def hrd_array_at)

lemma hrd_u32_at [wire_simps]:
  "hrd_u32 (reader_at pre (u32_to_be_bytes v @ rest)) = Inr (v, reader_at (pre @ u32_to_be_bytes v) rest)"
  by (simp add: hrd_u32_def hrd_array_at)

lemma hrd_u64_at [wire_simps]:
  "hrd_u64 (reader_at pre (u64_to_be_bytes v @ rest)) = Inr (v, reader_at (pre @ u64_to_be_bytes v) rest)"
  by (simp add: hrd_u64_def hrd_array_at)

lemma hrd_vec_u32_at [wire_simps]:
  "length bs < 2 ^ 32 \<Longrightarrow>
   hrd_vec_u32 (reader_at pre (put_vec_u32 [] bs @ rest)) = Inr (bs, reader_at (pre @ put_vec_u32 [] bs) rest)"
  by (simp add: hrd_vec_u32_def put_vec_u32_def hrd_u32_at hrd_bytes_at unat_length_u32 del: power_numeral)

text \<open>What a successful read says of the input.\<close>

lemma rd_bytes_SomeD:
  assumes "rd_bytes n rd = Some (bs, rd')"
  shows "length bs = n" "bs = take n (drop (rd_pos rd) (rd_data rd))"
    "rd_data rd' = rd_data rd" "rd_pos rd' = rd_pos rd + n" "rd_pos rd + n \<le> length (rd_data rd)"
  using assms by (auto simp: rd_bytes_def split: if_splits)

lemma hrd_bytes_InrD:
  assumes "hrd_bytes n rd = Inr (bs, rd')"
  shows "length bs = n" "bs = take n (drop (rd_pos rd) (rd_data rd))"
    "rd_data rd' = rd_data rd" "rd_pos rd' = rd_pos rd + n" "rd_pos rd + n \<le> length (rd_data rd)"
  using assms by (auto simp: hrd_bytes_def split: if_splits)

section \<open>The contract of a field\<close>

text \<open>
  A field type of the wire format: its writer, its reader, and the values the writer can represent.
  Reading at a field's first byte returns the value and stops right after its last byte. From that
  alone follows that no encoding is a prefix of another, so a concatenation of fields has one
  reading only, and that a reader cannot be confused by what follows the field.
\<close>

locale field_codec =
  fixes put :: "'a \<Rightarrow> bytes"
    and get :: "reader \<Rightarrow> ('a \<times> reader) option"
    and representable :: "'a \<Rightarrow> bool"
  assumes get_put: "representable v \<Longrightarrow>
    get (reader_at pre (put v @ rest)) = Some (v, reader_at (pre @ put v) rest)"
begin

lemma put_prefix_free:
  assumes "representable v" and "representable v'" and "put v @ xs = put v' @ ys"
  shows "v = v' \<and> xs = ys"
proof -
  have "get (reader_at [] (put v @ xs)) = Some (v, reader_at (put v) xs)"
    using get_put [OF assms(1), of "[]" xs] by simp
  moreover have "get (reader_at [] (put v @ xs)) = Some (v', reader_at (put v') ys)"
    using get_put [OF assms(2), of "[]" ys] assms(3) by simp
  ultimately show ?thesis using assms(3) by auto
qed

lemma put_inj: "representable v \<Longrightarrow> representable v' \<Longrightarrow> put v = put v' \<Longrightarrow> v = v'"
  using put_prefix_free [of v v' "[]" "[]"] by simp

end

interpretation u8_field: field_codec "\<lambda>x. [x]" rd_u8 "\<lambda>_. True"
  by unfold_locales (simp add: rd_u8_at)

interpretation u32_field: field_codec u32_to_be_bytes rd_u32 "\<lambda>_. True"
  by unfold_locales (simp add: rd_u32_at)

interpretation u64_field: field_codec u64_to_be_bytes rd_u64 "\<lambda>_. True"
  by unfold_locales (simp add: rd_u64_at)

interpretation vec_field: field_codec "put_vec_u32 []" rd_vec_u32 "\<lambda>bs. length bs < 2 ^ 32"
  by unfold_locales (rule rd_vec_u32_at)

text \<open>Padding is at most 31 bytes, and only appends.\<close>

lemma add_random_padding_prefix:
  assumes "add_random_padding out w = (res, w')"
  shows "\<exists>pad. res = out @ pad \<and> length pad < 32"
proof -
  obtain pl w1 where 1: "fill_bytes 1 w = (pl, w1)" by fastforce
  obtain pad w2 where 2: "fill_bytes (unat (pl ! 0) mod 32) w1 = (pad, w2)" by fastforce
  have "length pad < 32" using fill_bytes_length [OF 2] by simp
  with assms 1 2 show ?thesis by (auto simp: add_random_padding_def)
qed

lemma same_outputs_padding: "add_random_padding out w = (res, w') \<Longrightarrow> same_outputs w w'"
  by (auto simp: add_random_padding_def fill_bytes_def same_outputs_def Let_def)

lemma draws_padding: "add_random_padding out w = (res, w') \<Longrightarrow> draws w w'"
  by (auto simp: add_random_padding_def split: prod.splits intro: draws_trans draws_fill)

lemma rng_live_padding: "rng_live w \<Longrightarrow> add_random_padding out w = (res, w') \<Longrightarrow> rng_live w'"
  by (auto simp: add_random_padding_def split: prod.splits intro: rng_live_fill)

text \<open>Text that is pure ASCII survives the trip through bytes and UTF-8 validation.\<close>

lemma utf8_valid_ascii: "(\<forall>b \<in> set bs. b < 128) \<Longrightarrow> utf8_valid bs"
  by (induction bs) auto

lemma str_of_as_bytes [simp]: "str_of_bytes (as_bytes s) = s"
proof -
  have "char_of (unat (word_of_nat (of_char c) :: u8)) = c" for c
    by (simp add: unat_of_nat)
  then show ?thesis by (simp add: str_of_bytes_def as_bytes_def comp_def)
qed

definition ascii :: "string \<Rightarrow> bool" where
  "ascii s \<longleftrightarrow> (\<forall>c \<in> set s. of_char c < (128 :: nat))"

lemma parse_utf8_as_bytes: "ascii s \<Longrightarrow> parse_utf8 (as_bytes s) = Some s"
proof -
  assume "ascii s"
  then have "\<forall>b \<in> set (as_bytes s). b < 128"
    by (auto simp: ascii_def as_bytes_def word_less_nat_alt unat_of_nat)
  then show ?thesis by (simp add: parse_utf8_def utf8_valid_ascii)
qed

end
