(* ===== verification/Cert_Types.thy ===== *)
theory Cert_Types
  imports Wire
begin

text \<open>
  The certificate structures of \<open>liteway-core/src/cert.rs\<close>, field for field, and the key structures
  of \<open>liteway-core/src/crypto.rs\<close>. Fixed arrays are byte strings. A \<open>DateTime<Utc>\<close> is an opaque
  integer: the sources only compare what \<open>timestamp()\<close> returns for it and add days to it, both
  operations of the external crate.
\<close>

type_synonym DateTime = int

record CertMeta =
  meta_name :: string
  is_ca :: bool
  not_before :: DateTime
  not_after :: DateTime
  groups :: "string list"

record KeyMaterial =
  ed25519_pk :: bytes
  ml_dsa_pk :: bytes

record NodeAddresses =
  addr_ip :: string
  subnets :: "string list"

record CertBody =
  meta :: CertMeta
  keys :: KeyMaterial
  addresses :: "NodeAddresses option"

record CertSignature =
  csig_ed25519 :: bytes
  csig_ml_dsa :: bytes

record Cert =
  body :: CertBody
  signature :: CertSignature

record CaVerifyKey =
  cavk_ed25519 :: bytes
  cavk_ml_dsa :: bytes

record CaCert =
  ca_meta :: CertMeta
  verify_key :: CaVerifyKey

record CaSigningKey =
  cask_ed25519 :: bytes
  cask_ml_dsa_seed :: bytes

record FullCaCert =
  full_cert :: CaCert
  full_signing_key :: CaSigningKey

record NodeSigningSecretKey =
  nsk_ed25519 :: bytes
  nsk_ml_dsa_seed :: bytes

record NodeKeyFile =
  signing_secret_key :: NodeSigningSecretKey

record HybridSigningKey =
  hsk_ed25519 :: bytes
  hsk_ml_dsa_seed :: bytes

record HybridVerifyKey =
  hvk_ed25519 :: bytes
  hvk_ml_dsa :: bytes

record HybridSignature =
  sig_ed25519 :: bytes
  sig_ml_dsa :: bytes

record HybridKemPublicKey =
  hpk_x25519 :: bytes
  hpk_ml_kem :: bytes

record HybridKemSecretKey =
  hks_x25519 :: bytes
  hks_ml_kem :: bytes

end
