(* ===== verification/Externals.thy ===== *)
theory Externals
  imports Cert_Types
begin

text \<open>
  The third-party crates the sources call, as parameters: a record of functions that every
  definition using them takes as an argument. Nothing is assumed of it in a definition. What the
  sources rely on is stated below as named predicates, the hypotheses of the theorems that need
  them; each is documented behaviour of the crate. \<open>demo_ext\<close> is a small concrete instance, used by
  the witnesses to show that the hypotheses hold together.
\<close>

section \<open>The parameters\<close>

record ext =
  blake3_hash :: "bytes \<Rightarrow> bytes"
  blake3_keyed_hash :: "bytes \<Rightarrow> bytes \<Rightarrow> bytes"
  blake3_derive_key :: "string \<Rightarrow> bytes \<Rightarrow> bytes"
  chacha_encrypt :: "bytes \<Rightarrow> bytes \<Rightarrow> bytes \<Rightarrow> bytes \<Rightarrow> bytes"
  chacha_decrypt :: "bytes \<Rightarrow> bytes \<Rightarrow> bytes \<Rightarrow> bytes \<Rightarrow> bytes option"
  x25519_public :: "bytes \<Rightarrow> bytes"
  x25519_dh :: "bytes \<Rightarrow> bytes \<Rightarrow> bytes"
  mlkem_public :: "bytes \<Rightarrow> bytes"
  mlkem_key_ok :: "bytes \<Rightarrow> bool"
  mlkem_encapsulate :: "bytes \<Rightarrow> bytes \<Rightarrow> bytes \<times> bytes"
  mlkem_ct_ok :: "bytes \<Rightarrow> bool"
  mlkem_decapsulate :: "bytes \<Rightarrow> bytes \<Rightarrow> bytes"
  ed25519_public :: "bytes \<Rightarrow> bytes"
  ed25519_key_ok :: "bytes \<Rightarrow> bool"
  ed25519_sign :: "bytes \<Rightarrow> bytes \<Rightarrow> bytes"
  ed25519_verify_strict :: "bytes \<Rightarrow> bytes \<Rightarrow> bytes \<Rightarrow> bool"
  mldsa_public :: "bytes \<Rightarrow> bytes"
  mldsa_key_ok :: "bytes \<Rightarrow> bool"
  mldsa_sig_ok :: "bytes \<Rightarrow> bool"
  mldsa_sign :: "bytes \<Rightarrow> bytes \<Rightarrow> bytes"
  mldsa_verify :: "bytes \<Rightarrow> bytes \<Rightarrow> bytes \<Rightarrow> bool"
  json_cert :: "Cert \<Rightarrow> bytes"
  json_parse_cert :: "bytes \<Rightarrow> Cert option"
  json_body :: "CertBody \<Rightarrow> bytes"
  json_parse_body :: "bytes \<Rightarrow> CertBody option"
  chrono_timestamp :: "DateTime \<Rightarrow> int"
  chrono_add_days :: "DateTime \<Rightarrow> int \<Rightarrow> DateTime option"
  net_parse :: "string \<Rightarrow> IpNetwork option"
  net_new :: "IpAddr \<Rightarrow> u8 \<Rightarrow> IpNetwork option"
  net_contains :: "IpNetwork \<Rightarrow> IpAddr \<Rightarrow> bool"
  net_network :: "IpNetwork \<Rightarrow> IpAddr"
  net_to_string :: "IpNetwork \<Rightarrow> string"
  hex_encode :: "bytes \<Rightarrow> string"
  hex_decode :: "string \<Rightarrow> bytes option"

section \<open>Documented behaviour, as hypotheses\<close>

text \<open>BLAKE3 digests and derived keys are \<open>[u8; 32]\<close>.\<close>

definition blake3_sized :: "ext \<Rightarrow> bool" where
  "blake3_sized E \<longleftrightarrow>
     (\<forall>m. length (blake3_hash E m) = 32)
   \<and> (\<forall>k m. length (blake3_keyed_hash E k m) = 32)
   \<and> (\<forall>c m. length (blake3_derive_key E c m) = 32)"

text \<open>ChaCha20-Poly1305 decrypts what it encrypted under the same key, nonce and associated data,
  and its ciphertext is the message followed by a 16-byte tag.\<close>

definition aead_correct :: "ext \<Rightarrow> bool" where
  "aead_correct E \<longleftrightarrow>
     (\<forall>k n m a. chacha_decrypt E k n (chacha_encrypt E k n m a) a = Some m)"

definition aead_sized :: "ext \<Rightarrow> bool" where
  "aead_sized E \<longleftrightarrow> (\<forall>k n m a. length (chacha_encrypt E k n m a) = length m + 16)"

text \<open>X25519: public keys and shared secrets are \<open>[u8; 32]\<close>, and the exchange is symmetric.\<close>

definition x25519_correct :: "ext \<Rightarrow> bool" where
  "x25519_correct E \<longleftrightarrow>
     (\<forall>a b. x25519_dh E a (x25519_public E b) = x25519_dh E b (x25519_public E a))
   \<and> (\<forall>a. length (x25519_public E a) = 32)
   \<and> (\<forall>a p. length (x25519_dh E a p) = 32)"

text \<open>ML-KEM-768: sizes of the key, the ciphertext and the secret; keys generated from a seed are
  accepted; ciphertexts of the right size are accepted. Agreement of one encapsulation with the
  decapsulation of its ciphertext is \<open>kem_agrees\<close>, a statement about that one exchange: ML-KEM
  fails with negligible probability, so it is no law.\<close>

definition mlkem_sized :: "ext \<Rightarrow> bool" where
  "mlkem_sized E \<longleftrightarrow>
     (\<forall>s. length (mlkem_public E s) = 1184 \<and> mlkem_key_ok E (mlkem_public E s))
   \<and> (\<forall>p r. length (fst (mlkem_encapsulate E p r)) = 1088 \<and> length (snd (mlkem_encapsulate E p r)) = 32)
   \<and> (\<forall>c. length c = 1088 \<longrightarrow> mlkem_ct_ok E c)
   \<and> (\<forall>s c. length (mlkem_decapsulate E s c) = 32)"

definition kem_agrees :: "ext \<Rightarrow> bytes \<Rightarrow> bytes \<Rightarrow> bool" where
  "kem_agrees E seed r \<longleftrightarrow>
     (let (ct, ss) = mlkem_encapsulate E (mlkem_public E seed) r in mlkem_decapsulate E seed ct = ss)"

text \<open>Both signature schemes verify their own signatures; sizes of keys and signatures.\<close>

definition signatures_correct :: "ext \<Rightarrow> bool" where
  "signatures_correct E \<longleftrightarrow>
     (\<forall>sk m. ed25519_key_ok E (ed25519_public E sk)
           \<and> ed25519_verify_strict E (ed25519_public E sk) m (ed25519_sign E sk m)
           \<and> length (ed25519_public E sk) = 32 \<and> length (ed25519_sign E sk m) = 64)
   \<and> (\<forall>sk m. mldsa_key_ok E (mldsa_public E sk) \<and> mldsa_sig_ok E (mldsa_sign E sk m)
           \<and> mldsa_verify E (mldsa_public E sk) m (mldsa_sign E sk m)
           \<and> length (mldsa_public E sk) = 1952 \<and> length (mldsa_sign E sk m) = 3309)"

text \<open>\<open>serde_json\<close> reads back the certificate it wrote, and a certificate is far below 4 GiB. The
  predicate is about one certificate, so that it can be satisfied by a concrete encoder.\<close>

definition json_cert_ok :: "ext \<Rightarrow> Cert \<Rightarrow> bool" where
  "json_cert_ok E c \<longleftrightarrow> json_parse_cert E (json_cert E c) = Some c \<and> length (json_cert E c) < 2 ^ 32"

end
