(* ===== verification/Crypto.thy ===== *)
theory Crypto
  imports Externals
begin

text \<open>
  \<open>liteway-core/src/crypto.rs\<close>: the constants, key derivation, the authenticated cipher, the hybrid
  key encapsulation (X25519 and ML-KEM-768) and the hybrid signature (Ed25519 and ML-DSA-65), over
  the external primitives. A secret key of ML-KEM is its 64-byte seed, from which the crate
  computes the key deterministically.
\<close>

section \<open>Constants\<close>

definition HYBRID_SHARED_SECRET_LEN :: nat where "HYBRID_SHARED_SECRET_LEN = 64"
definition K_HEADER_LEN :: nat where "K_HEADER_LEN = 32"
definition SESSION_KEY_LEN :: nat where "SESSION_KEY_LEN = 32"
definition NONCE_LEN :: nat where "NONCE_LEN = 12"
definition AEAD_TAG_LEN :: nat where "AEAD_TAG_LEN = 16"
definition MLKEM_PK_LEN :: nat where "MLKEM_PK_LEN = 1184"
definition MLKEM_SK_LEN :: nat where "MLKEM_SK_LEN = 64"
definition MLKEM_CT_LEN :: nat where "MLKEM_CT_LEN = 1088"
definition ED25519_SIG_LEN :: nat where "ED25519_SIG_LEN = 64"
definition MLDSA_SIG_LEN :: nat where "MLDSA_SIG_LEN = 3309"

lemmas crypto_lens = HYBRID_SHARED_SECRET_LEN_def K_HEADER_LEN_def SESSION_KEY_LEN_def NONCE_LEN_def
  AEAD_TAG_LEN_def MLKEM_PK_LEN_def MLKEM_SK_LEN_def MLKEM_CT_LEN_def ED25519_SIG_LEN_def
  MLDSA_SIG_LEN_def

section \<open>Hybrid key encapsulation\<close>

definition generate_mlkem_keypair :: "ext \<Rightarrow> world \<Rightarrow> (bytes \<times> bytes) \<times> world" where
  "generate_mlkem_keypair E w =
     (let (seed, w1) = fill_bytes MLKEM_SK_LEN w in ((seed, mlkem_public E seed), w1))"

definition kem_generate_hybrid_keypair :: "ext \<Rightarrow> world \<Rightarrow> (HybridKemSecretKey \<times> HybridKemPublicKey) \<times> world" where
  "kem_generate_hybrid_keypair E w =
     (let (x_sk, w1) = fill_bytes 32 w;
          x_pk = x25519_public E x_sk;
          ((seed, k_pk), w2) = generate_mlkem_keypair E w1
      in ((\<lparr>hks_x25519 = x_sk, hks_ml_kem = seed\<rparr>, \<lparr>hpk_x25519 = x_pk, hpk_ml_kem = k_pk\<rparr>), w2))"

text \<open>\<open>generate_ephemeral\<close> and \<open>generate_reusable_ephemeral\<close> differ in the Rust type of the X25519
  secret only: the secret key, its public key, the ML-KEM secret and public key.\<close>

definition generate_ephemeral :: "ext \<Rightarrow> world \<Rightarrow> (bytes \<times> bytes \<times> bytes \<times> bytes) \<times> world" where
  "generate_ephemeral E w =
     (let (x_sk, w1) = fill_bytes 32 w;
          ((seed, k_pk), w2) = generate_mlkem_keypair E w1
      in ((x_sk, x25519_public E x_sk, seed, k_pk), w2))"

definition generate_reusable_ephemeral :: "ext \<Rightarrow> world \<Rightarrow> (bytes \<times> bytes \<times> bytes \<times> bytes) \<times> world" where
  "generate_reusable_ephemeral E w =
     (let (x_sk, w1) = fill_bytes 32 w;
          ((seed, k_pk), w2) = generate_mlkem_keypair E w1
      in ((x_sk, x25519_public E x_sk, seed, k_pk), w2))"

definition encapsulate :: "ext \<Rightarrow> bytes \<Rightarrow> bytes \<Rightarrow> world \<Rightarrow> (bytes \<times> bytes \<times> bytes) option \<times> world" where
  "encapsulate E peer_x25519 peer_mlkem w =
     (let (eph_sk, w1) = fill_bytes 32 w;
          eph_pk = x25519_public E eph_sk;
          x25519_ss = x25519_dh E eph_sk peer_x25519
      in if \<not> mlkem_key_ok E peer_mlkem then (None, w1)
         else
           let (r, w2) = fill_bytes 32 w1;
               (mlkem_ct, mlkem_ss) = mlkem_encapsulate E peer_mlkem r
           in (Some (eph_pk, x25519_ss @ mlkem_ss, mlkem_ct), w2))"

definition decapsulate :: "ext \<Rightarrow> bytes \<Rightarrow> bytes \<Rightarrow> bytes \<Rightarrow> bytes \<Rightarrow> bytes option" where
  "decapsulate E x25519_sk peer_x25519 mlkem_sk_bytes ct =
     (let x25519_ss = x25519_dh E x25519_sk peer_x25519
      in if mlkem_ct_ok E ct then Some (x25519_ss @ mlkem_decapsulate E mlkem_sk_bytes ct) else None)"

definition decapsulate_static :: "ext \<Rightarrow> bytes \<Rightarrow> bytes \<Rightarrow> bytes \<Rightarrow> bytes \<Rightarrow> bytes option" where
  "decapsulate_static E x25519_sk_bytes peer_x25519 mlkem_sk_bytes ct =
     (let x25519_ss = x25519_dh E x25519_sk_bytes peer_x25519
      in if mlkem_ct_ok E ct then Some (x25519_ss @ mlkem_decapsulate E mlkem_sk_bytes ct) else None)"

section \<open>Hybrid signatures\<close>

definition sig_generate_hybrid_keypair :: "ext \<Rightarrow> world \<Rightarrow> (HybridSigningKey \<times> HybridVerifyKey) \<times> world" where
  "sig_generate_hybrid_keypair E w =
     (let (seed, w1) = fill_bytes 32 w;
          (ml_seed, w2) = fill_bytes 32 w1
      in ((\<lparr>hsk_ed25519 = seed, hsk_ml_dsa_seed = ml_seed\<rparr>,
           \<lparr>hvk_ed25519 = ed25519_public E seed, hvk_ml_dsa = mldsa_public E ml_seed\<rparr>), w2))"

definition hybrid_sign :: "ext \<Rightarrow> HybridSigningKey \<Rightarrow> bytes \<Rightarrow> HybridSignature" where
  "hybrid_sign E sk msg =
     \<lparr>sig_ed25519 = ed25519_sign E (hsk_ed25519 sk) msg,
      sig_ml_dsa = mldsa_sign E (hsk_ml_dsa_seed sk) msg\<rparr>"

definition hybrid_verify :: "ext \<Rightarrow> HybridVerifyKey \<Rightarrow> bytes \<Rightarrow> HybridSignature \<Rightarrow> bool" where
  "hybrid_verify E vk msg sig =
     (if \<not> ed25519_key_ok E (hvk_ed25519 vk) then False
      else if \<not> ed25519_verify_strict E (hvk_ed25519 vk) msg (sig_ed25519 sig) then False
      else if \<not> mldsa_key_ok E (hvk_ml_dsa vk) then False
      else if \<not> mldsa_sig_ok E (sig_ml_dsa sig) then False
      else mldsa_verify E (hvk_ml_dsa vk) msg (sig_ml_dsa sig))"

section \<open>Key derivation and the cipher\<close>

definition derive_network_key :: "ext \<Rightarrow> bytes \<Rightarrow> bytes" where
  "derive_network_key E network_secret = blake3_derive_key E ''liteway-network-key-v1'' network_secret"

definition derive_session_key :: "ext \<Rightarrow> bytes \<Rightarrow> bytes" where
  "derive_session_key E hybrid_ss = blake3_derive_key E ''liteway-session-key-v1'' hybrid_ss"

definition derive_labeled_key :: "ext \<Rightarrow> string \<Rightarrow> bytes \<Rightarrow> bytes" where
  "derive_labeled_key E context input = blake3_derive_key E context input"

definition derive_payload_key :: "ext \<Rightarrow> bytes \<Rightarrow> bytes \<Rightarrow> bytes" where
  "derive_payload_key E session_key nonce =
     blake3_derive_key E ''liteway-payload-key-v1'' (session_key @ nonce)"

definition aead_encrypt :: "ext \<Rightarrow> bytes \<Rightarrow> bytes \<Rightarrow> bytes \<Rightarrow> bytes \<Rightarrow> bytes" where
  "aead_encrypt E key nonce plaintext aad = chacha_encrypt E key nonce plaintext aad"

definition aead_decrypt :: "ext \<Rightarrow> bytes \<Rightarrow> bytes \<Rightarrow> bytes \<Rightarrow> bytes \<Rightarrow> bytes option" where
  "aead_decrypt E key nonce ciphertext aad = chacha_decrypt E key nonce ciphertext aad"

section \<open>Lemmas\<close>

lemma aead_decrypt_encrypt [wire_simps]:
  "aead_correct E \<Longrightarrow> aead_decrypt E k n (aead_encrypt E k n m a) a = Some m"
  by (simp add: aead_encrypt_def aead_decrypt_def aead_correct_def)

lemma length_aead_encrypt: "aead_sized E \<Longrightarrow> length (aead_encrypt E k n m a) = length m + AEAD_TAG_LEN"
  by (simp add: aead_encrypt_def aead_sized_def AEAD_TAG_LEN_def)

lemma length_derive_labeled_key: "blake3_sized E \<Longrightarrow> length (derive_labeled_key E c m) = 32"
  by (simp add: derive_labeled_key_def blake3_sized_def)

definition hybrid_vk_of :: "ext \<Rightarrow> HybridSigningKey \<Rightarrow> HybridVerifyKey" where
  "hybrid_vk_of E sk =
     \<lparr>hvk_ed25519 = ed25519_public E (hsk_ed25519 sk), hvk_ml_dsa = mldsa_public E (hsk_ml_dsa_seed sk)\<rparr>"

lemma hybrid_verify_sign: "signatures_correct E \<Longrightarrow> hybrid_verify E (hybrid_vk_of E sk) m (hybrid_sign E sk m)"
  by (simp add: hybrid_verify_def hybrid_sign_def hybrid_vk_of_def signatures_correct_def)

lemma HybridSignature_collapse [simp]: "\<lparr>sig_ed25519 = sig_ed25519 s, sig_ml_dsa = sig_ml_dsa s\<rparr> = s"
  by simp

lemma hybrid_verify_both:
  "hybrid_verify E vk m s \<longleftrightarrow>
     ed25519_key_ok E (hvk_ed25519 vk) \<and> ed25519_verify_strict E (hvk_ed25519 vk) m (sig_ed25519 s)
   \<and> mldsa_key_ok E (hvk_ml_dsa vk) \<and> mldsa_sig_ok E (sig_ml_dsa s) \<and> mldsa_verify E (hvk_ml_dsa vk) m (sig_ml_dsa s)"
  by (simp add: hybrid_verify_def)

lemma hybrid_sign_lengths:
  "signatures_correct E \<Longrightarrow> length (sig_ed25519 (hybrid_sign E sk m)) = 64"
  "signatures_correct E \<Longrightarrow> length (sig_ml_dsa (hybrid_sign E sk m)) = 3309"
  by (simp_all add: hybrid_sign_def signatures_correct_def)

end
