(* ===== verification/Cert.thy ===== *)
theory Cert
  imports Crypto
begin

text \<open>
  The operations of \<open>liteway-core/src/cert.rs\<close>: signing and verifying node certificates, and
  generating a CA and a node identity. \<open>Utc::now()\<close> is an argument (the chrono clock's reading);
  \<open>None\<close> of a generator is the panic of chrono when the validity end is out of its range.
\<close>

section \<open>Definitions\<close>

definition nsk_ed25519_public :: "ext \<Rightarrow> NodeSigningSecretKey \<Rightarrow> bytes" where
  "nsk_ed25519_public E sk = ed25519_public E (nsk_ed25519 sk)"

definition CertBody_to_bytes :: "ext \<Rightarrow> CertBody \<Rightarrow> bytes" where
  "CertBody_to_bytes E b = json_body E b"

definition CertBody_from_bytes :: "ext \<Rightarrow> bytes \<Rightarrow> CertBody option" where
  "CertBody_from_bytes E bs = json_parse_body E bs"

definition Cert_sign :: "ext \<Rightarrow> CertBody \<Rightarrow> CaSigningKey \<Rightarrow> Cert" where
  "Cert_sign E b ca_sk =
     (let bs = CertBody_to_bytes E b;
          sk = \<lparr>hsk_ed25519 = cask_ed25519 ca_sk, hsk_ml_dsa_seed = cask_ml_dsa_seed ca_sk\<rparr>;
          sig = hybrid_sign E sk bs
      in \<lparr>body = b, signature = \<lparr>csig_ed25519 = sig_ed25519 sig, csig_ml_dsa = sig_ml_dsa sig\<rparr>\<rparr>)"

text \<open>\<open>Cert::verify\<close>. The wall clock is read after the CA check only; the reading is cast to \<open>i64\<close>.\<close>

definition Cert_verify :: "ext \<Rightarrow> Cert \<Rightarrow> CaVerifyKey \<Rightarrow> world \<Rightarrow> bool \<times> world" where
  "Cert_verify E cert ca_vk w =
     (if is_ca (meta (body cert)) then (False, w)
      else
        let (t, w1) = unix_now w;
            now = sint t;
            nb = chrono_timestamp E (not_before (meta (body cert)));
            na = chrono_timestamp E (not_after (meta (body cert)))
        in if now < nb \<or> now > na then (False, w1)
           else
             let bs = CertBody_to_bytes E (body cert);
                 vk = \<lparr>hvk_ed25519 = cavk_ed25519 ca_vk, hvk_ml_dsa = cavk_ml_dsa ca_vk\<rparr>;
                 sig = \<lparr>sig_ed25519 = csig_ed25519 (signature cert), sig_ml_dsa = csig_ml_dsa (signature cert)\<rparr>
             in (hybrid_verify E vk bs sig, w1))"

text \<open>\<open>years * 365\<close> is an \<open>i64\<close> product; a release build wraps around.\<close>

definition wrap_i64 :: "int \<Rightarrow> int" where
  "wrap_i64 x = sint (word_of_int x :: u64)"

definition generate_ca :: "ext \<Rightarrow> string \<Rightarrow> int \<Rightarrow> string list \<Rightarrow> DateTime \<Rightarrow> world \<Rightarrow> FullCaCert option \<times> world" where
  "generate_ca E name years grps now w =
     (let ((sk, vk), w1) = sig_generate_hybrid_keypair E w
      in case chrono_add_days E now (wrap_i64 (years * 365)) of
           None \<Rightarrow> (None, w1)
         | Some until \<Rightarrow>
             let m = \<lparr>meta_name = name, is_ca = True, not_before = now, not_after = until, groups = grps\<rparr>;
                 ca_cert = \<lparr>ca_meta = m,
                   verify_key = \<lparr>cavk_ed25519 = hvk_ed25519 vk, cavk_ml_dsa = hvk_ml_dsa vk\<rparr>\<rparr>
             in (Some \<lparr>full_cert = ca_cert,
                   full_signing_key = \<lparr>cask_ed25519 = hsk_ed25519 sk, cask_ml_dsa_seed = hsk_ml_dsa_seed sk\<rparr>\<rparr>, w1))"

definition generate_node ::
  "ext \<Rightarrow> string \<Rightarrow> string \<Rightarrow> string list \<Rightarrow> string list \<Rightarrow> CaSigningKey \<Rightarrow> int \<Rightarrow> DateTime \<Rightarrow> world
   \<Rightarrow> (Cert \<times> NodeKeyFile) option \<times> world" where
  "generate_node E name ip subs grps ca_sk days now w =
     (let ((sk, vk), w1) = sig_generate_hybrid_keypair E w
      in case chrono_add_days E now days of
           None \<Rightarrow> (None, w1)
         | Some until \<Rightarrow>
             let b = \<lparr>meta = \<lparr>meta_name = name, is_ca = False, not_before = now, not_after = until, groups = grps\<rparr>,
                   keys = \<lparr>ed25519_pk = hvk_ed25519 vk, ml_dsa_pk = hvk_ml_dsa vk\<rparr>,
                   addresses = Some \<lparr>addr_ip = ip, subnets = subs\<rparr>\<rparr>;
                 cert = Cert_sign E b ca_sk
             in (Some (cert, \<lparr>signing_secret_key =
                   \<lparr>nsk_ed25519 = hsk_ed25519 sk, nsk_ml_dsa_seed = hsk_ml_dsa_seed sk\<rparr>\<rparr>), w1))"

section \<open>Lemmas\<close>

definition cavk_of :: "ext \<Rightarrow> CaSigningKey \<Rightarrow> CaVerifyKey" where
  "cavk_of E sk = \<lparr>cavk_ed25519 = ed25519_public E (cask_ed25519 sk), cavk_ml_dsa = mldsa_public E (cask_ml_dsa_seed sk)\<rparr>"

definition in_validity :: "ext \<Rightarrow> Cert \<Rightarrow> u64 \<Rightarrow> bool" where
  "in_validity E cert t \<longleftrightarrow>
     chrono_timestamp E (not_before (meta (body cert))) \<le> sint t
   \<and> sint t \<le> chrono_timestamp E (not_after (meta (body cert)))"

lemma Cert_verify_iff:
  "fst (Cert_verify E cert ca_vk w) \<longleftrightarrow>
     \<not> is_ca (meta (body cert)) \<and> in_validity E cert (unix w 0)
   \<and> hybrid_verify E \<lparr>hvk_ed25519 = cavk_ed25519 ca_vk, hvk_ml_dsa = cavk_ml_dsa ca_vk\<rparr>
       (CertBody_to_bytes E (body cert))
       \<lparr>sig_ed25519 = csig_ed25519 (signature cert), sig_ml_dsa = csig_ml_dsa (signature cert)\<rparr>"
  by (auto simp: Cert_verify_def unix_now_def in_validity_def Let_def)

lemma Cert_verify_sign:
  assumes "signatures_correct E" and "\<not> is_ca (meta b)" and "in_validity E (Cert_sign E b sk) (unix w 0)"
  shows "fst (Cert_verify E (Cert_sign E b sk) (cavk_of E sk) w)"
proof -
  have "hybrid_verify E (hybrid_vk_of E \<lparr>hsk_ed25519 = cask_ed25519 sk, hsk_ml_dsa_seed = cask_ml_dsa_seed sk\<rparr>)
      (CertBody_to_bytes E b)
      (hybrid_sign E \<lparr>hsk_ed25519 = cask_ed25519 sk, hsk_ml_dsa_seed = cask_ml_dsa_seed sk\<rparr> (CertBody_to_bytes E b))"
    using assms(1) by (rule hybrid_verify_sign)
  with assms(2,3) show ?thesis
    by (simp add: Cert_verify_iff Cert_sign_def cavk_of_def hybrid_vk_of_def Let_def)
qed

lemma Cert_verify_world: "Cert_verify E cert ca_vk w = (r, w') \<Longrightarrow> same_outputs w w' \<and> rng w' = rng w \<and> mono w' = mono w"
  by (auto simp: Cert_verify_def unix_now_def same_outputs_def Let_def split: if_splits)

lemma rng_live_verify: "rng_live w \<Longrightarrow> Cert_verify E cert ca_vk w = (r, w') \<Longrightarrow> rng_live w'"
  using Cert_verify_world [of E cert ca_vk w r w'] by (simp add: rng_live_def)

end
