(* ===== verification/NetText.thy ===== *)
theory NetText
  imports Wire
begin

text \<open>
  The textual addresses inside lighthouse packets read back as the addresses that were printed:
  the parser of the standard library inverts its formatter for every \<open>IpAddr\<close>, IPv6 zero
  compression and IPv4-mapped addresses included, and for every \<open>SocketAddr\<close> without a flow label
  (the text form does not carry one).
\<close>

section \<open>Numbers\<close>

fun digits :: "nat \<Rightarrow> nat \<Rightarrow> nat list" where
  "digits r v = (if v < r \<or> r < 2 then [v] else digits r (v div r) @ [v mod r])"

declare digits.simps [simp del]

lemma show_radix_digits: "show_radix r v = map digit_char (digits r v)"
proof (induction r v rule: digits.induct)
  case (1 r v)
  then show ?case by (cases "v < r \<or> r < 2") (auto simp: digits.simps [of r v] show_radix.simps [of r v])
qed

lemma digits_nonempty [simp]: "digits r v \<noteq> []"
  by (subst digits.simps) simp

lemma digits_less: "2 \<le> r \<Longrightarrow> d \<in> set (digits r v) \<Longrightarrow> d < r"
proof (induction r v rule: digits.induct)
  case (1 r v)
  then show ?case by (cases "v < r \<or> r < 2") (auto simp: digits.simps [of r v])
qed

lemma digits_value: "2 \<le> r \<Longrightarrow> foldl (\<lambda>acc d. acc * r + d) 0 (digits r v) = v"
proof (induction r v rule: digits.induct)
  case (1 r v)
  then show ?case by (cases "v < r \<or> r < 2") (auto simp: digits.simps [of r v])
qed

lemma digits_hd: "2 \<le> r \<Longrightarrow> hd (digits r v) = 0 \<Longrightarrow> length (digits r v) = 1"
proof (induction r v rule: digits.induct)
  case (1 r v)
  show ?case
  proof (cases "v < r")
    case True
    then show ?thesis by (simp add: digits.simps [of r v])
  next
    case False
    with 1(2) have eq: "digits r v = digits r (v div r) @ [v mod r]" by (simp add: digits.simps [of r v])
    with 1 False have "length (digits r (v div r)) = 1" and "hd (digits r (v div r)) = 0" by auto
    then have "digits r (v div r) = [0]" by (cases "digits r (v div r)") auto
    with digits_value [OF 1(2), of "v div r"] have "v div r = 0" by simp
    with False 1(2) show ?thesis by (simp add: div_eq_0_iff)
  qed
qed

lemma length_digits: "2 \<le> r \<Longrightarrow> 0 < k \<Longrightarrow> v < r ^ k \<Longrightarrow> length (digits r v) \<le> k"
proof (induction r v arbitrary: k rule: digits.induct)
  case (1 r v)
  show ?case
  proof (cases "v < r")
    case True
    with 1 show ?thesis by (simp add: digits.simps [of r v])
  next
    case False
    with 1(2) have eq: "digits r v = digits r (v div r) @ [v mod r]" by (simp add: digits.simps [of r v])
    have "k \<noteq> 1" using False 1(4) by auto
    with 1(3) have "1 < k" by simp
    then obtain j where j: "k = Suc j" "0 < j" by (cases k) auto
    with 1(2,4) have "v div r < r ^ j" by (simp add: less_mult_imp_div_less mult.commute)
    with 1 False j have "length (digits r (v div r)) \<le> j" by auto
    with eq j show ?thesis by simp
  qed
qed

definition stops :: "nat \<Rightarrow> string \<Rightarrow> bool" where
  "stops r s \<longleftrightarrow> s = [] \<or> to_digit r (hd s) = None"

lemma stops_Nil [simp]: "stops r []"
  by (simp add: stops_def)

lemma to_digit_digit_char: "d < 16 \<Longrightarrow> r \<le> 16 \<Longrightarrow> to_digit r (digit_char d) = (if d < r then Some d else None)"
  by (auto simp: to_digit_def digit_char_def Let_def of_char_of)

lemma read_digits_stops: "stops r rest \<Longrightarrow> read_digits r rest = ([], rest)"
  by (cases rest) (auto simp: stops_def)

lemma read_digits_map:
  "r \<le> 16 \<Longrightarrow> (\<forall>d\<in>set ds. d < r) \<Longrightarrow> stops r rest \<Longrightarrow> read_digits r (map digit_char ds @ rest) = (ds, rest)"
  by (induction ds) (auto simp: read_digits_stops to_digit_digit_char)

lemma read_number_show:
  assumes "2 \<le> r" and "r \<le> 16" and "stops r rest" and "v < bound"
    and "md = None \<or> (\<exists>m. md = Some m \<and> 0 < m \<and> v < r ^ m)"
  shows "read_number r md az bound (show_radix r v @ rest) = Some (v, rest)"
proof -
  have "read_digits r (show_radix r v @ rest) = (digits r v, rest)"
    using assms(1-3) by (simp add: show_radix_digits read_digits_map digits_less)
  moreover have "\<not> (case md of None \<Rightarrow> False | Some m \<Rightarrow> length (digits r v) > m)"
  proof (cases md)
    case None
    then show ?thesis by simp
  next
    case (Some m)
    with assms(5) have "length (digits r v) \<le> m" by (auto intro: length_digits [OF assms(1)])
    with Some show ?thesis by simp
  qed
  moreover have "\<not> (\<not> az \<and> hd (digits r v) = 0 \<and> length (digits r v) > 1)"
    using digits_hd [OF assms(1), of v] by auto
  moreover have "foldl (\<lambda>acc d. acc * r + d) 0 (digits r v) = v" and "digits r v \<noteq> []"
    using assms(1) by (simp_all add: digits_value)
  ultimately show ?thesis
    using assms(4) unfolding read_number_def by (simp only: Let_def prod.case if_False if_True)
qed

lemma read_number_stops: "stops r s \<Longrightarrow> read_number r md az bound s = None"
  by (simp add: read_number_def read_digits_stops split: option.split)

section \<open>IPv4\<close>

lemma to_digit_punct [simp]:
  "to_digit 10 CHR ''.'' = None" "to_digit 10 CHR '':'' = None" "to_digit 16 CHR '':'' = None"
  "to_digit 10 CHR '']'' = None" "to_digit 16 CHR '']'' = None" "to_digit 10 CHR ''['' = None"
  "to_digit 10 CHR ''%'' = None" "to_digit 16 CHR ''%'' = None"
  by (simp_all add: to_digit_def)

lemma stops_Cons [simp]: "stops r (c # s) \<longleftrightarrow> to_digit r c = None"
  by (simp add: stops_def)

lemma octets4_list:
  "\<exists>a b c d. octets4 x = [a, b, c, d] \<and> word_of_nat (((unat a * 256 + unat b) * 256 + unat c) * 256 + unat d) = x"
proof -
  have "length (octets4 x) = 4" by (simp add: octets4_def)
  then obtain a b c d where l: "octets4 x = [a, b, c, d]"
    by (auto simp: numeral_eq_Suc length_Suc_conv)
  have "be_value (octets4 x) = unat x"
    by (simp add: octets4_def be_value_be_bytes unat_mod_u32)
  with l have "((unat a * 256 + unat b) * 256 + unat c) * 256 + unat d = unat x"
    by (simp add: be_value_def)
  then have "word_of_nat (((unat a * 256 + unat b) * 256 + unat c) * 256 + unat d) = x"
    by (simp only:) simp
  with l show ?thesis by blast
qed

lemma read_octet_show:
  assumes "stops 10 rest"
  shows "read_octet 0 (show_radix 10 (unat (b :: u8)) @ rest) = Some (unat b, rest)"
    and "0 < i \<Longrightarrow> read_octet i (CHR ''.'' # show_radix 10 (unat b) @ rest) = Some (unat b, rest)"
proof -
  have "unat b < 256" using unsigned_less [of b, where ?'a = nat] by simp
  then have "read_number 10 (Some 3) False 256 (show_radix 10 (unat b) @ rest) = Some (unat b, rest)"
    using assms by (intro read_number_show) auto
  then show "read_octet 0 (show_radix 10 (unat b) @ rest) = Some (unat b, rest)"
    and "0 < i \<Longrightarrow> read_octet i (CHR ''.'' # show_radix 10 (unat b) @ rest) = Some (unat b, rest)"
    by (simp_all add: read_octet_def read_separator_def)
qed

lemma read_ipv4_show: "stops 10 rest \<Longrightarrow> read_ipv4_addr (show_ipv4 x @ rest) = Some (x, rest)"
proof -
  assume st: "stops 10 rest"
  obtain a b c d where l: "octets4 x = [a, b, c, d]"
    and v: "word_of_nat (((unat a * 256 + unat b) * 256 + unat c) * 256 + unat d) = x"
    using octets4_list [of x] by blast
  show ?thesis
    using st v
    by (simp add: read_ipv4_addr_def show_ipv4_def l read_octet_show del: of_nat_add of_nat_mult)
qed

text \<open>A hexadecimal group that no dot follows is not mistaken for a dotted quad.\<close>

definition no_dot :: "string \<Rightarrow> bool" where
  "no_dot s \<longleftrightarrow> s = [] \<or> hd s \<noteq> CHR ''.''"

lemma digit_char_not_dot: "d < 16 \<Longrightarrow> digit_char d \<noteq> CHR ''.''"
  using to_digit_digit_char [of d 16] by (auto simp: to_digit_def split: if_splits)

lemma read_digits_hex_no_dot:
  "(\<forall>d\<in>set ds. d < 16) \<Longrightarrow> stops 10 rest \<Longrightarrow> no_dot rest \<Longrightarrow>
   no_dot (snd (read_digits 10 (map digit_char ds @ rest)))"
proof (induction ds)
  case Nil
  then show ?case by (simp add: read_digits_stops)
next
  case (Cons d ds)
  then show ?case
    by (auto simp: to_digit_digit_char digit_char_not_dot no_dot_def case_prod_beta Let_def)
qed

lemma read_ipv4_hex_None:
  assumes "stops 10 rest" and "no_dot rest"
  shows "read_ipv4_addr (show_radix 16 v @ rest) = None"
proof -
  have nd: "no_dot (snd (read_digits 10 (show_radix 16 v @ rest)))"
    using assms by (simp add: show_radix_digits read_digits_hex_no_dot digits_less)
  have "read_octet 1 s = None" if "no_dot s" for s
    using that by (cases s) (auto simp: no_dot_def read_octet_def read_separator_def)
  moreover have "no_dot s1" if "read_octet 0 (show_radix 16 v @ rest) = Some (a, s1)" for a s1
    using that nd
    by (auto simp: read_octet_def read_separator_def read_number_def Let_def split: prod.splits if_splits)
  ultimately show ?thesis
    by (cases "read_octet 0 (show_radix 16 v @ rest)") (auto simp: read_ipv4_addr_def)
qed

lemma read_ipv4_stops: "stops 10 s \<Longrightarrow> read_ipv4_addr s = None"
  by (simp add: read_ipv4_addr_def read_octet_def read_separator_def read_number_stops)

section \<open>IPv6 groups\<close>

definition group_tail :: "u16 list \<Rightarrow> string" where
  "group_tail gs = concat (map (\<lambda>g. CHR '':'' # show_radix 16 (unat g)) gs)"

lemma fmt_subslice_Cons: "fmt_subslice (g # gs) = show_radix 16 (unat g) @ group_tail gs"
  by (induction gs arbitrary: g) (auto simp: group_tail_def)

text \<open>What may follow the groups: nothing, or something that neither extends the last group nor
  starts another one.\<close>

definition ends_groups :: "string \<Rightarrow> bool" where
  "ends_groups s \<longleftrightarrow> stops 16 s \<and> stops 10 s \<and> no_dot s"

definition no_more_groups :: "string \<Rightarrow> bool" where
  "no_more_groups s \<longleftrightarrow> ends_groups s \<and> (\<forall>t. s = CHR '':'' # t \<longrightarrow> stops 16 t \<and> stops 10 t)"

lemma ends_groups_group_tail: "ends_groups rest \<Longrightarrow> ends_groups (group_tail gs @ rest)"
  by (cases gs) (auto simp: group_tail_def ends_groups_def no_dot_def)

lemma read_group:
  assumes "ends_groups rest"
  shows "read_ipv4_addr (show_radix 16 (unat (g :: u16)) @ rest) = None"
    and "read_number 16 (Some 4) True 65536 (show_radix 16 (unat g) @ rest) = Some (unat g, rest)"
proof -
  show "read_ipv4_addr (show_radix 16 (unat g) @ rest) = None"
    using assms by (intro read_ipv4_hex_None) (auto simp: ends_groups_def)
  have "unat g < 65536" using unsigned_less [of g, where ?'a = nat] by simp
  then show "read_number 16 (Some 4) True 65536 (show_radix 16 (unat g) @ rest) = Some (unat g, rest)"
    using assms by (intro read_number_show) (auto simp: ends_groups_def)
qed

lemma read_groups_tail:
  assumes "0 < i" and "i + length gs \<le> limit" and "ends_groups rest"
    and "i + length gs = limit \<or> no_more_groups rest"
  shows "read_groups i limit (group_tail gs @ rest) = (gs, False, rest)"
  using assms
proof (induction gs arbitrary: i)
  case Nil
  show ?case
  proof (cases "limit \<le> i")
    case True
    then show ?thesis by (simp add: read_groups.simps [of i] group_tail_def)
  next
    case False
    with Nil have "no_more_groups rest" by simp
    then have "read_separator CHR '':'' i read_ipv4_addr rest = None"
      and "read_separator CHR '':'' i (read_number 16 (Some 4) True 65536) rest = None"
      using Nil.prems(1)
      by (cases rest; auto simp: read_separator_def no_more_groups_def read_ipv4_stops read_number_stops)+
    with False show ?thesis by (simp add: read_groups.simps [of i] group_tail_def)
  qed
next
  case (Cons g gs)
  have eg: "ends_groups (group_tail gs @ rest)" using Cons.prems(3) by (rule ends_groups_group_tail)
  have inp: "group_tail (g # gs) @ rest = CHR '':'' # show_radix 16 (unat g) @ group_tail gs @ rest"
    by (simp add: group_tail_def)
  have IH: "read_groups (i + 1) limit (group_tail gs @ rest) = (gs, False, rest)"
    using Cons.prems by (intro Cons.IH) auto
  show ?case
    unfolding inp using Cons.prems(1,2) IH
    by (simp add: read_groups.simps [of i] read_separator_def read_group [OF eg])
qed

lemma read_groups_fmt:
  assumes "length gs \<le> limit" and "ends_groups rest" and "length gs = limit \<or> no_more_groups rest"
  shows "read_groups 0 limit (fmt_subslice gs @ rest) = (gs, False, rest)"
proof (cases gs)
  case Nil
  with assms show ?thesis
    by (simp add: read_groups.simps [of 0] read_separator_def read_ipv4_stops read_number_stops ends_groups_def)
next
  case (Cons g gs')
  have eg: "ends_groups (group_tail gs' @ rest)" using assms(2) by (rule ends_groups_group_tail)
  have IH: "read_groups 1 limit (group_tail gs' @ rest) = (gs', False, rest)"
    using assms Cons by (intro read_groups_tail) auto
  from assms(1) Cons have "0 < limit" by simp
  with IH show ?thesis
    unfolding Cons fmt_subslice_Cons append_assoc
    by (simp add: read_groups.simps [of 0] read_separator_def read_group [OF eg])
qed

section \<open>IPv6 addresses\<close>

lemma horner_div: "(v div B ^ Suc k) * B + v div B ^ k mod B = v div (B :: nat) ^ k"
proof -
  have "v div B ^ Suc k = v div B ^ k div B"
    unfolding power_Suc2 by (rule div_mult2_eq)
  then show ?thesis by (simp only: div_mult_mod_eq)
qed

lemma from_segments_segments: "from_segments (segments a) = a"
proof -
  let ?v = "unat a"
  have lt: "?v < 65536 ^ 8" using unsigned_less [of a, where ?'a = nat] by simp
  have h: "?v div 65536 ^ Suc k * 65536 + unat (word_of_nat (?v div 65536 ^ k) :: u16) = ?v div 65536 ^ k" for k
    using horner_div [of ?v 65536 k] by (simp add: unat_of_nat)
  have z: "?v div 65536 ^ 8 = 0" using lt by (simp only: div_less)
  have step: "foldl (\<lambda>acc s. acc * 65536 + unat s) (?v div 65536 ^ n)
      (map (\<lambda>i. word_of_nat (?v div 65536 ^ (n - 1 - i)) :: u16) [0..<n]) = ?v" for n
  proof (induction n)
    case (Suc n)
    have "map (\<lambda>i. word_of_nat (?v div 65536 ^ (Suc n - 1 - i)) :: u16) [0..<Suc n]
        = word_of_nat (?v div 65536 ^ n) # map (\<lambda>i. word_of_nat (?v div 65536 ^ (n - 1 - i))) [0..<n]"
      by (simp only: upt_conv_Cons [OF zero_less_Suc] map_Suc_upt [symmetric]) (simp add: comp_def)
    then show ?case by (simp only: foldl.simps h Suc.IH)
  qed simp
  have "segments a = map (\<lambda>i. word_of_nat (?v div 65536 ^ (8 - 1 - i))) [0..<8]"
    by (simp add: segments_def)
  then show ?thesis unfolding from_segments_def using step [of 8] by (simp only: z) simp
qed

lemma length_segments [simp]: "length (segments a) = 8"
  by (simp add: segments_def)

text \<open>The span the formatter drops consists of zero groups inside the address.\<close>

definition zero_run :: "u16 list \<Rightarrow> nat \<Rightarrow> nat \<Rightarrow> bool" where
  "zero_run xs s l \<longleftrightarrow> s + l \<le> length xs \<and> (\<forall>k<l. xs ! (s + k) = 0)"

lemma zero_span_run:
  assumes "zero_run (pre @ ss) ls ll" and "cl = 0 \<or> cs + cl = length pre" and "zero_run (pre @ ss) cs cl \<or> cl = 0"
    and "zero_span ss (length pre, cs, cl, ls, ll) = (start, len)"
  shows "zero_run (pre @ ss) start len"
  using assms
proof (induction ss arbitrary: pre cs cl ls ll)
  case Nil
  then show ?case by simp
next
  case (Cons x ss)
  show ?case
  proof (cases "x = 0")
    case False
    then have "zero_span ss (length (pre @ [x]), 0, 0, ls, ll) = (start, len)"
      using Cons.prems(4) by simp
    with Cons.IH [of "pre @ [x]" ls ll 0 0] Cons.prems(1) show ?thesis by simp
  next
    case True
    let ?cs = "if cl = 0 then length pre else cs"
    have run: "zero_run ((pre @ [x]) @ ss) ?cs (cl + 1)"
      using Cons.prems(2,3) True
      by (cases "cl = 0") (auto simp: zero_run_def nth_append less_Suc_eq)
    let ?l = "if cl + 1 > ll then (?cs, cl + 1) else (ls, ll)"
    have "zero_run ((pre @ [x]) @ ss) (fst ?l) (snd ?l)" using run Cons.prems(1) by simp
    moreover have "zero_span ss (length (pre @ [x]), ?cs, cl + 1, fst ?l, snd ?l) = (start, len)"
      using Cons.prems(4) True by (simp add: Let_def split: if_splits)
    ultimately have "zero_run ((pre @ [x]) @ ss) start len"
      using Cons.prems(2) run by (intro Cons.IH [of "pre @ [x]" "fst ?l" "snd ?l" "cl + 1" ?cs]) auto
    then show ?thesis by simp
  qed
qed

lemma zero_span_split:
  assumes "zero_span ss (0, 0, 0, 0, 0) = (start, len)"
  shows "start + len \<le> length ss" and "ss = take start ss @ replicate len 0 @ drop (start + len) ss"
proof -
  have run: "zero_run ([] @ ss) start len"
    by (rule zero_span_run [of "[]" ss 0 0 0 0]) (use assms in \<open>auto simp: zero_run_def\<close>)
  then show le: "start + len \<le> length ss" by (simp add: zero_run_def)
  have "take len (drop start ss) = replicate len 0"
    using run by (intro nth_equalityI) (auto simp: zero_run_def)
  moreover have "take start ss @ (take len (drop start ss) @ drop len (drop start ss)) = ss"
    by (simp only: append_take_drop_id)
  ultimately have "take start ss @ replicate len 0 @ drop (len + start) ss = ss"
    by (simp only: drop_drop)
  then show "ss = take start ss @ replicate len 0 @ drop (start + len) ss"
    unfolding add.commute [of start len] by (rule sym)
qed

lemma read_ipv6_compressed:
  assumes "zero_span (segments a) (0, 0, 0, 0, 0) = (start, len)" and "len > 1" and "no_more_groups rest"
  shows "read_ipv6_addr (fmt_subslice (take start (segments a)) @ ''::'' @ fmt_subslice (drop (start + len) (segments a)) @ rest)
    = Some (a, rest)"
proof -
  let ?h = "take start (segments a)" and ?t = "drop (start + len) (segments a)"
  have le: "start + len \<le> 8" and split: "segments a = ?h @ replicate len 0 @ ?t"
    using zero_span_split [OF assms(1)] by simp_all
  have "no_more_groups (''::'' @ s)" for s
    by (simp add: no_more_groups_def ends_groups_def no_dot_def)
  then have h: "read_groups 0 8 (fmt_subslice ?h @ ''::'' @ fmt_subslice ?t @ rest) = (?h, False, ''::'' @ fmt_subslice ?t @ rest)"
    using le by (intro read_groups_fmt) (auto simp: no_more_groups_def)
  have t: "read_groups 0 (8 - (length ?h + 1)) (fmt_subslice ?t @ rest) = (?t, False, rest)"
    using le assms(2,3) by (intro read_groups_fmt) (auto simp: no_more_groups_def)
  have "8 - length ?h - length ?t = len" using le by simp
  then have "from_segments (?h @ replicate (8 - length ?h - length ?t) 0 @ ?t) = a"
    using split from_segments_segments [of a] by metis
  moreover have "length ?h \<noteq> 8" using le assms(2) by simp
  ultimately show ?thesis unfolding read_ipv6_addr_def h using t by simp
qed

lemma split_u32:
  "v < 2 ^ 32 \<Longrightarrow> unat (word_of_nat (v div 65536) :: u16) * 65536 + unat (word_of_nat v :: u16) = v"
  by (simp add: unat_of_nat)

lemma from_segments_mapped:
  assumes "ipv4_mapped a"
  shows "from_segments ([0, 0, 0, 0, 0] @ [65535, word_of_nat (unat (ucast a :: u32) div 65536), word_of_nat (unat (ucast a :: u32))]) = a"
proof -
  let ?v = "unat (ucast a :: u32)"
  have "unat (drop_bit 32 a) = 65535" using assms unfolding ipv4_mapped_def by (simp only:) simp
  then have "drop_bit 32 (unat a) = 65535" by (simp only: unat_drop_bit_eq)
  then have d: "unat a div 2 ^ 32 = 65535" by (simp only: drop_bit_eq_div)
  have m: "?v = unat a mod 2 ^ 32" by (simp add: unsigned_ucast_eq take_bit_eq_mod)
  have "?v < 2 ^ 32" using m by simp
  then have "unat (word_of_nat (?v div 65536) :: u16) * 65536 + unat (word_of_nat ?v :: u16) = ?v"
    by (rule split_u32)
  then have "(65535 * 65536 + unat (word_of_nat (?v div 65536) :: u16)) * 65536 + unat (word_of_nat ?v :: u16)
      = 65535 * 2 ^ 32 + ?v"
    by simp
  also have "\<dots> = unat a" using d m by (metis div_mult_mod_eq)
  finally have "(65535 * 65536 + unat (word_of_nat (?v div 65536) :: u16)) * 65536 + unat (word_of_nat ?v :: u16) = unat a" .
  then show ?thesis by (simp add: from_segments_def del: of_nat_add of_nat_mult)
qed

lemma read_ipv4_colon: "read_ipv4_addr (CHR '':'' # s) = None"
  by (rule read_ipv4_stops) simp

lemma read_ipv6_mapped:
  assumes "ipv4_mapped a" and "ends_groups rest"
  shows "read_ipv6_addr (''::ffff:'' @ show_ipv4 (ucast a) @ rest) = Some (a, rest)"
proof -
  let ?s = "show_ipv4 (ucast a :: u32)"
  have h: "read_groups 0 8 (''::ffff:'' @ ?s @ rest) = ([], False, ''::ffff:'' @ ?s @ rest)"
    by (simp add: read_groups.simps [of 0] read_separator_def read_ipv4_colon read_number_stops)
  have ffff: "show_radix 16 (unat (65535 :: u16)) = ''ffff''"
    by (simp add: show_radix.simps digit_char_def) code_simp
  have eg: "ends_groups (CHR '':'' # t)" for t by (simp add: ends_groups_def no_dot_def)
  have g0: "read_ipv4_addr (''ffff:'' @ t) = None"
    "read_number 16 (Some 4) True 65536 (''ffff:'' @ t) = Some (65535, CHR '':'' # t)" for t
    using read_group [OF eg [of t], of 65535] unfolding ffff by simp_all
  have v4: "read_ipv4_addr (?s @ rest) = Some (ucast a, rest)"
    using assms(2) by (simp add: read_ipv4_show ends_groups_def)
  have g1: "read_groups 1 7 (CHR '':'' # ?s @ rest)
      = ([word_of_nat (unat (ucast a :: u32) div 65536), word_of_nat (unat (ucast a :: u32))], True, rest)"
    by (simp add: read_groups.simps [of "Suc 0"] read_separator_def v4)
  have t: "read_groups 0 7 (''ffff:'' @ ?s @ rest)
      = ([65535, word_of_nat (unat (ucast a :: u32) div 65536), word_of_nat (unat (ucast a :: u32))], True, rest)"
    using g0 [of "?s @ rest"] g1 by (simp add: read_groups.simps [of 0] read_separator_def)
  have "replicate 5 (0 :: u16) = [0, 0, 0, 0, 0]" by (simp add: numeral_eq_Suc)
  then show ?thesis
    unfolding read_ipv6_addr_def h using t from_segments_mapped [OF assms(1)] by simp
qed

lemma read_ipv6_show: "no_more_groups rest \<Longrightarrow> read_ipv6_addr (show_ipv6 a @ rest) = Some (a, rest)"
proof -
  assume r: "no_more_groups rest"
  then have eg: "ends_groups rest" by (simp add: no_more_groups_def)
  obtain start len where z: "zero_span (segments a) (0, 0, 0, 0, 0) = (start, len)" by (cases "zero_span (segments a) (0, 0, 0, 0, 0)")
  consider (mapped) "ipv4_mapped a" | (span) "\<not> ipv4_mapped a" "len > 1" | (full) "\<not> ipv4_mapped a" "\<not> len > 1"
    by blast
  then show ?thesis
  proof cases
    case mapped
    with read_ipv6_mapped [OF mapped eg] show ?thesis by (simp add: show_ipv6_def)
  next
    case span
    with read_ipv6_compressed [OF z _ r] show ?thesis by (simp add: show_ipv6_def z Let_def)
  next
    case full
    have "read_groups 0 8 (fmt_subslice (segments a) @ rest) = (segments a, False, rest)"
      using eg by (intro read_groups_fmt) auto
    with full show ?thesis
      by (simp add: show_ipv6_def z read_ipv6_addr_def from_segments_segments)
  qed
qed

lemma IpAddr_parse_ipv4: "IpAddr_parse (IpAddr_to_string (V4 x)) = Some (V4 x)"
  using read_ipv4_show [of "[]" x] by (simp add: IpAddr_parse_def parse_with_def read_ip_addr_def stops_def)

text \<open>The text of an IPv6 address never starts like a dotted quad.\<close>

lemma read_ipv4_show_ipv6: "read_ipv4_addr (show_ipv6 a @ rest) = None"
proof -
  obtain start len where z: "zero_span (segments a) (0, 0, 0, 0, 0) = (start, len)" by (cases "zero_span (segments a) (0, 0, 0, 0, 0)")
  have colon: "read_ipv4_addr (fmt_subslice gs @ CHR '':'' # t) = None" for gs t
  proof (cases gs)
    case (Cons g gs')
    have "stops 10 (group_tail gs' @ CHR '':'' # t)" and "no_dot (group_tail gs' @ CHR '':'' # t)"
      by (cases gs'; simp add: group_tail_def no_dot_def)+
    then show ?thesis by (simp add: Cons fmt_subslice_Cons read_ipv4_hex_None)
  qed (simp add: read_ipv4_colon)
  have full: "read_ipv4_addr (fmt_subslice (segments a) @ rest) = None"
  proof -
    obtain g g' gs where s: "segments a = g # g' # gs"
      using length_segments [of a] by (cases "segments a" rule: fmt_subslice.cases) simp_all
    have "fmt_subslice (segments a) @ rest = fmt_subslice [g] @ CHR '':'' # fmt_subslice (g' # gs) @ rest"
      by (simp add: s)
    then show ?thesis by (simp only: colon)
  qed
  show ?thesis
    using colon full by (simp add: show_ipv6_def z Let_def read_ipv4_colon)
qed

text \<open>What the daemon writes into a packet for an address is read back as that address.\<close>

lemma IpAddr_parse_to_string: "IpAddr_parse (IpAddr_to_string a) = Some a"
proof (cases a)
  case (V4 x)
  then show ?thesis by (simp only: IpAddr_parse_ipv4)
next
  case (V6 x)
  have "no_more_groups []" by (simp add: no_more_groups_def ends_groups_def stops_def no_dot_def)
  with V6 read_ipv6_show [of "[]" x] read_ipv4_show_ipv6 [of x "[]"] show ?thesis
    by (simp add: IpAddr_parse_def parse_with_def read_ip_addr_def)
qed

lemma read_port_show: "read_port (CHR '':'' # show_radix 10 (unat p)) = Some (p, [])"
proof -
  have "unat p < 65536" using unsigned_less [of p, where ?'a = nat] by simp
  then have "read_number 10 None True 65536 (show_radix 10 (unat p) @ []) = Some (unat p, [])"
    by (intro read_number_show) (auto simp: stops_def)
  then show ?thesis by (simp add: read_port_def)
qed

lemma read_scope_show:
  "stops 10 rest \<Longrightarrow> read_scope_id (CHR ''%'' # show_radix 10 (unat s) @ rest) = Some (s, rest)"
proof -
  assume "stops 10 rest"
  moreover have "unat s < 4294967296" using unsigned_less [of s, where ?'a = nat] by simp
  ultimately have "read_number 10 None True 4294967296 (show_radix 10 (unat s) @ rest) = Some (unat s, rest)"
    by (intro read_number_show) auto
  then show ?thesis by (simp add: read_scope_id_def)
qed

fun no_flowinfo :: "SocketAddr \<Rightarrow> bool" where
  "no_flowinfo (SocketAddrV4 a p) = True"
| "no_flowinfo (SocketAddrV6 a p f s) = (f = 0)"

lemma SocketAddr_parse_to_string: "no_flowinfo s \<Longrightarrow> SocketAddr_parse (SocketAddr_to_string s) = Some s"
proof (cases s)
  case (SocketAddrV4 a p)
  have "read_ipv4_addr (show_ipv4 a @ CHR '':'' # show_radix 10 (unat p)) = Some (a, CHR '':'' # show_radix 10 (unat p))"
    by (rule read_ipv4_show) simp
  with SocketAddrV4 show ?thesis
    by (simp add: SocketAddr_parse_def parse_with_def read_socket_addr_v4_def read_port_show)
next
  case (SocketAddrV6 a p f sc)
  assume "no_flowinfo s"
  with SocketAddrV6 have f: "f = 0" by simp
  let ?t = "CHR '']'' # CHR '':'' # show_radix 10 (unat p)"
  have nm: "no_more_groups (CHR '']'' # t)" "no_more_groups (CHR ''%'' # t)" for t
    by (simp_all add: no_more_groups_def ends_groups_def no_dot_def)
  have v4: "read_ipv4_addr (CHR ''['' # t) = None" for t by (rule read_ipv4_stops) simp
  have noscope: "read_scope_id ?t = None" by (simp add: read_scope_id_def)
  show ?thesis
    using f read_ipv6_show [OF nm(1), of a] read_ipv6_show [OF nm(2), of a] read_scope_show [of ?t sc]
    by (cases "sc = 0")
      (simp_all add: SocketAddrV6 SocketAddr_parse_def parse_with_def read_socket_addr_v4_def
        read_socket_addr_v6_def v4 noscope read_port_show)
qed

section \<open>The text is short ASCII\<close>

lemma ascii_digit_char: "d < 16 \<Longrightarrow> of_char (digit_char d) < (128 :: nat)"
  by (auto simp: digit_char_def of_char_of)

definition text_within :: "nat \<Rightarrow> string \<Rightarrow> bool" where
  "text_within n s \<longleftrightarrow> ascii s \<and> length s \<le> n"

lemma text_within_append: "text_within m s \<Longrightarrow> text_within n t \<Longrightarrow> m + n \<le> k \<Longrightarrow> text_within k (s @ t)"
  by (auto simp: text_within_def ascii_def)

lemma text_within_mono: "text_within m s \<Longrightarrow> m \<le> n \<Longrightarrow> text_within n s"
  by (simp add: text_within_def)

lemma text_within_show_radix:
  assumes "2 \<le> r" and "r \<le> 16" and "0 < k" and "v < r ^ k"
  shows "text_within k (show_radix r v)"
proof -
  have "d < 16" if "d \<in> set (digits r v)" for d
    using digits_less [OF assms(1) that] assms(2) by simp
  moreover have "length (digits r v) \<le> k" using assms by (intro length_digits)
  ultimately show ?thesis
    using assms(1) by (auto simp: text_within_def ascii_def show_radix_digits ascii_digit_char)
qed

lemma text_within_show_ipv4: "text_within 15 (show_ipv4 x)"
proof -
  obtain a b c d where l: "octets4 x = [a, b, c, d]" using octets4_list [of x] by blast
  have o: "text_within 3 (show_radix 10 (unat b))" for b :: u8
    using unsigned_less [of b, where ?'a = nat] by (intro text_within_show_radix) auto
  have dot: "text_within 1 ''.''" by (simp add: text_within_def ascii_def)
  show ?thesis
    unfolding show_ipv4_def l
    using o [of a] o [of b] o [of c] o [of d] dot by (auto simp: text_within_def ascii_def)
qed

lemma text_within_fmt: "text_within (5 * length gs) (fmt_subslice gs)"
proof (induction gs rule: fmt_subslice.induct)
  case 1
  then show ?case by (simp add: text_within_def ascii_def)
next
  case (2 s)
  have "text_within 4 (show_radix 16 (unat s))"
    using unsigned_less [of s, where ?'a = nat] by (intro text_within_show_radix) auto
  then show ?case by (auto intro: text_within_mono)
next
  case (3 s s' ss)
  have "text_within 4 (show_radix 16 (unat s))"
    using unsigned_less [of s, where ?'a = nat] by (intro text_within_show_radix) auto
  with 3 show ?case by (auto simp: text_within_def ascii_def)
qed

lemma text_within_show_ipv6: "text_within 42 (show_ipv6 a)"
proof -
  obtain start len where z: "zero_span (segments a) (0, 0, 0, 0, 0) = (start, len)" by (cases "zero_span (segments a) (0, 0, 0, 0, 0)")
  show ?thesis
    using text_within_show_ipv4 [of "ucast a"] text_within_fmt [of "segments a"]
      text_within_fmt [of "take start (segments a)"] text_within_fmt [of "drop (start + len) (segments a)"]
    by (auto simp: show_ipv6_def z Let_def text_within_def ascii_def)
qed

lemma text_within_IpAddr: "text_within 42 (IpAddr_to_string a)"
  by (cases a) (auto intro: text_within_mono [OF text_within_show_ipv4] text_within_show_ipv6)

lemma text_within_SocketAddr: "text_within 61 (SocketAddr_to_string s)"
proof -
  have p: "text_within 5 (show_radix 10 (unat p))" for p :: u16
    using unsigned_less [of p, where ?'a = nat] by (intro text_within_show_radix) auto
  have sc: "text_within 10 (show_radix 10 (unat p))" for p :: u32
    using unsigned_less [of p, where ?'a = nat] by (intro text_within_show_radix) auto
  show ?thesis
  proof (cases s)
    case (SocketAddrV4 a q)
    with p [of q] text_within_show_ipv4 [of a] show ?thesis by (auto simp: text_within_def ascii_def)
  next
    case (SocketAddrV6 a q f c)
    with p [of q] sc [of c] text_within_show_ipv6 [of a] show ?thesis by (auto simp: text_within_def ascii_def)
  qed
qed

text \<open>The form the packet proofs use: the bytes of an address decode to its text, and fit a length
  prefix.\<close>

lemma address_text [wire_simps]:
  "parse_utf8 (as_bytes (IpAddr_to_string a)) = Some (IpAddr_to_string a)"
  "parse_utf8 (as_bytes (SocketAddr_to_string s)) = Some (SocketAddr_to_string s)"
  "length (IpAddr_to_string a) < 4294967296"
  "length (SocketAddr_to_string s) < 4294967296"
  using text_within_IpAddr [of a] text_within_SocketAddr [of s]
  by (auto simp: text_within_def intro: parse_utf8_as_bytes)

end
