(* ===== verification/Demo_Ext.thy ===== *)
theory Demo_Ext
  imports Cert NetText
begin

text \<open>
  \<open>demo_ext\<close>, one concrete choice of the external functions, and \<open>demo_world\<close>, a concrete
  environment. They play no part in any definition or theorem about the program: they show that the
  hypotheses stated of the external crates hold together, and let a witness compute. The functions
  have the documented sizes and algebra (the exchange is symmetric, a signature verifies under its
  own key, the cipher inverts) and no security whatsoever.
\<close>

definition fit :: "nat \<Rightarrow> bytes \<Rightarrow> bytes" where
  "fit n bs = take n (bs @ replicate n 0)"

definition demo_mask :: "IpAddr \<Rightarrow> u8 \<Rightarrow> IpAddr" where
  "demo_mask a p =
     (case a of
        V4 x \<Rightarrow> V4 (word_of_nat (unat x div 2 ^ (32 - unat p) * 2 ^ (32 - unat p)))
      | V6 x \<Rightarrow> V6 (word_of_nat (unat x div 2 ^ (128 - unat p) * 2 ^ (128 - unat p))))"

fun demo_same_family :: "IpAddr \<Rightarrow> IpAddr \<Rightarrow> bool" where
  "demo_same_family (V4 _) (V4 _) = True"
| "demo_same_family (V6 _) (V6 _) = True"
| "demo_same_family _ _ = False"

definition demo_net_new :: "IpAddr \<Rightarrow> u8 \<Rightarrow> IpNetwork option" where
  "demo_net_new a p =
     (if unat p \<le> (case a of V4 _ \<Rightarrow> 32 | V6 _ \<Rightarrow> 128) then Some (IpNetwork a p) else None)"

definition demo_net_parse :: "string \<Rightarrow> IpNetwork option" where
  "demo_net_parse s =
     (let addr = takeWhile (\<lambda>c. c \<noteq> CHR ''/'') s; rest = dropWhile (\<lambda>c. c \<noteq> CHR ''/'') s
      in do {
        ip \<leftarrow> IpAddr_parse addr;
        case rest of
          [] \<Rightarrow> demo_net_new ip (case ip of V4 _ \<Rightarrow> 32 | V6 _ \<Rightarrow> 128)
        | _ # ds \<Rightarrow> do {
            (p, left) \<leftarrow> read_number 10 (Some 3) True 256 ds;
            if left = [] then demo_net_new ip (word_of_nat p) else None }
      })"

fun demo_unhex :: "string \<Rightarrow> bytes option" where
  "demo_unhex [] = Some []"
| "demo_unhex [_] = None"
| "demo_unhex (a # b # cs) = do {
     x \<leftarrow> to_digit 16 a; y \<leftarrow> to_digit 16 b; r \<leftarrow> demo_unhex cs; Some (word_of_nat (x * 16 + y) # r) }"

definition demo_body :: CertBody where
  "demo_body =
     \<lparr>meta = \<lparr>meta_name = ''n1'', is_ca = False, not_before = 0, not_after = 1000000, groups = []\<rparr>,
      keys = \<lparr>ed25519_pk = fit 32 [2], ml_dsa_pk = fit 1952 [2]\<rparr>,
      addresses = Some \<lparr>addr_ip = ''10.0.0.2/24'', subnets = []\<rparr>\<rparr>"

definition demo_cert :: Cert where
  "demo_cert =
     \<lparr>body = demo_body,
      signature = \<lparr>csig_ed25519 = fit 64 (fit 32 [9]), csig_ml_dsa = fit 3309 (fit 32 [9])\<rparr>\<rparr>"

text \<open>A second identity.\<close>

definition demo_body2 :: CertBody where
  "demo_body2 =
     \<lparr>meta = \<lparr>meta_name = ''n2'', is_ca = False, not_before = 0, not_after = 1000000, groups = []\<rparr>,
      keys = \<lparr>ed25519_pk = fit 32 [3], ml_dsa_pk = fit 1952 [3]\<rparr>,
      addresses = Some \<lparr>addr_ip = ''10.0.0.3/24'', subnets = []\<rparr>\<rparr>"

definition demo_cert2 :: Cert where
  "demo_cert2 =
     \<lparr>body = demo_body2,
      signature = \<lparr>csig_ed25519 = fit 64 (fit 32 [9]), csig_ml_dsa = fit 3309 (fit 32 [9])\<rparr>\<rparr>"

definition demo_ext :: ext where
  "demo_ext =
     \<lparr>blake3_hash = (\<lambda>m. fit 32 (drop 18 m)),
      blake3_keyed_hash = (\<lambda>k m. fit 32 (m @ k)),
      blake3_derive_key = (\<lambda>c m. fit 32 m),
      chacha_encrypt = (\<lambda>k n m a. m @ fit 16 k),
      chacha_decrypt = (\<lambda>k n c a.
        if length c < 16 \<or> drop (length c - 16) c \<noteq> fit 16 k then None
        else Some (take (length c - 16) c)),
      x25519_public = fit 32,
      x25519_dh = (\<lambda>a p. map2 (+) (fit 32 a) (fit 32 p)),
      mlkem_public = fit 1184,
      mlkem_key_ok = (\<lambda>p. True),
      mlkem_encapsulate = (\<lambda>p r. (fit 1088 r, fit 32 r)),
      mlkem_ct_ok = (\<lambda>c. True),
      mlkem_decapsulate = (\<lambda>s c. fit 32 c),
      ed25519_public = fit 32,
      ed25519_key_ok = (\<lambda>p. True),
      ed25519_sign = (\<lambda>sk m. fit 64 (fit 32 sk)),
      ed25519_verify_strict = (\<lambda>pk m s. s = fit 64 (fit 32 pk)),
      mldsa_public = fit 1952,
      mldsa_key_ok = (\<lambda>p. True),
      mldsa_sig_ok = (\<lambda>s. True),
      mldsa_sign = (\<lambda>sk m. fit 3309 (fit 32 sk)),
      mldsa_verify = (\<lambda>pk m s. s = fit 3309 (fit 32 pk)),
      json_cert = (\<lambda>c. if c = demo_cert2 then [2] else [1]),
      json_parse_cert = (\<lambda>bs. Some (if bs = [2] then demo_cert2 else demo_cert)),
      json_body = (\<lambda>b. [2]),
      json_parse_body = (\<lambda>bs. Some demo_body),
      chrono_timestamp = (\<lambda>t. t),
      chrono_add_days = (\<lambda>t d. Some (t + 86400 * d)),
      net_parse = demo_net_parse,
      net_new = demo_net_new,
      net_contains = (\<lambda>n a. demo_same_family (net_ip n) a \<and> demo_mask (net_ip n) (net_prefix n) = demo_mask a (net_prefix n)),
      net_network = (\<lambda>n. demo_mask (net_ip n) (net_prefix n)),
      net_to_string = (\<lambda>n. IpAddr_to_string (net_ip n) @ ''/'' @ show_radix 10 (unat (net_prefix n))),
      hex_encode = (\<lambda>bs. concat (map (\<lambda>b. [digit_char (unat b div 16), digit_char (unat b mod 16)]) bs)),
      hex_decode = demo_unhex\<rparr>"

definition demo_world :: world where
  "demo_world =
     \<lparr>rng = (\<lambda>i. 7), unix = (\<lambda>i. 1000), mono = (\<lambda>i. 1000000000), send_ok = (\<lambda>i. True),
      dns = (\<lambda>i s. None), outbox = [], tun_out = [], route_log = []\<rparr>"

section \<open>The instance satisfies the hypotheses\<close>

lemma length_fit [simp]: "length (fit n bs) = n"
  by (simp add: fit_def)

lemma fit_fit: "m \<le> n \<Longrightarrow> fit m (fit n bs) = fit m bs"
  by (rule nth_equalityI) (auto simp: fit_def nth_append)

lemma demo_blake3 [simp]: "blake3_sized demo_ext"
  by (simp add: blake3_sized_def demo_ext_def)

lemma demo_aead [simp]: "aead_correct demo_ext" "aead_sized demo_ext"
  by (simp_all add: aead_correct_def aead_sized_def demo_ext_def)

lemma map2_plus_commute: "map2 (+) xs ys = map2 (+) ys (xs :: bytes)"
  by (induction xs ys rule: list_induct2') (simp_all add: add.commute)

lemma demo_x25519 [simp]: "x25519_correct demo_ext"
proof -
  have "fit 32 (fit 32 b) = fit 32 b" for b by (simp add: fit_fit)
  then show ?thesis
    using map2_plus_commute by (auto simp: x25519_correct_def demo_ext_def)
qed

lemma demo_mlkem [simp]: "mlkem_sized demo_ext" "kem_agrees demo_ext seed r"
  by (simp_all add: mlkem_sized_def kem_agrees_def demo_ext_def fit_fit)

lemma demo_signatures [simp]: "signatures_correct demo_ext"
  by (simp add: signatures_correct_def demo_ext_def fit_fit)

lemma demo_certs_differ: "demo_cert \<noteq> demo_cert2" "demo_cert2 \<noteq> demo_cert"
  by (simp_all add: demo_cert_def demo_cert2_def demo_body_def demo_body2_def)

lemma demo_json [simp]: "json_cert_ok demo_ext demo_cert" "json_cert_ok demo_ext demo_cert2"
  by (simp_all add: json_cert_ok_def demo_ext_def demo_certs_differ)

lemma demo_rng [simp]: "rng_live demo_world"
  by (auto simp: rng_live_def demo_world_def)

lemma demo_net_contains:
  "net_contains demo_ext n a \<longleftrightarrow>
     demo_same_family (net_ip n) a \<and> demo_mask (net_ip n) (net_prefix n) = demo_mask a (net_prefix n)"
  by (simp add: demo_ext_def)

end
