(* ===== verification/Routes.thy ===== *)
theory Routes
  imports Demo_Ext
begin

text \<open>
  \<open>RouteTable\<close> of \<open>litewayd/src/state.rs\<close>: which peer carries an overlay destination. The table is a
  list; \<open>route_map\<close> is what it promises, a map from networks to peers, and \<open>lookup\<close> is a
  longest-prefix match over it in which the most recently installed of equally long prefixes wins.
\<close>

section \<open>Definitions\<close>

record RouteTable =
  routes :: "(IpNetwork \<times> u32) list"

definition RouteTable_new :: RouteTable where
  "RouteTable_new = \<lparr>routes = []\<rparr>"

definition RouteTable_insert :: "RouteTable \<Rightarrow> IpNetwork \<Rightarrow> u32 \<Rightarrow> RouteTable" where
  "RouteTable_insert t network pid =
     t\<lparr>routes := filter (\<lambda>(n, _). n \<noteq> network) (routes t) @ [(network, pid)]\<rparr>"

definition RouteTable_lookup :: "ext \<Rightarrow> RouteTable \<Rightarrow> IpAddr \<Rightarrow> u32 option" where
  "RouteTable_lookup E t ip =
     map_option snd
       (max_by_key (\<lambda>(net, _). net_prefix net) (filter (\<lambda>(net, _). net_contains E net ip) (routes t)))"

definition RouteTable_remove_peer :: "RouteTable \<Rightarrow> u32 \<Rightarrow> RouteTable" where
  "RouteTable_remove_peer t pid = t\<lparr>routes := filter (\<lambda>(_, i). i \<noteq> pid) (routes t)\<rparr>"

section \<open>Specification\<close>

definition route_map :: "RouteTable \<Rightarrow> IpNetwork \<rightharpoonup> u32" where
  "route_map t = map_of (routes t)"

definition routes_wf :: "RouteTable \<Rightarrow> bool" where
  "routes_wf t \<longleftrightarrow> distinct (map fst (routes t))"

text \<open>The operations as events of a run.\<close>

datatype route_event = RInsert IpNetwork u32 | RRemove u32

fun route_step :: "route_event \<Rightarrow> RouteTable \<Rightarrow> RouteTable" where
  "route_step (RInsert n i) t = RouteTable_insert t n i"
| "route_step (RRemove i) t = RouteTable_remove_peer t i"

section \<open>Lemmas\<close>

lemma routes_wf_insert: "routes_wf t \<Longrightarrow> routes_wf (RouteTable_insert t n i)"
  by (auto simp: routes_wf_def RouteTable_insert_def distinct_map_filter)

lemma routes_wf_remove: "routes_wf t \<Longrightarrow> routes_wf (RouteTable_remove_peer t i)"
  by (simp add: routes_wf_def RouteTable_remove_peer_def distinct_map_filter)

interpretation route_run: step_machine RouteTable_new route_step "\<lambda>_. True" routes_wf
proof
  show "routes_wf RouteTable_new" by (simp add: routes_wf_def RouteTable_new_def)
next
  fix e t
  assume "routes_wf t"
  then show "routes_wf (route_step e t)" by (cases e) (auto intro: routes_wf_insert routes_wf_remove)
qed

lemma route_map_insert: "route_map (RouteTable_insert t n i) = (route_map t)(n \<mapsto> i)"
proof
  fix m
  have "map_of (filter (\<lambda>(k, _). k \<noteq> n) xs) m = (if m = n then None else map_of xs m)" for xs :: "(IpNetwork \<times> u32) list"
    by (induction xs) auto
  then show "route_map (RouteTable_insert t n i) m = ((route_map t)(n \<mapsto> i)) m"
    by (auto simp: route_map_def RouteTable_insert_def map_add_def split: option.splits)
qed

lemma route_map_remove:
  "routes_wf t \<Longrightarrow> route_map (RouteTable_remove_peer t i) n = (if route_map t n = Some i then None else route_map t n)"
  by (auto simp: route_map_def RouteTable_remove_peer_def routes_wf_def map_of_filter_wf split: option.splits)

text \<open>\<open>max_by_key\<close> returns the last maximal element, so an element appended at the end wins ties.\<close>

lemma max_by_key_snoc:
  "(\<forall>y\<in>set xs. f y \<le> f x) \<Longrightarrow> max_by_key f (xs @ [x]) = Some x"
  by (induction xs) auto

lemma lookup_SomeE:
  assumes "RouteTable_lookup E t ip = Some i"
  obtains n where "(n, i) \<in> set (routes t)" "net_contains E n ip"
    "\<forall>(m, j) \<in> set (routes t). net_contains E m ip \<longrightarrow> net_prefix m \<le> net_prefix n"
proof -
  let ?c = "filter (\<lambda>(net, _). net_contains E net ip) (routes t)"
  obtain n where m: "max_by_key (\<lambda>(net, _). net_prefix net) ?c = Some (n, i)"
    using assms by (auto simp: RouteTable_lookup_def)
  from max_by_key_in [OF m] have "(n, i) \<in> set (routes t)" "net_contains E n ip" by auto
  moreover have "net_prefix k \<le> net_prefix n" if "(k, j) \<in> set (routes t)" "net_contains E k ip" for k j
    using max_by_key_max [OF m, of "(k, j)"] that by simp
  ultimately show thesis using that by blast
qed

lemma lookup_None: "RouteTable_lookup E t ip = None \<longleftrightarrow> (\<forall>(n, i) \<in> set (routes t). \<not> net_contains E n ip)"
  by (auto simp: RouteTable_lookup_def filter_empty_conv)

lemma lookup_not_removed: "RouteTable_lookup E (RouteTable_remove_peer t i) ip \<noteq> Some i"
proof
  assume "RouteTable_lookup E (RouteTable_remove_peer t i) ip = Some i"
  then show False by (elim lookup_SomeE) (simp add: RouteTable_remove_peer_def)
qed

lemma lookup_insert_wins:
  assumes "net_contains E n ip"
    and "\<forall>(m, j) \<in> set (routes t). net_contains E m ip \<longrightarrow> net_prefix m \<le> net_prefix n"
  shows "RouteTable_lookup E (RouteTable_insert t n i) ip = Some i"
proof -
  have "max_by_key (\<lambda>(net, _). net_prefix net)
      (filter (\<lambda>(net, _). net_contains E net ip) (filter (\<lambda>(k, _). k \<noteq> n) (routes t)) @ [(n, i)]) = Some (n, i)"
    using assms(2) by (intro max_by_key_snoc) auto
  with assms(1) show ?thesis by (simp add: RouteTable_lookup_def RouteTable_insert_def)
qed

section \<open>Properties\<close>

text \<open>C29. After any sequence of insertions and removals, lookup is a longest-prefix match: it fails
  exactly when no installed network contains the address, and otherwise answers a peer of an
  installed network that contains the address and is at least as long as every other that does.\<close>

theorem lookup_longest_prefix:
  assumes "t = fold route_step es RouteTable_new"
  shows "(case RouteTable_lookup E t ip of
      None \<Rightarrow> \<forall>n. route_map t n \<noteq> None \<longrightarrow> \<not> net_contains E n ip
    | Some i \<Rightarrow> \<exists>n. route_map t n = Some i \<and> net_contains E n ip
        \<and> (\<forall>m. route_map t m \<noteq> None \<longrightarrow> net_contains E m ip \<longrightarrow> net_prefix m \<le> net_prefix n))"
proof -
  have wf: "routes_wf t" using route_run.inv_reachable [of es] by (simp add: assms list_all_iff)
  have mem: "route_map t n = Some i \<longleftrightarrow> (n, i) \<in> set (routes t)" for n i
    using wf by (simp add: route_map_def routes_wf_def)
  show ?thesis
  proof (cases "RouteTable_lookup E t ip")
    case None
    then have "\<forall>n. route_map t n \<noteq> None \<longrightarrow> \<not> net_contains E n ip"
      unfolding lookup_None using mem by fastforce
    with None show ?thesis by simp
  next
    case (Some i)
    then obtain n where n: "route_map t n = Some i" "net_contains E n ip"
      and m: "\<forall>(m, j) \<in> set (routes t). net_contains E m ip \<longrightarrow> net_prefix m \<le> net_prefix n"
      by (elim lookup_SomeE) (auto simp: mem)
    have "net_prefix k \<le> net_prefix n" if "route_map t k \<noteq> None" "net_contains E k ip" for k
      using m that mem by fastforce
    with n Some show ?thesis by auto
  qed
qed

theorem lookup_longest_prefix_witness:
  "\<exists>n. route_map (fold route_step [RInsert (IpNetwork (V4 0x0A000000) 8) 1, RInsert (IpNetwork (V4 0x0A010000) 16) 2] RouteTable_new) n = Some 2
    \<and> net_contains demo_ext n (V4 0x0A010203)"
proof -
  let ?t = "fold route_step [RInsert (IpNetwork (V4 0x0A000000) 8) 1, RInsert (IpNetwork (V4 0x0A010000) 16) 2] RouteTable_new"
  have "RouteTable_lookup demo_ext ?t (V4 0x0A010203) = Some 2"
    by (simp add: RouteTable_lookup_def RouteTable_insert_def RouteTable_new_def demo_net_contains demo_mask_def)
  with lookup_longest_prefix [of ?t "[RInsert (IpNetwork (V4 0x0A000000) 8) 1, RInsert (IpNetwork (V4 0x0A010000) 16) 2]" demo_ext "V4 0x0A010203"]
  show ?thesis by auto
qed

text \<open>C18. A route just installed carries its addresses unless a longer prefix matches: it replaces
  any earlier entry for the same network and wins ties, every other network keeps its peer, and
  after \<open>remove_peer\<close> no lookup answers the removed peer while the routes of other peers stay.\<close>

theorem route_table_updates:
  assumes "t = fold route_step es RouteTable_new"
  shows "route_map (RouteTable_insert t n i) = (route_map t)(n \<mapsto> i)
    \<and> (net_contains E n ip \<and> (\<forall>m. route_map t m \<noteq> None \<longrightarrow> net_contains E m ip \<longrightarrow> net_prefix m \<le> net_prefix n)
         \<longrightarrow> RouteTable_lookup E (RouteTable_insert t n i) ip = Some i)
    \<and> RouteTable_lookup E (RouteTable_remove_peer t i) ip \<noteq> Some i
    \<and> route_map (RouteTable_remove_peer t i) n = (if route_map t n = Some i then None else route_map t n)"
proof -
  have wf: "routes_wf t" using route_run.inv_reachable [of es] by (simp add: assms list_all_iff)
  have "RouteTable_lookup E (RouteTable_insert t n i) ip = Some i"
    if "net_contains E n ip" "\<forall>m. route_map t m \<noteq> None \<longrightarrow> net_contains E m ip \<longrightarrow> net_prefix m \<le> net_prefix n"
    using that wf by (intro lookup_insert_wins) (auto simp: route_map_def routes_wf_def)
  with lookup_not_removed route_map_insert route_map_remove [OF wf] show ?thesis by blast
qed

theorem route_table_updates_witness:
  "RouteTable_lookup demo_ext (RouteTable_insert (fold route_step [] RouteTable_new) (IpNetwork (V4 0x0A000000) 8) 1) (V4 0x0A010203) = Some 1"
proof -
  have "net_contains demo_ext (IpNetwork (V4 0x0A000000) 8) (V4 0x0A010203)"
    by (simp add: demo_net_contains demo_mask_def)
  then show ?thesis
    using route_table_updates [OF refl, of "[]" "IpNetwork (V4 0x0A000000) 8" 1 demo_ext "V4 0x0A010203"]
    by (simp add: RouteTable_new_def route_map_def)
qed

end
