(* ===== verification/Packet.thy ===== *)
theory Packet
  imports Cert
begin

text \<open>
  \<open>liteway-core/src/packet.rs\<close>: the masked network header, the sealed session packets and their
  eight kinds of body. The encoders draw padding and nonces from the world they are given.
\<close>

unbundle bit_operations_syntax

section \<open>Constants and data\<close>

definition MASK_NONCE_LEN :: nat where "MASK_NONCE_LEN = 8"
definition NETWORK_HEADER_LEN :: nat where "NETWORK_HEADER_LEN = 16"
definition PACKET_OVERHEAD :: nat where
  "PACKET_OVERHEAD = MASK_NONCE_LEN + NETWORK_HEADER_LEN + NONCE_LEN + AEAD_TAG_LEN"
definition MIN_PACKET_LEN :: nat where "MIN_PACKET_LEN = PACKET_OVERHEAD"

definition KIND_DATA :: u8 where "KIND_DATA = 0x21"
definition KIND_RELAY_FORWARD :: u8 where "KIND_RELAY_FORWARD = 0x22"
definition KIND_DISCONNECT :: u8 where "KIND_DISCONNECT = 0x23"
definition KIND_LIGHTHOUSE_QUERY :: u8 where "KIND_LIGHTHOUSE_QUERY = 0x24"
definition KIND_LIGHTHOUSE_RESPONSE :: u8 where "KIND_LIGHTHOUSE_RESPONSE = 0x25"
definition KIND_LIGHTHOUSE_NOT_FOUND :: u8 where "KIND_LIGHTHOUSE_NOT_FOUND = 0x26"
definition KIND_KEEPALIVE :: u8 where "KIND_KEEPALIVE = 0x27"
definition KIND_KEEPALIVE_ACK :: u8 where "KIND_KEEPALIVE_ACK = 0x28"
definition KIND_HANDSHAKE_1 :: u8 where "KIND_HANDSHAKE_1 = 0x11"
definition KIND_HANDSHAKE_2 :: u8 where "KIND_HANDSHAKE_2 = 0x12"
definition KIND_HANDSHAKE_FRAG :: u8 where "KIND_HANDSHAKE_FRAG = 0x13"

lemmas kind_defs = KIND_DATA_def KIND_RELAY_FORWARD_def KIND_DISCONNECT_def KIND_LIGHTHOUSE_QUERY_def
  KIND_LIGHTHOUSE_RESPONSE_def KIND_LIGHTHOUSE_NOT_FOUND_def KIND_KEEPALIVE_def KIND_KEEPALIVE_ACK_def
  KIND_HANDSHAKE_1_def KIND_HANDSHAKE_2_def KIND_HANDSHAKE_FRAG_def

lemmas packet_lens = MASK_NONCE_LEN_def NETWORK_HEADER_LEN_def PACKET_OVERHEAD_def MIN_PACKET_LEN_def
  NONCE_LEN_def AEAD_TAG_LEN_def

record DataPacket =
  mask_nonce :: bytes
  masked_header :: bytes
  nonce :: bytes
  ciphertext :: bytes

record NetworkHeader =
  kind :: u8
  frag_index :: u8
  frag_total :: u8
  dst_peer_id :: u32
  session_id :: u32

datatype PacketBody =
    Data (seq: u64) (ip_packet: bytes)
  | RelayForward (seq: u64) (next_peer_id: u32) (inner_packet: bytes)
  | Disconnect (seq: u64)
  | LighthouseQuery (seq: u64) (target_ip: IpAddr)
  | LighthouseResponse (seq: u64) (target_ip: IpAddr) (peer_id: u32) (peer_addr: SocketAddr)
      (peer_cert: Cert) (peer_is_relay: bool)
  | LighthouseNotFound (seq: u64) (target_ip: IpAddr)
  | Keepalive (seq: u64) (token: u64)
  | KeepaliveAck (seq: u64) (token: u64)

section \<open>The network header\<close>

definition encode_header :: "NetworkHeader \<Rightarrow> bytes" where
  "encode_header h =
     [kind h, frag_index h, frag_total h, 0] @ u32_to_be_bytes (dst_peer_id h)
       @ u32_to_be_bytes (session_id h) @ [0, 0, 0, 0]"

definition known_kind :: "u8 \<Rightarrow> bool" where
  "known_kind k \<longleftrightarrow>
     k \<in> {KIND_DATA, KIND_RELAY_FORWARD, KIND_DISCONNECT, KIND_LIGHTHOUSE_QUERY,
          KIND_LIGHTHOUSE_RESPONSE, KIND_LIGHTHOUSE_NOT_FOUND, KIND_KEEPALIVE, KIND_KEEPALIVE_ACK,
          KIND_HANDSHAKE_1, KIND_HANDSHAKE_2, KIND_HANDSHAKE_FRAG}"

definition decode_header :: "bytes \<Rightarrow> NetworkHeader option" where
  "decode_header bs =
     (if bs ! 3 \<noteq> 0 \<or> take 4 (drop 12 bs) \<noteq> [0, 0, 0, 0] then None
      else if \<not> known_kind (bs ! 0) then None
      else Some \<lparr>kind = bs ! 0, frag_index = bs ! 1, frag_total = bs ! 2,
                 dst_peer_id = u32_from_be_bytes (take 4 (drop 4 bs)),
                 session_id = u32_from_be_bytes (take 4 (drop 8 bs))\<rparr>)"

definition xor_mask :: "bytes \<Rightarrow> bytes \<Rightarrow> bytes" where
  "xor_mask plain msk = map2 (XOR) plain msk"

definition header_mask :: "ext \<Rightarrow> bytes \<Rightarrow> bytes \<Rightarrow> bytes" where
  "header_mask E mn network_key =
     blake3_keyed_hash E (derive_labeled_key E ''liteway-network-header-mask-v1'' network_key) mn"

definition mask_network_header :: "ext \<Rightarrow> NetworkHeader \<Rightarrow> bytes \<Rightarrow> bytes \<Rightarrow> bytes" where
  "mask_network_header E header mn network_key =
     xor_mask (encode_header header) (header_mask E mn network_key)"

definition unmask_header_bytes :: "ext \<Rightarrow> bytes \<Rightarrow> bytes \<Rightarrow> bytes \<Rightarrow> NetworkHeader option" where
  "unmask_header_bytes E mn masked network_key =
     decode_header (xor_mask masked (header_mask E mn network_key))"

definition unmask_header :: "ext \<Rightarrow> DataPacket \<Rightarrow> bytes \<Rightarrow> NetworkHeader option" where
  "unmask_header E pkt network_key = unmask_header_bytes E (mask_nonce pkt) (masked_header pkt) network_key"

definition unmask_packet_header :: "ext \<Rightarrow> DataPacket \<Rightarrow> bytes \<Rightarrow> NetworkHeader option" where
  "unmask_packet_header E pkt network_key = unmask_header E pkt network_key"

definition packet_aad :: "DataPacket \<Rightarrow> bytes" where
  "packet_aad pkt = mask_nonce pkt @ masked_header pkt"

definition serialize_packet :: "DataPacket \<Rightarrow> bytes" where
  "serialize_packet pkt = mask_nonce pkt @ masked_header pkt @ nonce pkt @ ciphertext pkt"

definition deserialize_packet :: "bytes \<Rightarrow> DataPacket option" where
  "deserialize_packet data =
     (if length data < MIN_PACKET_LEN then None
      else Some \<lparr>mask_nonce = take MASK_NONCE_LEN data,
                 masked_header = take NETWORK_HEADER_LEN (drop MASK_NONCE_LEN data),
                 nonce = take NONCE_LEN (drop (MASK_NONCE_LEN + NETWORK_HEADER_LEN) data),
                 ciphertext = drop (MASK_NONCE_LEN + NETWORK_HEADER_LEN + NONCE_LEN) data\<rparr>)"

definition network_header :: "ext \<Rightarrow> bytes \<Rightarrow> bytes \<Rightarrow> NetworkHeader option" where
  "network_header E data network_key =
     (if length data < MIN_PACKET_LEN then None
      else unmask_header_bytes E (take MASK_NONCE_LEN data)
             (take NETWORK_HEADER_LEN (drop MASK_NONCE_LEN data)) network_key)"

definition derive_traffic_key :: "ext \<Rightarrow> bytes \<Rightarrow> u32 \<Rightarrow> u32 \<Rightarrow> bytes" where
  "derive_traffic_key E session_key src_id dst_id =
     derive_labeled_key E ''liteway-traffic-key-v2''
       (session_key @ u32_to_be_bytes src_id @ u32_to_be_bytes dst_id)"

section \<open>Sealing\<close>

definition packet_key :: "ext \<Rightarrow> bytes \<Rightarrow> bytes" where
  "packet_key E session_key = derive_labeled_key E ''liteway-packet-key-v2'' session_key"

definition seal ::
  "ext \<Rightarrow> u8 \<Rightarrow> u32 \<Rightarrow> u32 \<Rightarrow> bytes \<Rightarrow> bytes \<Rightarrow> bytes \<Rightarrow> world \<Rightarrow> DataPacket \<times> world" where
  "seal E k dst sid network_key session_key plaintext w =
     (let header = \<lparr>kind = k, frag_index = 0, frag_total = 0, dst_peer_id = dst, session_id = sid\<rparr>;
          (mn, w1) = fill_bytes MASK_NONCE_LEN w;
          (n, w2) = fill_bytes NONCE_LEN w1;
          mh = mask_network_header E header mn network_key;
          pkt_for_aad = \<lparr>mask_nonce = mn, masked_header = mh, nonce = n, ciphertext = []\<rparr>;
          aad = packet_aad pkt_for_aad;
          ct = aead_encrypt E (packet_key E session_key) n plaintext aad
      in (\<lparr>mask_nonce = mn, masked_header = mh, nonce = n, ciphertext = ct\<rparr>, w2))"

definition encrypt_data_packet ::
  "ext \<Rightarrow> u64 \<Rightarrow> u32 \<Rightarrow> u32 \<Rightarrow> bytes \<Rightarrow> bytes \<Rightarrow> bytes \<Rightarrow> world \<Rightarrow> DataPacket \<times> world" where
  "encrypt_data_packet E sq dst sid pkt network_key session_key w =
     (let plaintext = put_vec_u32 (KIND_DATA # u64_to_be_bytes sq) pkt;
          (padded, w1) = add_random_padding plaintext w
      in seal E KIND_DATA dst sid network_key session_key padded w1)"

definition encrypt_disconnect_packet ::
  "ext \<Rightarrow> u64 \<Rightarrow> u32 \<Rightarrow> u32 \<Rightarrow> bytes \<Rightarrow> bytes \<Rightarrow> world \<Rightarrow> DataPacket \<times> world" where
  "encrypt_disconnect_packet E sq dst sid network_key session_key w =
     (let plaintext = KIND_DISCONNECT # u64_to_be_bytes sq;
          (padded, w1) = add_random_padding plaintext w
      in seal E KIND_DISCONNECT dst sid network_key session_key padded w1)"

definition encrypt_relay_forward_packet ::
  "ext \<Rightarrow> u64 \<Rightarrow> u32 \<Rightarrow> u32 \<Rightarrow> u32 \<Rightarrow> bytes \<Rightarrow> bytes \<Rightarrow> bytes \<Rightarrow> world \<Rightarrow> DataPacket \<times> world" where
  "encrypt_relay_forward_packet E sq dst sid next inner network_key session_key w =
     (let plaintext = put_vec_u32 (KIND_RELAY_FORWARD # u64_to_be_bytes sq @ u32_to_be_bytes next) inner;
          (padded, w1) = add_random_padding plaintext w
      in seal E KIND_RELAY_FORWARD dst sid network_key session_key padded w1)"

definition encrypt_lighthouse_query_packet ::
  "ext \<Rightarrow> u64 \<Rightarrow> u32 \<Rightarrow> u32 \<Rightarrow> IpAddr \<Rightarrow> bytes \<Rightarrow> bytes \<Rightarrow> world \<Rightarrow> DataPacket \<times> world" where
  "encrypt_lighthouse_query_packet E sq dst sid target network_key session_key w =
     (let ip = IpAddr_to_string target;
          plaintext = put_vec_u32 (KIND_LIGHTHOUSE_QUERY # u64_to_be_bytes sq) (as_bytes ip);
          (padded, w1) = add_random_padding plaintext w
      in seal E KIND_LIGHTHOUSE_QUERY dst sid network_key session_key padded w1)"

definition encrypt_lighthouse_response_packet ::
  "ext \<Rightarrow> u64 \<Rightarrow> u32 \<Rightarrow> u32 \<Rightarrow> IpAddr \<Rightarrow> u32 \<Rightarrow> SocketAddr \<Rightarrow> Cert \<Rightarrow> bool \<Rightarrow> bytes \<Rightarrow> bytes \<Rightarrow> world
   \<Rightarrow> DataPacket \<times> world" where
  "encrypt_lighthouse_response_packet E sq dst sid target pid paddr pcert relay network_key session_key w =
     (let ip = IpAddr_to_string target;
          addr = SocketAddr_to_string paddr;
          cert_bytes = json_cert E pcert;
          p1 = put_vec_u32 (KIND_LIGHTHOUSE_RESPONSE # u64_to_be_bytes sq) (as_bytes ip);
          p2 = p1 @ u32_to_be_bytes pid;
          p3 = put_vec_u32 p2 (as_bytes addr);
          p4 = put_vec_u32 p3 cert_bytes;
          plaintext = p4 @ [if relay then 1 else 0];
          (padded, w1) = add_random_padding plaintext w
      in seal E KIND_LIGHTHOUSE_RESPONSE dst sid network_key session_key padded w1)"

definition encrypt_lighthouse_not_found_packet ::
  "ext \<Rightarrow> u64 \<Rightarrow> u32 \<Rightarrow> u32 \<Rightarrow> IpAddr \<Rightarrow> bytes \<Rightarrow> bytes \<Rightarrow> world \<Rightarrow> DataPacket \<times> world" where
  "encrypt_lighthouse_not_found_packet E sq dst sid target network_key session_key w =
     (let ip = IpAddr_to_string target;
          plaintext = put_vec_u32 (KIND_LIGHTHOUSE_NOT_FOUND # u64_to_be_bytes sq) (as_bytes ip);
          (padded, w1) = add_random_padding plaintext w
      in seal E KIND_LIGHTHOUSE_NOT_FOUND dst sid network_key session_key padded w1)"

definition encrypt_keepalive_packet ::
  "ext \<Rightarrow> u64 \<Rightarrow> u32 \<Rightarrow> u32 \<Rightarrow> u64 \<Rightarrow> bytes \<Rightarrow> bytes \<Rightarrow> world \<Rightarrow> DataPacket \<times> world" where
  "encrypt_keepalive_packet E sq dst sid tok network_key session_key w =
     (let plaintext = KIND_KEEPALIVE # u64_to_be_bytes sq @ u64_to_be_bytes tok;
          (padded, w1) = add_random_padding plaintext w
      in seal E KIND_KEEPALIVE dst sid network_key session_key padded w1)"

definition encrypt_keepalive_ack_packet ::
  "ext \<Rightarrow> u64 \<Rightarrow> u32 \<Rightarrow> u32 \<Rightarrow> u64 \<Rightarrow> bytes \<Rightarrow> bytes \<Rightarrow> world \<Rightarrow> DataPacket \<times> world" where
  "encrypt_keepalive_ack_packet E sq dst sid tok network_key session_key w =
     (let plaintext = KIND_KEEPALIVE_ACK # u64_to_be_bytes sq @ u64_to_be_bytes tok;
          (padded, w1) = add_random_padding plaintext w
      in seal E KIND_KEEPALIVE_ACK dst sid network_key session_key padded w1)"

section \<open>Opening\<close>

text \<open>The part of \<open>decrypt_packet\<close> after the plaintext is known: the kind inside must repeat the
  kind of the header, and selects the fields.\<close>

definition decode_plaintext :: "ext \<Rightarrow> NetworkHeader \<Rightarrow> bytes \<Rightarrow> (NetworkHeader \<times> PacketBody) option" where
  "decode_plaintext E header plaintext = do {
     (k, rd) \<leftarrow> rd_u8 (Reader_new plaintext);
     (sq, rd) \<leftarrow> rd_u64 rd;
     if k \<noteq> kind header then None
     else if k = KIND_DATA then do {
       (p, rd) \<leftarrow> rd_vec_u32 rd;
       Some (header, Data sq p) }
     else if k = KIND_RELAY_FORWARD then do {
       (next, rd) \<leftarrow> rd_u32 rd;
       (p, rd) \<leftarrow> rd_vec_u32 rd;
       Some (header, RelayForward sq next p) }
     else if k = KIND_DISCONNECT then Some (header, Disconnect sq)
     else if k = KIND_LIGHTHOUSE_QUERY then do {
       (t, rd) \<leftarrow> rd_vec_u32 rd;
       s \<leftarrow> parse_utf8 t;
       ip \<leftarrow> IpAddr_parse s;
       Some (header, LighthouseQuery sq ip) }
     else if k = KIND_LIGHTHOUSE_RESPONSE then do {
       (t, rd) \<leftarrow> rd_vec_u32 rd;
       s \<leftarrow> parse_utf8 t;
       ip \<leftarrow> IpAddr_parse s;
       (pid, rd) \<leftarrow> rd_u32 rd;
       (a, rd) \<leftarrow> rd_vec_u32 rd;
       s2 \<leftarrow> parse_utf8 a;
       addr \<leftarrow> SocketAddr_parse s2;
       (c, rd) \<leftarrow> rd_vec_u32 rd;
       cert \<leftarrow> json_parse_cert E c;
       (r, rd) \<leftarrow> rd_u8 rd;
       Some (header, LighthouseResponse sq ip pid addr cert (r \<noteq> 0)) }
     else if k = KIND_LIGHTHOUSE_NOT_FOUND then do {
       (t, rd) \<leftarrow> rd_vec_u32 rd;
       s \<leftarrow> parse_utf8 t;
       ip \<leftarrow> IpAddr_parse s;
       Some (header, LighthouseNotFound sq ip) }
     else if k = KIND_KEEPALIVE then do {
       (tok, rd) \<leftarrow> rd_u64 rd;
       Some (header, Keepalive sq tok) }
     else if k = KIND_KEEPALIVE_ACK then do {
       (tok, rd) \<leftarrow> rd_u64 rd;
       Some (header, KeepaliveAck sq tok) }
     else None
   }"

definition decrypt_packet :: "ext \<Rightarrow> bytes \<Rightarrow> bytes \<Rightarrow> bytes \<Rightarrow> (NetworkHeader \<times> PacketBody) option" where
  "decrypt_packet E data network_key session_key = do {
     pkt \<leftarrow> deserialize_packet data;
     header \<leftarrow> unmask_header E pkt network_key;
     plaintext \<leftarrow> aead_decrypt E (packet_key E session_key) (nonce pkt) (ciphertext pkt) (packet_aad pkt);
     decode_plaintext E header plaintext
   }"

section \<open>Header lemmas\<close>

lemma length_encode_header [simp]: "length (encode_header h) = 16"
  by (simp add: encode_header_def)

lemma decode_encode_header: "known_kind (kind h) \<Longrightarrow> decode_header (encode_header h) = Some h"
  by (simp add: decode_header_def encode_header_def)

lemma length_xor_mask [simp]: "length (xor_mask p m) = min (length p) (length m)"
  by (simp add: xor_mask_def)

lemma xor_mask_twice: "length p \<le> length m \<Longrightarrow> xor_mask (xor_mask p m) m = p"
proof (induction p arbitrary: m)
  case Nil
  then show ?case by (simp add: xor_mask_def)
next
  case (Cons a p)
  then obtain b m' where "m = b # m'" by (cases m) auto
  with Cons show ?case by (simp add: xor_mask_def xor.assoc)
qed

lemma length_header_mask: "blake3_sized E \<Longrightarrow> length (header_mask E mn nk) = 32"
  by (simp add: header_mask_def blake3_sized_def)

lemma length_mask_network_header: "blake3_sized E \<Longrightarrow> length (mask_network_header E h mn nk) = 16"
  by (simp add: mask_network_header_def length_header_mask)

lemma unmask_mask_header:
  "blake3_sized E \<Longrightarrow> known_kind (kind h) \<Longrightarrow>
   unmask_header_bytes E mn (mask_network_header E h mn nk) nk = Some h"
  by (simp add: unmask_header_bytes_def mask_network_header_def xor_mask_twice length_header_mask
      decode_encode_header)

lemma network_header_deserialize:
  "network_header E data nk = Option.bind (deserialize_packet data) (\<lambda>pkt. unmask_packet_header E pkt nk)"
  by (simp add: network_header_def deserialize_packet_def unmask_packet_header_def unmask_header_def)

section \<open>Packet lemmas\<close>

definition packet_wf :: "DataPacket \<Rightarrow> bool" where
  "packet_wf pkt \<longleftrightarrow> length (mask_nonce pkt) = 8 \<and> length (masked_header pkt) = 16
     \<and> length (nonce pkt) = 12 \<and> 16 \<le> length (ciphertext pkt)"

lemma deserialize_serialize: "packet_wf pkt \<Longrightarrow> deserialize_packet (serialize_packet pkt) = Some pkt"
  by (simp add: packet_wf_def deserialize_packet_def serialize_packet_def packet_lens)

lemma deserialize_SomeD:
  assumes "deserialize_packet data = Some pkt"
  shows "packet_wf pkt" and "serialize_packet pkt = data"
proof -
  from assms have len: "52 \<le> length data"
    and pkt: "pkt = \<lparr>mask_nonce = take 8 data, masked_header = take 16 (drop 8 data),
      nonce = take 12 (drop 24 data), ciphertext = drop 36 data\<rparr>"
    by (auto simp: deserialize_packet_def packet_lens split: if_splits)
  from len show "packet_wf pkt" by (simp add: pkt packet_wf_def)
  have "drop 8 data = take 16 (drop 8 data) @ take 12 (drop 24 data) @ drop 36 data"
    using drop_split [of 8 data 16] drop_split [of 24 data 12] by simp
  with drop_split [of 0 data 8] show "serialize_packet pkt = data"
    by (simp add: pkt serialize_packet_def)
qed

lemma seal_wf: "blake3_sized E \<Longrightarrow> aead_sized E \<Longrightarrow> seal E k dst sid nk sk pt w = (pkt, w') \<Longrightarrow> packet_wf pkt"
  by (auto simp: seal_def packet_wf_def fill_bytes_def length_mask_network_header length_aead_encrypt packet_lens Let_def)

text \<open>Every session packet is its plaintext plus exactly \<open>PACKET_OVERHEAD\<close> bytes on the wire.\<close>

lemma length_serialize_seal:
  assumes "blake3_sized E" and "aead_sized E" and "seal E k dst sid nk sk pt w = (pkt, w')"
  shows "length (serialize_packet pkt) = PACKET_OVERHEAD + length pt"
  using assms
  by (auto simp: seal_def serialize_packet_def fill_bytes_def length_mask_network_header
      length_aead_encrypt packet_lens Let_def)

lemma unmask_seal:
  assumes "blake3_sized E" and "known_kind k" and "seal E k dst sid nk sk pt w = (pkt, w')"
  shows "unmask_header E pkt nk =
    Some \<lparr>kind = k, frag_index = 0, frag_total = 0, dst_peer_id = dst, session_id = sid\<rparr>"
  using assms by (auto simp: seal_def unmask_header_def unmask_mask_header Let_def split: prod.splits)

lemma aead_seal:
  assumes "aead_correct E" and "seal E k dst sid nk sk pt w = (pkt, w')"
  shows "aead_decrypt E (packet_key E sk) (nonce pkt) (ciphertext pkt) (packet_aad pkt) = Some pt"
  using assms by (auto simp: seal_def packet_aad_def aead_decrypt_encrypt Let_def split: prod.splits)

lemma decrypt_seal:
  assumes "blake3_sized E" and "aead_sized E" and "aead_correct E" and "known_kind k"
    and "seal E k dst sid nk sk pt w = (pkt, w')"
  shows "decrypt_packet E (serialize_packet pkt) nk sk =
    decode_plaintext E \<lparr>kind = k, frag_index = 0, frag_total = 0, dst_peer_id = dst, session_id = sid\<rparr> pt"
  by (simp add: decrypt_packet_def deserialize_serialize [OF seal_wf [OF assms(1,2,5)]]
      unmask_seal [OF assms(1,4,5)] aead_seal [OF assms(3,5)])

lemma network_header_seal:
  assumes "blake3_sized E" and "aead_sized E" and "known_kind k"
    and "seal E k dst sid nk sk pt w = (pkt, w')"
  shows "network_header E (serialize_packet pkt) nk =
    Some \<lparr>kind = k, frag_index = 0, frag_total = 0, dst_peer_id = dst, session_id = sid\<rparr>"
  by (simp add: network_header_deserialize deserialize_serialize [OF seal_wf [OF assms(1,2,4)]]
      unmask_packet_header_def unmask_seal [OF assms(1,3,4)])

lemma known_kinds [simp]:
  "known_kind KIND_DATA" "known_kind KIND_RELAY_FORWARD" "known_kind KIND_DISCONNECT"
  "known_kind KIND_LIGHTHOUSE_QUERY" "known_kind KIND_LIGHTHOUSE_RESPONSE"
  "known_kind KIND_LIGHTHOUSE_NOT_FOUND" "known_kind KIND_KEEPALIVE" "known_kind KIND_KEEPALIVE_ACK"
  "known_kind KIND_HANDSHAKE_1" "known_kind KIND_HANDSHAKE_2" "known_kind KIND_HANDSHAKE_FRAG"
  by (simp_all add: known_kind_def)

end
