(* ===== verification/Packet_Roundtrip.thy ===== *)
theory Packet_Roundtrip
  imports Packet Demo_Ext
begin

text \<open>
  What a peer that holds the network key and the session key reads out of a packet: the header and
  the body the sender put in, for every kind of body (\<open>liteway-core/src/packet.rs\<close>).
  \<open>encrypt_body\<close> is the specification view of the eight encoders, one constructor each.
\<close>

definition encrypt_body :: "ext \<Rightarrow> u32 \<Rightarrow> u32 \<Rightarrow> PacketBody \<Rightarrow> bytes \<Rightarrow> bytes \<Rightarrow> world \<Rightarrow> DataPacket \<times> world" where
  "encrypt_body E dst sid b nk sk w =
     (case b of
        Data sq p \<Rightarrow> encrypt_data_packet E sq dst sid p nk sk w
      | RelayForward sq next p \<Rightarrow> encrypt_relay_forward_packet E sq dst sid next p nk sk w
      | Disconnect sq \<Rightarrow> encrypt_disconnect_packet E sq dst sid nk sk w
      | LighthouseQuery sq ip \<Rightarrow> encrypt_lighthouse_query_packet E sq dst sid ip nk sk w
      | LighthouseResponse sq ip pid addr c r \<Rightarrow>
          encrypt_lighthouse_response_packet E sq dst sid ip pid addr c r nk sk w
      | LighthouseNotFound sq ip \<Rightarrow> encrypt_lighthouse_not_found_packet E sq dst sid ip nk sk w
      | Keepalive sq t \<Rightarrow> encrypt_keepalive_packet E sq dst sid t nk sk w
      | KeepaliveAck sq t \<Rightarrow> encrypt_keepalive_ack_packet E sq dst sid t nk sk w)"

fun body_kind :: "PacketBody \<Rightarrow> u8" where
  "body_kind (Data _ _) = KIND_DATA"
| "body_kind (RelayForward _ _ _) = KIND_RELAY_FORWARD"
| "body_kind (Disconnect _) = KIND_DISCONNECT"
| "body_kind (LighthouseQuery _ _) = KIND_LIGHTHOUSE_QUERY"
| "body_kind (LighthouseResponse _ _ _ _ _ _) = KIND_LIGHTHOUSE_RESPONSE"
| "body_kind (LighthouseNotFound _ _) = KIND_LIGHTHOUSE_NOT_FOUND"
| "body_kind (Keepalive _ _) = KIND_KEEPALIVE"
| "body_kind (KeepaliveAck _ _) = KIND_KEEPALIVE_ACK"

text \<open>What a body must satisfy to survive the trip: vectors whose length fits the 32-bit prefix,
  a certificate \<open>serde_json\<close> reads back, an address whose flow label is zero (the text form of a
  socket address does not carry it).\<close>

fun body_ok :: "ext \<Rightarrow> PacketBody \<Rightarrow> bool" where
  "body_ok E (Data _ p) = (length p < 2 ^ 32)"
| "body_ok E (RelayForward _ _ p) = (length p < 2 ^ 32)"
| "body_ok E (LighthouseResponse _ _ _ addr c _) = (json_cert_ok E c \<and> no_flowinfo addr)"
| "body_ok E _ = True"

text \<open>The bytes in front of the padding.\<close>

fun body_bytes :: "ext \<Rightarrow> PacketBody \<Rightarrow> bytes" where
  "body_bytes E (Data sq p) = KIND_DATA # u64_to_be_bytes sq @ put_vec_u32 [] p"
| "body_bytes E (RelayForward sq next p) =
     KIND_RELAY_FORWARD # u64_to_be_bytes sq @ u32_to_be_bytes next @ put_vec_u32 [] p"
| "body_bytes E (Disconnect sq) = KIND_DISCONNECT # u64_to_be_bytes sq"
| "body_bytes E (LighthouseQuery sq ip) =
     KIND_LIGHTHOUSE_QUERY # u64_to_be_bytes sq @ put_vec_u32 [] (as_bytes (IpAddr_to_string ip))"
| "body_bytes E (LighthouseResponse sq ip pid addr c r) =
     KIND_LIGHTHOUSE_RESPONSE # u64_to_be_bytes sq @ put_vec_u32 [] (as_bytes (IpAddr_to_string ip))
       @ u32_to_be_bytes pid @ put_vec_u32 [] (as_bytes (SocketAddr_to_string addr))
       @ put_vec_u32 [] (json_cert E c) @ [if r then 1 else 0]"
| "body_bytes E (LighthouseNotFound sq ip) =
     KIND_LIGHTHOUSE_NOT_FOUND # u64_to_be_bytes sq @ put_vec_u32 [] (as_bytes (IpAddr_to_string ip))"
| "body_bytes E (Keepalive sq t) = KIND_KEEPALIVE # u64_to_be_bytes sq @ u64_to_be_bytes t"
| "body_bytes E (KeepaliveAck sq t) = KIND_KEEPALIVE_ACK # u64_to_be_bytes sq @ u64_to_be_bytes t"

lemma encrypt_body_seal:
  assumes "encrypt_body E dst sid b nk sk w = (pkt, w')"
  shows "\<exists>padded w1. add_random_padding (body_bytes E b) w = (padded, w1)
    \<and> seal E (body_kind b) dst sid nk sk padded w1 = (pkt, w')"
  using assms
  by (cases b)
    (auto simp: encrypt_body_def encrypt_data_packet_def encrypt_relay_forward_packet_def
      encrypt_disconnect_packet_def encrypt_lighthouse_query_packet_def
      encrypt_lighthouse_response_packet_def encrypt_lighthouse_not_found_packet_def
      encrypt_keepalive_packet_def encrypt_keepalive_ack_packet_def put_vec_u32_def Let_def
      split: prod.splits)

lemma known_body_kind [simp]: "known_kind (body_kind b)"
  by (cases b) simp_all

text \<open>A tail-less variant of the read rules, for the field right before the padding.\<close>

lemma length_as_bytes [simp]: "length (as_bytes s) = length s"
  by (simp add: as_bytes_def)

lemma decode_body_bytes:
  assumes "body_ok E b" and "kind h = body_kind b"
  shows "decode_plaintext E h (body_bytes E b @ pad) = Some (h, b)"
  using assms
  by (cases b)
    (simp_all add: decode_plaintext_def Reader_new_at wire_simps IpAddr_parse_to_string
      SocketAddr_parse_to_string json_cert_ok_def kind_defs)

text \<open>Decryption succeeds only under the header that \<open>network_header\<close> reports, and the body's kind
  is the header's.\<close>

lemma decode_plaintext_kind: "decode_plaintext E h pt = Some (h', b) \<Longrightarrow> h' = h \<and> kind h = body_kind b"
  unfolding decode_plaintext_def bind_eq_Some_conv
  by (elim exE conjE) (auto simp: bind_eq_Some_conv case_prod_beta split: if_split_asm)

lemma u32_from_be_cong: "length bs = 4 \<Longrightarrow> u32_from_be_bytes bs = v \<longleftrightarrow> bs = u32_to_be_bytes v"
  using u32_to_from_be by auto

lemma list16:
  assumes "length bs = 16"
  shows "bs = [bs ! 0, bs ! 1, bs ! 2, bs ! 3] @ take 4 (drop 4 bs) @ take 4 (drop 8 bs) @ take 4 (drop 12 bs)"
proof -
  have "take 4 bs = [bs ! 0, bs ! 1, bs ! 2, bs ! 3]"
    using assms by (intro nth_equalityI) (auto simp: less_Suc_eq numeral_eq_Suc)
  moreover have "take 4 (drop 12 bs) = drop 12 bs" using assms by simp
  moreover have "bs = take 4 bs @ drop 4 bs" by simp
  ultimately show ?thesis
    using drop_split [of 4 bs 4] drop_split [of 8 bs 4] by simp
qed

lemma decrypt_packet_SomeD:
  assumes "decrypt_packet E data nk sk = Some (h, b)"
  shows "network_header E data nk = Some h \<and> kind h = body_kind b \<and> MIN_PACKET_LEN \<le> length data"
proof -
  obtain pkt h' pt where p: "deserialize_packet data = Some pkt" "unmask_header E pkt nk = Some h'"
    and "decode_plaintext E h' pt = Some (h, b)"
    using assms by (auto simp: decrypt_packet_def bind_eq_Some_conv)
  then have "h = h'" and "kind h = body_kind b" using decode_plaintext_kind by blast+
  with p show ?thesis
    by (auto simp: network_header_deserialize unmask_packet_header_def deserialize_packet_def split: if_splits)
qed

lemma decrypt_body:
  assumes "blake3_sized E" and "aead_sized E" and "aead_correct E" and "body_ok E b"
    and "encrypt_body E dst sid b nk sk w = (pkt, w')"
  shows "decrypt_packet E (serialize_packet pkt) nk sk =
    Some (\<lparr>kind = body_kind b, frag_index = 0, frag_total = 0, dst_peer_id = dst, session_id = sid\<rparr>, b)"
proof -
  obtain padded w1 where pad: "add_random_padding (body_bytes E b) w = (padded, w1)"
    and s: "seal E (body_kind b) dst sid nk sk padded w1 = (pkt, w')"
    using encrypt_body_seal [OF assms(5)] by blast
  obtain p where "padded = body_bytes E b @ p" using add_random_padding_prefix [OF pad] by blast
  with decrypt_seal [OF assms(1-3) known_body_kind s] decode_body_bytes [OF assms(4)] show ?thesis by simp
qed

section \<open>Properties\<close>

text \<open>C10. A packet of any of the eight kinds, encrypted by its encoder and put on the wire, is
  decrypted by the receiver to exactly the destination, session and body the sender gave, whatever
  padding and nonces were drawn.\<close>

theorem decrypt_encrypt_body:
  assumes "blake3_sized E" and "aead_sized E" and "aead_correct E" and "body_ok E b"
    and "encrypt_body E dst sid b nk sk w = (pkt, w')"
  shows "decrypt_packet E (serialize_packet pkt) nk sk =
    Some (\<lparr>kind = body_kind b, frag_index = 0, frag_total = 0, dst_peer_id = dst, session_id = sid\<rparr>, b)"
  using assms by (rule decrypt_body)

theorem decrypt_encrypt_body_witness:
  "decrypt_packet demo_ext
     (serialize_packet (fst (encrypt_body demo_ext 2 5
       (LighthouseResponse 9 (V4 0x0A000002) 3 (SocketAddrV6 1 7 0 4) demo_cert True) [1] [2] demo_world))) [1] [2]
   = Some (\<lparr>kind = KIND_LIGHTHOUSE_RESPONSE, frag_index = 0, frag_total = 0, dst_peer_id = 2, session_id = 5\<rparr>,
       LighthouseResponse 9 (V4 0x0A000002) 3 (SocketAddrV6 1 7 0 4) demo_cert True)"
  using decrypt_encrypt_body [OF demo_blake3 demo_aead(2) demo_aead(1) _ prod.collapse [symmetric],
      of "LighthouseResponse 9 (V4 0x0A000002) 3 (SocketAddrV6 1 7 0 4) demo_cert True" 2 5 "[1]" "[2]" demo_world]
  by simp

text \<open>What a node learns from the masked header alone, before it has picked a session key, is
  what full decryption returns: a packet that decrypts has exactly the header that the dispatcher's
  \<open>network_header\<close> reports, and a body of the kind the header announces.\<close>

lemma decrypt_header_agrees:
  assumes "decrypt_packet E data nk sk = Some (h, b)"
  shows "network_header E data nk = Some h \<and> kind h = body_kind b \<and> MIN_PACKET_LEN \<le> length data"
  using assms by (rule decrypt_packet_SomeD)

text \<open>The header encoding is canonical: a 16-byte block is accepted exactly when it is the
  encoding of a header of a known kind, so no two blocks decode to one header and reserved bytes
  that are not zero are refused.\<close>

lemma decode_header_iff:
  assumes "length bs = NETWORK_HEADER_LEN"
  shows "decode_header bs = Some h \<longleftrightarrow> bs = encode_header h \<and> known_kind (kind h)"
proof
  assume d: "decode_header bs = Some h"
  then have h: "h = \<lparr>kind = bs ! 0, frag_index = bs ! 1, frag_total = bs ! 2,
      dst_peer_id = u32_from_be_bytes (take 4 (drop 4 bs)), session_id = u32_from_be_bytes (take 4 (drop 8 bs))\<rparr>"
    and z: "bs ! 3 = 0" "take 4 (drop 12 bs) = [0, 0, 0, 0]" and k: "known_kind (bs ! 0)"
    by (auto simp: decode_header_def split: if_splits)
  have "u32_to_be_bytes (u32_from_be_bytes (take 4 (drop 4 bs))) = take 4 (drop 4 bs)"
    and "u32_to_be_bytes (u32_from_be_bytes (take 4 (drop 8 bs))) = take 4 (drop 8 bs)"
    using assms by (auto simp: NETWORK_HEADER_LEN_def intro!: u32_to_from_be)
  then have "encode_header h = [bs ! 0, bs ! 1, bs ! 2, bs ! 3] @ take 4 (drop 4 bs) @ take 4 (drop 8 bs) @ take 4 (drop 12 bs)"
    by (simp add: h encode_header_def z)
  with list16 [of bs] assms k h show "bs = encode_header h \<and> known_kind (kind h)"
    by (simp add: NETWORK_HEADER_LEN_def)
qed (simp add: decode_encode_header)

text \<open>Parsing and printing of packets are inverse: the datagrams that \<open>deserialize_packet\<close>
  accepts are exactly the serializations of packets with an 8-byte mask nonce, a 16-byte masked
  header, a 12-byte nonce and at least the 16-byte authentication tag.\<close>

lemma deserialize_packet_iff:
  "deserialize_packet data = Some pkt \<longleftrightarrow> packet_wf pkt \<and> serialize_packet pkt = data"
  using deserialize_SomeD [of data pkt] deserialize_serialize [of pkt] by blast

end
