(* ===== verification/Handshake.thy ===== *)
theory Handshake
  imports Packet_Roundtrip
begin

text \<open>
  \<open>liteway-core/src/handshake.rs\<close>: the two-message handshake. The initiator sends an ephemeral
  X25519 and ML-KEM key signed under its certificate; the responder answers with its own ephemeral
  key and a ciphertext, signed together with the hash of the first message; both derive the
  session key from the hybrid secret and the hashes of both messages.

  A computation that reads the clock or draws randomness threads the world; a failure is an
  \<open>hs_error\<close>. \<open>random_session_id\<close> loops until it draws a non-zero value, so the operations that call
  it return \<open>None\<close> when the generator delivers zeros forever and are shown to return whenever it
  does not.
\<close>

unbundle bit_operations_syntax

section \<open>Constants and data\<close>

definition HANDSHAKE_VERSION :: u8 where "HANDSHAKE_VERSION = 2"
definition FLAG_RELAY :: u16 where "FLAG_RELAY = 1"
definition HANDSHAKE_MAX_CLOCK_SKEW_SECS :: u64 where "HANDSHAKE_MAX_CLOCK_SKEW_SECS = 300"

record HandshakeResult =
  hres_peer_cert :: Cert
  hres_session_key :: bytes
  hres_peer_eph_x25519 :: bytes
  hres_peer_is_relay :: bool
  hres_my_rx_session_id :: u32
  hres_peer_rx_session_id :: u32

record HandshakeInitiate =
  hi_msg :: bytes
  hi_eph_x25519_sk :: bytes
  hi_eph_mlkem_sk :: bytes
  hi_my_rx_session_id :: u32

record HandshakeResponse =
  hr_msg :: bytes
  hr_session_key :: bytes
  hr_peer_cert :: Cert
  hr_peer_is_relay :: bool
  hr_my_rx_session_id :: u32
  hr_peer_rx_session_id :: u32

record Handshake1Plain =
  h1_cert :: Cert
  h1_rx_session_id :: u32
  h1_eph_x25519_pk :: bytes
  h1_eph_mlkem_pk :: bytes
  h1_peer_is_relay :: bool

record Handshake2Plain =
  h2_cert :: Cert
  h2_rx_session_id :: u32
  h2_eph_x25519_pk :: bytes
  h2_mlkem_ct :: bytes
  h2_peer_is_relay :: bool

text \<open>Fallible computations on the world.\<close>

type_synonym 'a hs = "world \<Rightarrow> (hs_error + 'a) \<times> world"

definition hbind :: "'a hs \<Rightarrow> ('a \<Rightarrow> 'b hs) \<Rightarrow> 'b hs" where
  "hbind m f w = (case m w of (Inl e, w') \<Rightarrow> (Inl e, w') | (Inr a, w') \<Rightarrow> f a w')"

definition hlift :: "hs_error + 'a \<Rightarrow> 'a hs" where
  "hlift r w = (r, w)"

definition hguard :: "bool \<Rightarrow> hs_error \<Rightarrow> unit hs" where
  "hguard c e w = (if c then Inr () else Inl e, w)"

section \<open>Helpers\<close>

definition unix_time_secs :: "world \<Rightarrow> u64 \<times> world" where
  "unix_time_secs w = unix_now w"

partial_function (option) random_session_id :: "world \<Rightarrow> (u32 \<times> world) option" where
  [code]: "random_session_id w =
     (let (i, w') = random_u32 w in if i \<noteq> 0 then Some (i, w') else random_session_id w')"

definition validate_timestamp :: "u64 \<Rightarrow> unit hs" where
  "validate_timestamp timestamp w =
     (let (now, w') = unix_time_secs w;
          mn = saturating_sub_w now HANDSHAKE_MAX_CLOCK_SKEW_SECS;
          mx = saturating_add_w now HANDSHAKE_MAX_CLOCK_SKEW_SECS
      in if timestamp < mn \<or> timestamp > mx then (Inl ClockSkew, w') else (Inr (), w'))"

definition sign_node :: "ext \<Rightarrow> NodeSigningSecretKey \<Rightarrow> bytes \<Rightarrow> HybridSignature" where
  "sign_node E sk m =
     hybrid_sign E \<lparr>hsk_ed25519 = nsk_ed25519 sk, hsk_ml_dsa_seed = nsk_ml_dsa_seed sk\<rparr> m"

definition derive_session_v2 :: "ext \<Rightarrow> bytes \<Rightarrow> bytes \<Rightarrow> bytes \<Rightarrow> bytes" where
  "derive_session_v2 E hybrid_ss hs1_msg hs2_msg =
     derive_labeled_key E ''liteway-session-v2'' (hybrid_ss @ blake3_hash E hs1_msg @ blake3_hash E hs2_msg)"

definition handshake_header_and_payload :: "bytes \<Rightarrow> NetworkHeader \<times> bytes" where
  "handshake_header_and_payload pt =
     (if 7 \<le> length pt \<and> pt ! 0 = KIND_HANDSHAKE_FRAG then
        (\<lparr>kind = KIND_HANDSHAKE_FRAG, frag_index = pt ! 5, frag_total = pt ! 6, dst_peer_id = 0,
          session_id = u32_from_be_bytes [pt ! 1, pt ! 2, pt ! 3, pt ! 4]\<rparr>, drop 7 pt)
      else
        (\<lparr>kind = (case pt of [] \<Rightarrow> 0 | k # _ \<Rightarrow> k), frag_index = 0, frag_total = 0, dst_peer_id = 0,
          session_id = 0\<rparr>, pt))"

definition seal_handshake_with_header :: "ext \<Rightarrow> bytes \<Rightarrow> bytes \<Rightarrow> u32 \<Rightarrow> u32 \<Rightarrow> world \<Rightarrow> bytes \<times> world" where
  "seal_handshake_with_header E network_key pt dst sid w =
     (let (header0, payload) = handshake_header_and_payload pt;
          header = header0\<lparr>dst_peer_id := dst, session_id := sid\<rparr>;
          (mn, w1) = fill_bytes MASK_NONCE_LEN w;
          (n, w2) = fill_bytes NONCE_LEN w1;
          mh = mask_network_header E header mn network_key;
          aad = packet_aad \<lparr>mask_nonce = mn, masked_header = mh, nonce = n, ciphertext = []\<rparr>;
          ct = aead_encrypt E network_key n payload aad
      in (mn @ mh @ n @ ct, w2))"

definition seal_handshake_to_peer :: "ext \<Rightarrow> bytes \<Rightarrow> bytes \<Rightarrow> u32 \<Rightarrow> world \<Rightarrow> bytes \<times> world" where
  "seal_handshake_to_peer E network_key pt dst w =
     (let sid = (if 7 \<le> length pt \<and> pt ! 0 = KIND_HANDSHAKE_FRAG
                 then u32_from_be_bytes [pt ! 1, pt ! 2, pt ! 3, pt ! 4] else 0)
      in seal_handshake_with_header E network_key pt dst sid w)"

definition open_handshake :: "ext \<Rightarrow> bytes \<Rightarrow> bytes \<Rightarrow> bytes option" where
  "open_handshake E network_key data = do {
     pkt \<leftarrow> deserialize_packet data;
     header \<leftarrow> unmask_packet_header E pkt network_key;
     pt \<leftarrow> aead_decrypt E network_key (nonce pkt) (ciphertext pkt) (packet_aad pkt);
     if kind header = KIND_HANDSHAKE_FRAG then
       (if frag_total header = 0 \<or> frag_index header \<ge> frag_total header then None
        else Some (KIND_HANDSHAKE_FRAG # u32_to_be_bytes (session_id header)
                   @ [frag_index header, frag_total header] @ pt))
     else if frag_index header \<noteq> 0 \<or> frag_total header \<noteq> 0 then None
     else
       (case pt of
          [] \<Rightarrow> None
        | k # _ \<Rightarrow> if k \<noteq> kind header then None else Some pt)
   }"

definition handshake_kind :: "ext \<Rightarrow> bytes \<Rightarrow> bytes \<Rightarrow> u8 option" where
  "handshake_kind E data network_key = map_option kind (network_header E data network_key)"

definition verify_peer_cert_and_sig :: "ext \<Rightarrow> Cert \<Rightarrow> CaVerifyKey \<Rightarrow> bytes \<Rightarrow> bytes \<Rightarrow> bytes \<Rightarrow> unit hs" where
  "verify_peer_cert_and_sig E cert ca_vk signed_msg ed ml w =
     (let (ok, w') = Cert_verify E cert ca_vk w
      in if \<not> ok then (Inl CertVerificationFailed, w')
         else
           let vk = \<lparr>hvk_ed25519 = ed25519_pk (keys (body cert)), hvk_ml_dsa = ml_dsa_pk (keys (body cert))\<rparr>;
               sig = \<lparr>sig_ed25519 = ed, sig_ml_dsa = ml\<rparr>
           in if \<not> hybrid_verify E vk signed_msg sig then (Inl SignatureFailed, w') else (Inr (), w'))"

definition read_cert :: "ext \<Rightarrow> bytes \<Rightarrow> hs_error + Cert" where
  "read_cert E bs = (case json_parse_cert E bs of None \<Rightarrow> Inl BadCertificate | Some c \<Rightarrow> Inr c)"

section \<open>Parsing\<close>

definition parse_handshake_1 :: "ext \<Rightarrow> bytes \<Rightarrow> CaVerifyKey \<Rightarrow> Handshake1Plain hs" where
  "parse_handshake_1 E data ca_vk =
     hbind (hguard (1 + 1 + 2 + 8 + 16 + 4 + 32 + MLKEM_PK_LEN + 4 + ED25519_SIG_LEN + MLDSA_SIG_LEN \<le> length data) TooShort) (\<lambda>_.
     hbind (hlift (hrd_u8 (Reader_new data))) (\<lambda>(k, rd).
     hbind (hguard (k = KIND_HANDSHAKE_1) WrongKind) (\<lambda>_.
     hbind (hlift (hrd_u8 rd)) (\<lambda>(version, rd).
     hbind (hguard (version = HANDSHAKE_VERSION) UnsupportedVersion) (\<lambda>_.
     hbind (hlift (hrd_u16 rd)) (\<lambda>(flags, rd).
     hbind (hlift (hrd_u64 rd)) (\<lambda>(timestamp, rd).
     hbind (validate_timestamp timestamp) (\<lambda>_.
     hbind (hlift (hrd_bytes 16 rd)) (\<lambda>(_, rd).
     hbind (hlift (hrd_u32 rd)) (\<lambda>(sid, rd).
     hbind (hlift (hrd_array 32 rd)) (\<lambda>(x_pk, rd).
     hbind (hlift (hrd_array MLKEM_PK_LEN rd)) (\<lambda>(k_pk, rd).
     hbind (hlift (hrd_vec_u32 rd)) (\<lambda>(cert_bytes, rd).
     hbind (hlift (read_cert E cert_bytes)) (\<lambda>cert.
     let signed_msg = take (rd_pos rd) data in
     hbind (hlift (hrd_array ED25519_SIG_LEN rd)) (\<lambda>(ed, rd).
     hbind (hlift (hrd_array MLDSA_SIG_LEN rd)) (\<lambda>(ml, rd).
     hbind (verify_peer_cert_and_sig E cert ca_vk signed_msg ed ml) (\<lambda>_.
     hlift (Inr \<lparr>h1_cert = cert, h1_rx_session_id = sid, h1_eph_x25519_pk = x_pk,
       h1_eph_mlkem_pk = k_pk, h1_peer_is_relay = (flags AND FLAG_RELAY \<noteq> 0)\<rparr>))))))))))))))))))"

definition parse_handshake_2 :: "ext \<Rightarrow> bytes \<Rightarrow> bytes \<Rightarrow> CaVerifyKey \<Rightarrow> Handshake2Plain hs" where
  "parse_handshake_2 E data expected_hs1_msg ca_vk =
     hbind (hguard (1 + 1 + 2 + 8 + 16 + 4 + 32 + MLKEM_CT_LEN + 32 + 4 + ED25519_SIG_LEN + MLDSA_SIG_LEN \<le> length data) TooShort) (\<lambda>_.
     hbind (hlift (hrd_u8 (Reader_new data))) (\<lambda>(k, rd).
     hbind (hguard (k = KIND_HANDSHAKE_2) WrongKind) (\<lambda>_.
     hbind (hlift (hrd_u8 rd)) (\<lambda>(version, rd).
     hbind (hguard (version = HANDSHAKE_VERSION) UnsupportedVersion) (\<lambda>_.
     hbind (hlift (hrd_u16 rd)) (\<lambda>(flags, rd).
     hbind (hlift (hrd_u64 rd)) (\<lambda>(timestamp, rd).
     hbind (validate_timestamp timestamp) (\<lambda>_.
     hbind (hlift (hrd_bytes 16 rd)) (\<lambda>(_, rd).
     hbind (hlift (hrd_u32 rd)) (\<lambda>(sid, rd).
     hbind (hlift (hrd_array 32 rd)) (\<lambda>(x_pk, rd).
     hbind (hlift (hrd_array MLKEM_CT_LEN rd)) (\<lambda>(ct, rd).
     hbind (hlift (hrd_array 32 rd)) (\<lambda>(hs1_hash, rd).
     hbind (hguard (hs1_hash = blake3_hash E expected_hs1_msg) TranscriptMismatch) (\<lambda>_.
     hbind (hlift (hrd_vec_u32 rd)) (\<lambda>(cert_bytes, rd).
     hbind (hlift (read_cert E cert_bytes)) (\<lambda>cert.
     let signed_msg = take (rd_pos rd) data in
     hbind (hlift (hrd_array ED25519_SIG_LEN rd)) (\<lambda>(ed, rd).
     hbind (hlift (hrd_array MLDSA_SIG_LEN rd)) (\<lambda>(ml, rd).
     hbind (verify_peer_cert_and_sig E cert ca_vk signed_msg ed ml) (\<lambda>_.
     hlift (Inr \<lparr>h2_cert = cert, h2_rx_session_id = sid, h2_eph_x25519_pk = x_pk,
       h2_mlkem_ct = ct, h2_peer_is_relay = (flags AND FLAG_RELAY \<noteq> 0)\<rparr>))))))))))))))))))))"

section \<open>The three operations\<close>

definition handshake_flags :: "bool \<Rightarrow> u16" where
  "handshake_flags relay_flag = (if relay_flag then FLAG_RELAY else 0)"

definition create_handshake_1 ::
  "ext \<Rightarrow> Cert \<Rightarrow> NodeSigningSecretKey \<Rightarrow> bytes \<Rightarrow> bool \<Rightarrow> world \<Rightarrow> (HandshakeInitiate \<times> world) option" where
  "create_handshake_1 E my_cert my_signing_key network_key relay_flag w = do {
     let ((x_sk, x_pk, k_sk, k_pk), w) = generate_reusable_ephemeral E w;
     (my_rx, w) \<leftarrow> random_session_id w;
     let (now, w) = unix_time_secs w;
     let (random, w) = fill_bytes 16 w;
     let signed_msg = put_vec_u32
       ([KIND_HANDSHAKE_1, HANDSHAKE_VERSION] @ u16_to_be_bytes (handshake_flags relay_flag)
        @ u64_to_be_bytes now @ random @ u32_to_be_bytes my_rx @ x_pk @ k_pk)
       (json_cert E my_cert);
     let sig = sign_node E my_signing_key signed_msg;
     let (plaintext, w) = add_random_padding (signed_msg @ sig_ed25519 sig @ sig_ml_dsa sig) w;
     let (m, w) = seal_handshake_with_header E network_key plaintext 0 my_rx w;
     Some (\<lparr>hi_msg = m, hi_eph_x25519_sk = x_sk, hi_eph_mlkem_sk = k_sk, hi_my_rx_session_id = my_rx\<rparr>, w)
   }"

definition process_handshake_1 ::
  "ext \<Rightarrow> bytes \<Rightarrow> Cert \<Rightarrow> NodeSigningSecretKey \<Rightarrow> bytes \<Rightarrow> CaVerifyKey \<Rightarrow> bool \<Rightarrow> world
   \<Rightarrow> ((hs_error + HandshakeResponse) \<times> world) option" where
  "process_handshake_1 E data my_cert my_signing_key network_key ca_vk relay_flag w =
     (case open_handshake E network_key data of
        None \<Rightarrow> Some (Inl DecryptFailed, w)
      | Some plaintext \<Rightarrow>
          (case parse_handshake_1 E plaintext ca_vk w of
             (Inl e, w) \<Rightarrow> Some (Inl e, w)
           | (Inr hs1, w) \<Rightarrow> do {
               (my_rx, w) \<leftarrow> random_session_id w;
               if \<not> mlkem_key_ok E (h1_eph_mlkem_pk hs1) then Some (Inl InvalidMlKemKey, w)
               else do {
                 let ((x_sk, x_pk, _, _), w) = generate_ephemeral E w;
                 let (r, w) = fill_bytes 32 w;
                 let (mlkem_ct, mlkem_ss) = mlkem_encapsulate E (h1_eph_mlkem_pk hs1) r;
                 let x25519_ss = x25519_dh E x_sk (h1_eph_x25519_pk hs1);
                 let hybrid_ss = x25519_ss @ mlkem_ss;
                 let (now, w) = unix_time_secs w;
                 let (random, w) = fill_bytes 16 w;
                 let signed_msg = put_vec_u32
                   ([KIND_HANDSHAKE_2, HANDSHAKE_VERSION] @ u16_to_be_bytes (handshake_flags relay_flag)
                    @ u64_to_be_bytes now @ random @ u32_to_be_bytes my_rx @ x_pk @ mlkem_ct @ blake3_hash E data)
                   (json_cert E my_cert);
                 let sig = sign_node E my_signing_key signed_msg;
                 let (plaintext2, w) = add_random_padding (signed_msg @ sig_ed25519 sig @ sig_ml_dsa sig) w;
                 let (m, w) = seal_handshake_with_header E network_key plaintext2 0 (h1_rx_session_id hs1) w;
                 Some (Inr \<lparr>hr_msg = m, hr_session_key = derive_session_v2 E hybrid_ss data m,
                   hr_peer_cert = h1_cert hs1, hr_peer_is_relay = h1_peer_is_relay hs1,
                   hr_my_rx_session_id = my_rx, hr_peer_rx_session_id = h1_rx_session_id hs1\<rparr>, w)
               }
             }))"

definition process_handshake_2 :: "ext \<Rightarrow> bytes \<Rightarrow> HandshakeInitiate \<Rightarrow> bytes \<Rightarrow> CaVerifyKey \<Rightarrow> HandshakeResult hs" where
  "process_handshake_2 E data initiate network_key ca_vk w =
     (case open_handshake E network_key data of
        None \<Rightarrow> (Inl DecryptFailed, w)
      | Some plaintext \<Rightarrow>
          (case parse_handshake_2 E plaintext (hi_msg initiate) ca_vk w of
             (Inl e, w) \<Rightarrow> (Inl e, w)
           | (Inr hs2, w) \<Rightarrow>
               let x25519_ss = x25519_dh E (hi_eph_x25519_sk initiate) (h2_eph_x25519_pk hs2)
               in if \<not> mlkem_ct_ok E (h2_mlkem_ct hs2) then (Inl InvalidMlKemCiphertext, w)
                  else
                    let mlkem_ss = mlkem_decapsulate E (hi_eph_mlkem_sk initiate) (h2_mlkem_ct hs2);
                        hybrid_ss = x25519_ss @ mlkem_ss
                    in (Inr \<lparr>hres_peer_cert = h2_cert hs2,
                          hres_session_key = derive_session_v2 E hybrid_ss (hi_msg initiate) data,
                          hres_peer_eph_x25519 = h2_eph_x25519_pk hs2,
                          hres_peer_is_relay = h2_peer_is_relay hs2,
                          hres_my_rx_session_id = hi_my_rx_session_id initiate,
                          hres_peer_rx_session_id = h2_rx_session_id hs2\<rparr>, w)))"

section \<open>Lemmas on the computations\<close>

lemma hbind_Inr_iff: "hbind m f w = (Inr x, w') \<longleftrightarrow> (\<exists>a w1. m w = (Inr a, w1) \<and> f a w1 = (Inr x, w'))"
  by (auto simp: hbind_def split: prod.splits sum.splits)

lemma hlift_Inr_iff [simp]: "hlift r w = (Inr a, w') \<longleftrightarrow> r = Inr a \<and> w' = w"
  by (auto simp: hlift_def)

lemma hguard_Inr_iff [simp]: "hguard c e w = (Inr u, w') \<longleftrightarrow> c \<and> w' = w"
  by (auto simp: hguard_def)

lemma hbind_guard [simp]: "c \<Longrightarrow> hbind (hguard c e) f w = f () w"
  by (simp add: hbind_def hguard_def)

lemma hbind_lift [simp]: "hbind (hlift (Inr a)) f w = f a w"
  by (simp add: hbind_def hlift_def)

lemma hbind_step: "m w = (Inr a, w1) \<Longrightarrow> hbind m f w = f a w1"
  by (simp add: hbind_def)

text \<open>The accepted timestamps: within the allowed skew, on either side, with no wrap-around at the
  ends of the range.\<close>

definition within_skew :: "u64 \<Rightarrow> u64 \<Rightarrow> bool" where
  "within_skew ts now \<longleftrightarrow> unat ts \<le> unat now + 300 \<and> unat now \<le> unat ts + 300"

lemma skew_iff:
  "\<not> (ts < saturating_sub_w now HANDSHAKE_MAX_CLOCK_SKEW_SECS \<or> ts > saturating_add_w now HANDSHAKE_MAX_CLOCK_SKEW_SECS)
    \<longleftrightarrow> within_skew ts now"
proof -
  have top: "unat ts < 2 ^ 64" using unsigned_less [of ts, where ?'a = nat] by simp
  have lo: "ts < saturating_sub_w now 300 \<longleftrightarrow> unat ts + 300 < unat now"
    by (auto simp: saturating_sub_w_def word_less_nat_alt unat_sub word_le_nat_alt)
  have hi: "saturating_add_w now 300 < ts \<longleftrightarrow> unat now + 300 < unat ts"
  proof (cases "unat now + 300 < 2 ^ 64")
    case True
    then have "unat (now + 300) = unat now + 300" by (simp add: unat_word_ariths)
    with True show ?thesis by (simp add: saturating_add_w_def word_less_nat_alt)
  next
    case False
    with top have "\<not> unat now + 300 < unat ts" by simp
    moreover have "\<not> - 1 < ts" using word_order.extremum [of ts] by (simp only: not_less)
    ultimately show ?thesis using False by (simp add: saturating_add_w_def)
  qed
  show ?thesis
    unfolding HANDSHAKE_MAX_CLOCK_SKEW_SECS_def lo hi by (auto simp: within_skew_def)
qed

lemma validate_timestamp_iff:
  "validate_timestamp ts w = (Inr (), w') \<longleftrightarrow> within_skew ts (unix w 0) \<and> w' = snd (unix_now w)"
  unfolding skew_iff [symmetric]
  by (auto simp: validate_timestamp_def unix_time_secs_def unix_now_def Let_def)

lemma verify_peer_iff:
  "verify_peer_cert_and_sig E cert ca_vk m ed ml w = (Inr (), w') \<longleftrightarrow>
     fst (Cert_verify E cert ca_vk w)
   \<and> hybrid_verify E \<lparr>hvk_ed25519 = ed25519_pk (keys (body cert)), hvk_ml_dsa = ml_dsa_pk (keys (body cert))\<rparr> m
       \<lparr>sig_ed25519 = ed, sig_ml_dsa = ml\<rparr>
   \<and> w' = snd (Cert_verify E cert ca_vk w)"
  by (auto simp: verify_peer_cert_and_sig_def Let_def split: prod.splits)

section \<open>The session id loop\<close>

lemma random_u32_zero:
  assumes "random_u32 w = (0, w')"
  shows "w' = snd (fill_bytes 4 w)" and "\<forall>i<4. rng w i = 0"
proof -
  from assms show "w' = snd (fill_bytes 4 w)" by (auto simp: random_u32_def split: prod.splits)
  let ?bs = "map (rng w) [0..<4]"
  from assms have "u32_from_be_bytes ?bs = 0" by (auto simp: random_u32_def fill_bytes_def)
  then have "?bs = u32_to_be_bytes 0" using u32_to_from_be [of ?bs] by simp
  moreover have "u32_to_be_bytes 0 = replicate 4 0" by code_simp
  ultimately have "?bs ! i = 0" if "i < 4" for i using that by simp
  then show "\<forall>i<4. rng w i = 0" by simp
qed

lemma random_session_id_returns:
  "rng w i \<noteq> 0 \<Longrightarrow> \<exists>sid w'. random_session_id w = Some (sid, w') \<and> sid \<noteq> 0"
proof (induction i arbitrary: w rule: less_induct)
  case (less i)
  obtain v w1 where r: "random_u32 w = (v, w1)" by fastforce
  show ?case
  proof (cases "v = 0")
    case False
    with r show ?thesis by (subst random_session_id.simps) simp
  next
    case True
    with r have w1: "w1 = snd (fill_bytes 4 w)" and z: "\<forall>i<4. rng w i = 0"
      using random_u32_zero by blast+
    then have "4 \<le> i" using less.prems by (metis not_less)
    moreover from this have "rng w1 (i - 4) \<noteq> 0" using less.prems w1 by (simp add: fill_bytes_def)
    ultimately obtain sid w' where "random_session_id w1 = Some (sid, w')" "sid \<noteq> 0"
      using less.IH [of "i - 4" w1] by auto
    with r True show ?thesis by (subst random_session_id.simps) simp
  qed
qed

lemma random_session_id_draws:
  assumes "random_session_id w = Some (sid, w')"
  shows "sid \<noteq> 0 \<and> draws w w'"
proof -
  let ?P = "\<lambda>w y. fst y \<noteq> 0 \<and> draws w (snd y)"
  have "?P w (sid, w')"
  proof (rule random_session_id.raw_induct [OF _ assms])
    fix f w and y :: "u32 \<times> world"
    assume IH: "\<And>w y. f w = Some y \<Longrightarrow> ?P w y"
      and y: "(let (i, w') = random_u32 w in if i \<noteq> 0 then Some (i, w') else f w') = Some y"
    obtain v w1 where r: "random_u32 w = (v, w1)" by fastforce
    show "?P w y"
    proof (cases "v = 0")
      case True
      with y r IH [of w1 y] draws_random_u32 [OF r] show ?thesis by (auto intro: draws_trans)
    next
      case False
      with y r have "y = (v, w1)" by simp
      with False draws_random_u32 [OF r] show ?thesis by simp
    qed
  qed
  then show ?thesis by simp
qed

end
