(* ===== verification/Peer.thy ===== *)
theory Peer
  imports Replay Routes Handshake
begin

text \<open>
  The per-peer bookkeeping of \<open>litewayd/src/state.rs\<close>: the timings, the state of a peer with the
  decisions taken on it (addresses, keepalives, probes of the direct path), and outgoing handshakes
  that wait for an answer.
\<close>

section \<open>Timings\<close>

definition HANDSHAKE_RETRY_BASE :: duration where "HANDSHAKE_RETRY_BASE = from_millis 500"
definition HANDSHAKE_RETRY_MAX :: duration where "HANDSHAKE_RETRY_MAX = from_secs 3"
definition HANDSHAKE_MAX_ATTEMPTS :: u32 where "HANDSHAKE_MAX_ATTEMPTS = 10"
definition PEER_EXPIRY :: duration where "PEER_EXPIRY = from_secs 300"
definition DIRECT_PROBE_MAX_INTERVAL :: duration where "DIRECT_PROBE_MAX_INTERVAL = from_secs 30"
definition KEEPALIVE_RETRY_MAX :: duration where "KEEPALIVE_RETRY_MAX = from_secs 2"

record Timings =
  keepalive_interval :: duration
  keepalive_timeout :: duration
  direct_probe_interval :: duration
  handshake_timeout :: duration
  relay_fallback :: duration
  peer_expiry :: duration

definition Timings_from_secs :: "u64 \<Rightarrow> u64 \<Rightarrow> u64 \<Rightarrow> u64 \<Rightarrow> u64 \<Rightarrow> Timings" where
  "Timings_from_secs interval timeout probe hs_timeout fallback =
     \<lparr>keepalive_interval = from_secs (unat interval), keepalive_timeout = from_secs (unat timeout),
      direct_probe_interval = from_secs (unat probe), handshake_timeout = from_secs (unat hs_timeout),
      relay_fallback = from_secs (unat fallback), peer_expiry = PEER_EXPIRY\<rparr>"

section \<open>Peers\<close>

record KeepalivePending =
  kp_token :: u64
  kp_first_sent_at :: instant
  kp_last_sent_at :: instant

datatype DropReason = KeepaliveTimeout | Expired

datatype PeerTick = TickIdle | TickKeepalive u64 | TickDrop DropReason

definition DropReason_as_str :: "DropReason \<Rightarrow> string" where
  "DropReason_as_str r = (case r of KeepaliveTimeout \<Rightarrow> ''keepalive timeout'' | Expired \<Rightarrow> ''no traffic'')"

record PeerState =
  ps_name :: string
  ps_cert :: Cert
  ps_tx_key :: bytes
  ps_rx_key :: bytes
  ps_addr :: SocketAddr
  ps_direct_addr :: "SocketAddr option"
  ps_is_relay :: bool
  ps_tx_session_id :: u32
  ps_rx_session_id :: u32
  ps_tx_seq :: u64
  ps_rx_replay :: ReplayWindow
  ps_last_seen :: instant
  ps_last_ack :: instant
  ps_routes :: "IpNetwork list"
  ps_handshake_initiator_id :: u32
  ps_keepalive :: "KeepalivePending option"
  ps_relayed :: bool
  ps_next_probe :: "instant option"
  ps_probe_interval :: duration
  ps_probe_token :: "u64 option"

definition next_seq :: "PeerState \<Rightarrow> u64 \<times> PeerState" where
  "next_seq p = (let s = ps_tx_seq p + 1 in (s, p\<lparr>ps_tx_seq := s\<rparr>))"

definition mark_seen :: "PeerState \<Rightarrow> SocketAddr \<Rightarrow> instant \<Rightarrow> bool \<Rightarrow> bool \<Rightarrow> SocketAddr option \<times> PeerState" where
  "mark_seen p0 src now src_is_relay is_keepalive =
     (let p = p0\<lparr>ps_last_seen := now\<rparr>
      in if ps_addr p = src then (None, p)
         else if src_is_relay \<and> \<not> ps_relayed p then (None, p)
         else if \<not> src_is_relay \<and> ps_relayed p \<and> is_keepalive then
           (None, if ps_direct_addr p \<noteq> Some src then p\<lparr>ps_direct_addr := Some src, ps_next_probe := None\<rparr> else p)
         else
           let old = ps_addr p; p1 = p\<lparr>ps_addr := src\<rparr>
           in (Some old,
               if \<not> src_is_relay
               then p1\<lparr>ps_direct_addr := Some src, ps_relayed := False, ps_next_probe := None, ps_probe_token := None\<rparr>
               else p1))"

datatype KeepaliveAckKind = AckKeepalive | AckProbe | AckUnknown

definition ack_keepalive :: "PeerState \<Rightarrow> u64 \<Rightarrow> instant \<Rightarrow> KeepaliveAckKind \<times> PeerState" where
  "ack_keepalive p tok now =
     (if (case ps_keepalive p of None \<Rightarrow> False | Some k \<Rightarrow> kp_token k = tok)
      then (AckKeepalive, p\<lparr>ps_keepalive := None, ps_last_ack := now\<rparr>)
      else if ps_probe_token p = Some tok then (AckProbe, p\<lparr>ps_probe_token := None, ps_last_ack := now\<rparr>)
      else (AckUnknown, p))"

definition tick :: "PeerState \<Rightarrow> instant \<Rightarrow> Timings \<Rightarrow> u64 \<Rightarrow> PeerTick \<times> PeerState" where
  "tick p now timings tok =
     (case ps_keepalive p of
        Some k \<Rightarrow>
          if now - kp_first_sent_at k \<ge> keepalive_timeout timings then (TickDrop KeepaliveTimeout, p)
          else
            let retry = min (keepalive_interval timings) KEEPALIVE_RETRY_MAX
            in if now - kp_last_sent_at k \<ge> retry
               then (TickKeepalive (kp_token k), p\<lparr>ps_keepalive := Some (k\<lparr>kp_last_sent_at := now\<rparr>)\<rparr>)
               else (TickIdle, p)
      | None \<Rightarrow>
          if now - ps_last_seen p \<ge> peer_expiry timings then (TickDrop Expired, p)
          else if now - ps_last_ack p \<ge> keepalive_interval timings
          then (TickKeepalive tok,
                p\<lparr>ps_keepalive := Some \<lparr>kp_token = tok, kp_first_sent_at = now, kp_last_sent_at = now\<rparr>\<rparr>)
          else (TickIdle, p))"

datatype PathProbe = ProbeNone | ProbePunch SocketAddr u64 | ProbeLookup

text \<open>Doubling the interval and adding it to the time are the two operators of this file that a
  configuration can make overflow; \<open>None\<close> is their panic.\<close>

definition take_path_probe :: "PeerState \<Rightarrow> instant \<Rightarrow> Timings \<Rightarrow> u64 \<Rightarrow> (PathProbe \<times> PeerState) option" where
  "take_path_probe p now timings tok =
     (if \<not> ps_relayed p then Some (ProbeNone, p)
      else if ps_direct_addr p = Some (ps_addr p) then Some (ProbeNone, p)
      else if (case ps_next_probe p of None \<Rightarrow> False | Some next \<Rightarrow> now < next) then Some (ProbeNone, p)
      else do {
        interval \<leftarrow> (case ps_next_probe p of
            None \<Rightarrow> Some (direct_probe_interval timings)
          | Some _ \<Rightarrow> map_option (\<lambda>d. min d DIRECT_PROBE_MAX_INTERVAL) (duration_mul (ps_probe_interval p) 2));
        next \<leftarrow> instant_add now interval;
        let p1 = p\<lparr>ps_probe_interval := interval, ps_next_probe := Some next\<rparr>;
        Some (case ps_direct_addr p1 of
            Some direct \<Rightarrow> (ProbePunch direct tok, p1\<lparr>ps_probe_token := Some tok\<rparr>)
          | None \<Rightarrow> (ProbeLookup, p1))
      })"

section \<open>Pending handshakes\<close>

record PendingHandshake =
  ph_initiate :: HandshakeInitiate
  ph_direct_addr :: SocketAddr
  ph_relay_addr :: "SocketAddr option"
  ph_peer_id :: "u32 option"
  ph_peer_name :: string
  ph_created_at :: instant
  ph_next_attempt :: instant
  ph_attempts :: u32

text \<open>\<open>saturating_mul\<close> of a \<open>Duration\<close> cannot saturate here: the factor is at most 8.\<close>

definition retry_delay :: "u32 \<Rightarrow> duration" where
  "retry_delay attempts =
     (let exponent = min (saturating_sub_w attempts 1) 8;
          scaled = HANDSHAKE_RETRY_BASE * 2 ^ unat (min exponent 3)
      in min scaled HANDSHAKE_RETRY_MAX)"

definition PendingHandshake_new ::
  "HandshakeInitiate \<Rightarrow> SocketAddr \<Rightarrow> u32 option \<Rightarrow> string \<Rightarrow> instant \<Rightarrow> PendingHandshake" where
  "PendingHandshake_new initiate direct pid name now =
     \<lparr>ph_initiate = initiate, ph_direct_addr = direct, ph_relay_addr = None, ph_peer_id = pid,
      ph_peer_name = name, ph_created_at = now, ph_next_attempt = now + retry_delay 1, ph_attempts = 1\<rparr>"

definition expired :: "PendingHandshake \<Rightarrow> instant \<Rightarrow> Timings \<Rightarrow> bool" where
  "expired h now timings = (now - ph_created_at h \<ge> handshake_timeout timings)"

definition retransmit_due :: "PendingHandshake \<Rightarrow> instant \<Rightarrow> Timings \<Rightarrow> bool" where
  "retransmit_due h now timings =
     (\<not> expired h now timings \<and> ph_attempts h < HANDSHAKE_MAX_ATTEMPTS \<and> now \<ge> ph_next_attempt h)"

definition record_attempt :: "PendingHandshake \<Rightarrow> instant \<Rightarrow> PendingHandshake" where
  "record_attempt h now =
     (let n = ph_attempts h + 1 in h\<lparr>ph_attempts := n, ph_next_attempt := now + retry_delay n\<rparr>)"

definition relay_fallback_due :: "PendingHandshake \<Rightarrow> instant \<Rightarrow> Timings \<Rightarrow> bool" where
  "relay_fallback_due h now timings =
     (ph_relay_addr h = None \<and> ph_peer_id h \<noteq> None \<and> now - ph_created_at h \<ge> relay_fallback timings)"

definition targets :: "PendingHandshake \<Rightarrow> SocketAddr list" where
  "targets h =
     [ph_direct_addr h]
       @ (case ph_relay_addr h of
            None \<Rightarrow> []
          | Some relay \<Rightarrow> if relay \<noteq> ph_direct_addr h then [relay] else [])"

section \<open>Lemmas: keepalives\<close>

text \<open>Everything that happens to a peer between two maintenance ticks, and the ticks themselves.\<close>

datatype peer_event =
    PSeen SocketAddr instant bool bool
  | PAck u64 instant
  | PTick instant u64
  | PProbe instant u64
  | PSeq
  | PAccept u64

fun peer_step :: "Timings \<Rightarrow> peer_event \<Rightarrow> PeerState \<Rightarrow> PeerState" where
  "peer_step T (PSeen src now r k) p = snd (mark_seen p src now r k)"
| "peer_step T (PAck tok now) p = snd (ack_keepalive p tok now)"
| "peer_step T (PTick now tok) p = snd (tick p now T tok)"
| "peer_step T (PProbe now tok) p = (case take_path_probe p now T tok of None \<Rightarrow> p | Some (_, p') \<Rightarrow> p')"
| "peer_step T PSeq p = snd (next_seq p)"
| "peer_step T (PAccept sq) p = p\<lparr>ps_rx_replay := snd (accept (ps_rx_replay p) sq)\<rparr>"

lemma mark_seen_keepalive [frame_simps]: "ps_keepalive (snd (mark_seen p src now r k)) = ps_keepalive p"
  by (simp add: mark_seen_def Let_def)

lemma probe_keepalive: "take_path_probe p now T tok = Some (r, p') \<Longrightarrow> ps_keepalive p' = ps_keepalive p"
  by (auto simp: take_path_probe_def Let_def split: option.splits bind_splits if_splits)

lemma next_seq_keepalive [frame_simps]: "ps_keepalive (snd (next_seq p)) = ps_keepalive p"
  by (simp add: next_seq_def Let_def)

text \<open>An outstanding keepalive keeps its token and its first sending time until its own token is
  acknowledged: traffic, probes, other acks and further ticks do not touch them.\<close>

definition waiting_since :: "u64 \<Rightarrow> instant \<Rightarrow> PeerState \<Rightarrow> bool" where
  "waiting_since tok t p \<longleftrightarrow> (\<exists>k. ps_keepalive p = Some k \<and> kp_token k = tok \<and> kp_first_sent_at k = t)"

fun not_acked :: "u64 \<Rightarrow> peer_event \<Rightarrow> bool" where
  "not_acked tok (PAck t _) = (t \<noteq> tok)"
| "not_acked tok _ = True"

lemma waiting_step: "not_acked tok e \<Longrightarrow> waiting_since tok t p \<Longrightarrow> waiting_since tok t (peer_step T e p)"
  by (cases e) (auto simp: waiting_since_def frame_simps ack_keepalive_def tick_def Let_def split: option.splits dest: probe_keepalive)

lemma waiting_run:
  "list_all (not_acked tok) es \<Longrightarrow> waiting_since tok t p \<Longrightarrow> waiting_since tok t (fold (peer_step T) es p)"
  by (induction es arbitrary: p) (auto intro: waiting_step)

lemma tick_waiting_drops:
  "waiting_since tok t p \<Longrightarrow> keepalive_timeout T \<le> now - t \<Longrightarrow> fst (tick p now T tok') = TickDrop KeepaliveTimeout"
  by (auto simp: waiting_since_def tick_def)

section \<open>Lemmas: path probes\<close>

text \<open>The one way a probe panics: it is due, and its interval or the time of the next one is out of range.\<close>

definition probe_due :: "PeerState \<Rightarrow> instant \<Rightarrow> bool" where
  "probe_due p now \<longleftrightarrow> ps_relayed p \<and> ps_direct_addr p \<noteq> Some (ps_addr p) \<and> pred_option (\<lambda>next. next \<le> now) (ps_next_probe p)"

definition probe_overflows :: "Timings \<Rightarrow> instant \<Rightarrow> PeerState \<Rightarrow> bool" where
  "probe_overflows T now p \<longleftrightarrow> probe_due p now \<and>
     (case ps_next_probe p of
        None \<Rightarrow> INSTANT_LIMIT \<le> now + direct_probe_interval T
      | Some _ \<Rightarrow> DURATION_LIMIT \<le> ps_probe_interval p * 2
          \<or> INSTANT_LIMIT \<le> now + min (ps_probe_interval p * 2) DIRECT_PROBE_MAX_INTERVAL)"

lemma probe_panics_iff: "take_path_probe p now T tok = None \<longleftrightarrow> probe_overflows T now p"
  by (auto simp: take_path_probe_def probe_overflows_def probe_due_def instant_add_def duration_mul_def Let_def
      split: option.splits bind_splits if_splits)

text \<open>The other sums of an instant and a duration add a retry delay, which is at most three seconds.\<close>

lemma retry_delay_in_range: "now + from_secs 3 < INSTANT_LIMIT \<Longrightarrow> instant_add now (retry_delay k) = Some (now + retry_delay k)"
  by (simp add: instant_add_def retry_delay_def Let_def HANDSHAKE_RETRY_MAX_def min_def)

definition probe_step :: "Timings \<Rightarrow> u64 \<Rightarrow> instant \<Rightarrow> PeerState \<Rightarrow> PeerState" where
  "probe_step T tok now p = (case take_path_probe p now T tok of None \<Rightarrow> p | Some (_, p') \<Rightarrow> p')"

definition probes :: "Timings \<Rightarrow> u64 \<Rightarrow> instant \<Rightarrow> PeerState \<Rightarrow> bool" where
  "probes T tok now p \<longleftrightarrow> pred_option (\<lambda>(r, _). r \<noteq> ProbeNone) (take_path_probe p now T tok) \<and> take_path_probe p now T tok \<noteq> None"

text \<open>Every attempt of the list is made when a probe is due, and none panics.\<close>

fun probes_due :: "Timings \<Rightarrow> u64 \<Rightarrow> PeerState \<Rightarrow> instant list \<Rightarrow> bool" where
  "probes_due T tok p [] = True"
| "probes_due T tok p (now # nows) =
     (probes T tok now p \<and> probes_due T tok (probe_step T tok now p) nows)"

lemma probe_due_interval:
  assumes "probes T tok now p"
  shows "ps_probe_interval (probe_step T tok now p) =
      (if ps_next_probe p = None then direct_probe_interval T else min (ps_probe_interval p * 2) DIRECT_PROBE_MAX_INTERVAL)"
    and "ps_next_probe (probe_step T tok now p) = Some (now + ps_probe_interval (probe_step T tok now p))"
  using assms
  by (auto simp: probe_step_def probes_def take_path_probe_def instant_add_def duration_mul_def Let_def split: option.splits if_splits bind_splits)

lemma probe_backoff_step:
  "probes_due T tok p nows \<Longrightarrow> ps_next_probe p = Some t \<Longrightarrow>
   ps_probe_interval (fold (probe_step T tok) nows p) =
     (if nows = [] then ps_probe_interval p else min (ps_probe_interval p * 2 ^ length nows) DIRECT_PROBE_MAX_INTERVAL)"
proof (induction nows arbitrary: p t)
  case Nil
  then show ?case by simp
next
  case (Cons now nows)
  have due: "probes T tok now p" using Cons.prems by simp
  note step = probe_due_interval [OF due]
  have "ps_probe_interval (fold (probe_step T tok) nows (probe_step T tok now p)) =
      (if nows = [] then ps_probe_interval (probe_step T tok now p)
       else min (ps_probe_interval (probe_step T tok now p) * 2 ^ length nows) DIRECT_PROBE_MAX_INTERVAL)"
    using Cons.prems by (intro Cons.IH [OF _ step(2)]) simp
  moreover have "min (min (i * 2) m * 2 ^ k) m = min (i * 2 ^ Suc k) m" for i m k :: nat
  proof (cases "i * 2 \<le> m")
    case True
    then show ?thesis by (simp add: mult.assoc)
  next
    case False
    have "m \<le> m * 2 ^ k" by simp
    moreover have "m \<le> i * 2 ^ Suc k"
    proof -
      have "m \<le> (i * 2) * 1" using False by simp
      also have "\<dots> \<le> (i * 2) * 2 ^ k" by (rule mult_le_mono2) simp
      finally show ?thesis by (simp add: mult.assoc)
    qed
    moreover have "min (i * 2) m = m" using False by simp
    ultimately show ?thesis by (simp only: min_absorb2)
  qed
  ultimately show ?case using step(1) Cons.prems(2) by simp
qed

section \<open>Lemmas: retransmission\<close>

lemma retry_delay_eq:
  "retry_delay n = from_millis (if n \<le> 1 then 500 else if n = 2 then 1000 else if n = 3 then 2000 else 3000)"
proof -
  have u: "unat (saturating_sub_w n 1) = unat n - 1"
    by (auto simp: saturating_sub_w_def word_less_nat_alt unat_sub word_le_nat_alt)
  have m: "unat (min (min (saturating_sub_w n 1) 8) 3) = min (unat n - 1) 3"
    using u by (auto simp: min_def word_le_nat_alt)
  have "n \<le> 1 \<longleftrightarrow> unat n \<le> 1" "n = 2 \<longleftrightarrow> unat n = 2" "n = 3 \<longleftrightarrow> unat n = 3"
    by (auto simp: word_le_nat_alt word_unat_eq_iff)
  then have "(if n \<le> 1 then 500 else if n = 2 then 1000 else if n = 3 then 2000 else 3000 :: nat) =
      min (500 * 2 ^ min (unat n - 1) 3) 3000"
    by (cases "unat n \<le> 1 \<or> unat n = 2 \<or> unat n = 3") (auto simp: min_absorb2)
  then show ?thesis
    unfolding retry_delay_def Let_def m HANDSHAKE_RETRY_BASE_def HANDSHAKE_RETRY_MAX_def
    by (simp add: from_millis_def from_secs_def min_def)
qed

text \<open>The decision a maintenance tick takes on a pending handshake.\<close>

definition retransmit_step :: "Timings \<Rightarrow> instant \<Rightarrow> PendingHandshake \<Rightarrow> PendingHandshake" where
  "retransmit_step T now h = (if retransmit_due h now T then record_attempt h now else h)"

definition attempts_ok :: "PendingHandshake \<Rightarrow> bool" where
  "attempts_ok h \<longleftrightarrow> 1 \<le> unat (ph_attempts h) \<and> unat (ph_attempts h) \<le> 10"

lemma attempts_ok_step: "attempts_ok h \<Longrightarrow> attempts_ok (retransmit_step T now h)"
proof -
  assume ok: "attempts_ok h"
  show ?thesis
  proof (cases "ph_attempts h < 10")
    case True
    then have "unat (ph_attempts h + 1) = unat (ph_attempts h) + 1"
      by (simp add: word_less_nat_alt unat_word_ariths)
    with True ok show ?thesis
      by (auto simp: attempts_ok_def retransmit_step_def record_attempt_def Let_def word_less_nat_alt)
  next
    case False
    with ok show ?thesis by (simp add: retransmit_step_def retransmit_due_def HANDSHAKE_MAX_ATTEMPTS_def)
  qed
qed

interpretation retransmission: step_machine
  "PendingHandshake_new ini direct pid name now0" "retransmit_step T" "\<lambda>_. True" attempts_ok
proof
  show "attempts_ok (PendingHandshake_new ini direct pid name now0)" by (simp add: attempts_ok_def PendingHandshake_new_def)
qed (rule attempts_ok_step)

text \<open>How often a run retransmits.\<close>

fun retransmissions :: "Timings \<Rightarrow> instant list \<Rightarrow> PendingHandshake \<Rightarrow> nat" where
  "retransmissions T [] h = 0"
| "retransmissions T (now # nows) h =
     (if retransmit_due h now T then 1 else 0) + retransmissions T nows (retransmit_step T now h)"

lemma retransmissions_attempts:
  "attempts_ok h \<Longrightarrow> unat (ph_attempts (fold (retransmit_step T) nows h)) = unat (ph_attempts h) + retransmissions T nows h"
proof (induction nows arbitrary: h)
  case Nil
  then show ?case by simp
next
  case (Cons now nows)
  have "unat (ph_attempts (retransmit_step T now h)) = unat (ph_attempts h) + (if retransmit_due h now T then 1 else 0)"
    by (auto simp: retransmit_step_def record_attempt_def Let_def retransmit_due_def HANDSHAKE_MAX_ATTEMPTS_def
        word_less_nat_alt unat_word_ariths)
  with Cons.IH [OF attempts_ok_step [OF Cons.prems]] show ?case by simp
qed

section \<open>Properties\<close>

text \<open>C19. Inbound traffic cannot hide a dead sending direction. Take any peer at a tick \<open>t1\<close> at least a
  keepalive interval after the last acknowledgement. Either it is dropped there, or a keepalive is
  outstanding, and then, whatever packets are received, probes are made, sequence numbers are used
  and other tokens are acknowledged in between, every later tick that comes the keepalive timeout
  after \<open>t1\<close> drops the peer unless that keepalive's own token was acknowledged.\<close>

theorem unacked_peer_is_dropped:
  assumes "ps_last_ack p + keepalive_interval T \<le> t1"
    and "pred_option (\<lambda>k. kp_first_sent_at k \<le> t1) (ps_keepalive p)"
  shows "(\<exists>r. fst (tick p t1 T tok) = TickDrop r)
    \<or> (\<exists>k. ps_keepalive (snd (tick p t1 T tok)) = Some k \<and>
         (\<forall>es now tok'. list_all (not_acked (kp_token k)) es \<and> t1 + keepalive_timeout T \<le> now \<longrightarrow>
            fst (tick (fold (peer_step T) es (snd (tick p t1 T tok))) now T tok') = TickDrop KeepaliveTimeout))"
proof (cases "\<exists>r. fst (tick p t1 T tok) = TickDrop r")
  case False
  then obtain k where k: "ps_keepalive (snd (tick p t1 T tok)) = Some k" "kp_first_sent_at k \<le> t1"
    using assms by (auto simp: tick_def Let_def split: option.splits if_splits)
  have "fst (tick (fold (peer_step T) es (snd (tick p t1 T tok))) now T tok') = TickDrop KeepaliveTimeout"
    if "list_all (not_acked (kp_token k)) es" "t1 + keepalive_timeout T \<le> now" for es now tok'
  proof -
    have "waiting_since (kp_token k) (kp_first_sent_at k) (snd (tick p t1 T tok))" using k(1) by (simp add: waiting_since_def)
    from waiting_run [OF that(1) this] k(2) that(2) show ?thesis by (intro tick_waiting_drops) auto
  qed
  with k(1) show ?thesis by blast
qed simp

definition demo_timings :: Timings where
  "demo_timings = Timings_from_secs 5 20 2 10 3"

definition demo_peer :: PeerState where
  "demo_peer =
     \<lparr>ps_name = ''n1'', ps_cert = demo_cert, ps_tx_key = [1], ps_rx_key = [2], ps_addr = SocketAddrV4 1 2,
      ps_direct_addr = None, ps_is_relay = False, ps_tx_session_id = 3, ps_rx_session_id = 4, ps_tx_seq = 0,
      ps_rx_replay = ReplayWindow_new, ps_last_seen = 0, ps_last_ack = 0, ps_routes = [],
      ps_handshake_initiator_id = 1, ps_keepalive = None, ps_relayed = True, ps_next_probe = None,
      ps_probe_interval = 0, ps_probe_token = None\<rparr>"

theorem unacked_peer_is_dropped_witness:
  "fst (tick (fold (peer_step demo_timings) [PSeen (SocketAddrV4 1 2) (from_secs 20) False False, PAck 8 (from_secs 21)]
      (snd (tick demo_peer (from_secs 6) demo_timings 7))) (from_secs 27) demo_timings 9) = TickDrop KeepaliveTimeout"
proof -
  have t: "tick demo_peer (from_secs 6) demo_timings 7 =
      (TickKeepalive 7, demo_peer\<lparr>ps_keepalive := Some \<lparr>kp_token = 7, kp_first_sent_at = from_secs 6, kp_last_sent_at = from_secs 6\<rparr>\<rparr>)"
    by (simp add: tick_def demo_peer_def demo_timings_def Timings_from_secs_def from_secs_def PEER_EXPIRY_def)
  have a: "ps_last_ack demo_peer + keepalive_interval demo_timings \<le> from_secs 6"
    by (simp add: demo_peer_def demo_timings_def Timings_from_secs_def from_secs_def)
  have b: "pred_option (\<lambda>k. kp_first_sent_at k \<le> from_secs 6) (ps_keepalive demo_peer)" by (simp add: demo_peer_def)
  have c: "list_all (not_acked 7) [PSeen (SocketAddrV4 1 2) (from_secs 20) False False, PAck 8 (from_secs 21)]
      \<and> from_secs 6 + keepalive_timeout demo_timings \<le> from_secs 27"
    by (simp add: demo_timings_def Timings_from_secs_def from_secs_def)
  from unacked_peer_is_dropped [OF a b, of 7] show ?thesis unfolding t using c by (auto simp del: fold.simps)
qed

text \<open>Which path a session uses. An authenticated packet changes a peer's address only to its own
  source, and the old address is reported exactly then; a session that is direct stays direct and
  ignores relay addresses, so late relayed packets cannot pull it back; a relayed session becomes
  direct only through a packet that is not a keepalive, from an address that is not a relay, which is
  then both its address and its direct address; a keepalive from a new direct address only becomes
  the probe target.\<close>

lemma mark_seen_paths:
  "let (r, p') = mark_seen p src now src_is_relay is_keepalive in
     ps_last_seen p' = now
   \<and> (ps_addr p' = ps_addr p \<and> r = None \<or> ps_addr p' = src \<and> ps_addr p' \<noteq> ps_addr p \<and> r = Some (ps_addr p))
   \<and> (\<not> ps_relayed p \<longrightarrow> \<not> ps_relayed p' \<and> (src_is_relay \<longrightarrow> ps_addr p' = ps_addr p))
   \<and> (ps_relayed p \<and> \<not> ps_relayed p' \<longrightarrow>
        \<not> src_is_relay \<and> \<not> is_keepalive \<and> ps_addr p' = src \<and> ps_direct_addr p' = Some src \<and> ps_probe_token p' = None)
   \<and> (ps_relayed p \<and> \<not> src_is_relay \<and> is_keepalive \<and> ps_addr p \<noteq> src \<longrightarrow>
        ps_relayed p' \<and> ps_addr p' = ps_addr p \<and> ps_direct_addr p' = Some src
      \<and> (ps_direct_addr p \<noteq> Some src \<longrightarrow> ps_next_probe p' = None))"
  by (simp add: mark_seen_def Let_def)

text \<open>The probes of a relayed session back off exponentially: if a first probe and \<open>n\<close> further ones
  were made, each when due, the next one is due the configured interval after the last if \<open>n = 0\<close>, and
  that interval times \<open>2 ^ n\<close> but at most 30 seconds otherwise.\<close>

lemma probe_backoff:
  assumes "ps_next_probe p = None" and "probes_due T tok p (now # nows)"
  shows "ps_probe_interval (fold (probe_step T tok) (now # nows) p) =
      (if nows = [] then direct_probe_interval T
       else min (direct_probe_interval T * 2 ^ length nows) DIRECT_PROBE_MAX_INTERVAL)
    \<and> ps_next_probe (fold (probe_step T tok) (now # nows) p) =
      Some (last (now # nows) + ps_probe_interval (fold (probe_step T tok) (now # nows) p))"
proof -
  have due: "probes T tok now p" using assms(2) by simp
  note first = probe_due_interval [OF due]
  have i: "ps_probe_interval (probe_step T tok now p) = direct_probe_interval T" using first(1) assms(1) by simp
  have "ps_probe_interval (fold (probe_step T tok) nows (probe_step T tok now p)) =
      (if nows = [] then direct_probe_interval T else min (direct_probe_interval T * 2 ^ length nows) DIRECT_PROBE_MAX_INTERVAL)"
    using probe_backoff_step [OF _ first(2), where nows = nows] assms(2) i by simp
  moreover have "ps_next_probe (fold (probe_step T tok) (nows' @ [n]) p) = Some (n + ps_probe_interval (fold (probe_step T tok) (nows' @ [n]) p))"
    if "probes_due T tok p (nows' @ [n])" for nows' n
  proof -
    have "probes T tok n (fold (probe_step T tok) nows' p)"
      using that by (induction nows' arbitrary: p) auto
    from probe_due_interval(2) [OF this] show ?thesis by simp
  qed
  then have "ps_next_probe (fold (probe_step T tok) (butlast (now # nows) @ [last (now # nows)]) p) =
      Some (last (now # nows) + ps_probe_interval (fold (probe_step T tok) (butlast (now # nows) @ [last (now # nows)]) p))"
    using assms(2) by (metis append_butlast_last_id list.discI)
  ultimately show ?thesis by (simp add: append_butlast_last_id del: append_Cons fold_append butlast.simps last.simps)
qed

text \<open>One handshake costs at most ten transmissions: over any sequence of maintenance ticks it is
  retransmitted at most nine times after the first sending, with delays of 0.5, 1, 2 and then 3
  seconds, and never once it has expired.\<close>

lemma handshake_retransmissions_bounded:
  "retransmissions T nows (PendingHandshake_new ini direct pid name now0) \<le> 9
   \<and> retry_delay n = from_millis (if n \<le> 1 then 500 else if n = 2 then 1000 else if n = 3 then 2000 else 3000)
   \<and> (expired h now T \<longrightarrow> retransmit_step T now h = h)"
proof -
  let ?h = "PendingHandshake_new ini direct pid name now0"
  have "attempts_ok ?h" by (simp add: attempts_ok_def PendingHandshake_new_def)
  then have "unat (ph_attempts (fold (retransmit_step T) nows ?h)) = 1 + retransmissions T nows ?h"
    by (simp add: retransmissions_attempts) (simp add: PendingHandshake_new_def)
  moreover have "attempts_ok (fold (retransmit_step T) nows ?h)"
    using retransmission.inv_reachable [where es = nows and T = T] by (simp add: list_all_iff)
  ultimately have "retransmissions T nows ?h \<le> 9" by (simp add: attempts_ok_def)
  then show ?thesis by (simp add: retry_delay_eq retransmit_step_def retransmit_due_def)
qed

end
