(* ===== verification/HsCache.thy ===== *)
theory HsCache
  imports Peer
begin

text \<open>
  The rest of \<open>litewayd/src/state.rs\<close>: the cache of handshake answers, the lighthouse slots, and the
  decision which of two crossing handshakes keeps the session.
\<close>

section \<open>Definitions\<close>

definition HANDSHAKE_CACHE_TTL :: duration where "HANDSHAKE_CACHE_TTL = from_secs 60"
definition HANDSHAKE_CACHE_MAX_ENTRIES :: nat where "HANDSHAKE_CACHE_MAX_ENTRIES = 256"

record CachedHandshake =
  ch_response :: bytes
  ch_peer_id :: u32
  ch_created_at :: instant

record HandshakeCache =
  hc_entries :: "(bytes, CachedHandshake) hashmap"

definition HandshakeCache_new :: HandshakeCache where
  "HandshakeCache_new = \<lparr>hc_entries = []\<rparr>"

definition HandshakeCache_get :: "HandshakeCache \<Rightarrow> bytes \<Rightarrow> instant \<Rightarrow> CachedHandshake option" where
  "HandshakeCache_get c key now =
     (case map_of (hc_entries c) key of
        None \<Rightarrow> None
      | Some e \<Rightarrow> if now - ch_created_at e < HANDSHAKE_CACHE_TTL then Some e else None)"

definition HandshakeCache_cleanup :: "HandshakeCache \<Rightarrow> instant \<Rightarrow> HandshakeCache" where
  "HandshakeCache_cleanup c now =
     c\<lparr>hc_entries := filter (\<lambda>(_, e). now - ch_created_at e < HANDSHAKE_CACHE_TTL) (hc_entries c)\<rparr>"

definition HandshakeCache_insert :: "HandshakeCache \<Rightarrow> bytes \<Rightarrow> bytes \<Rightarrow> u32 \<Rightarrow> instant \<Rightarrow> HandshakeCache" where
  "HandshakeCache_insert c key response pid now =
     (let c1 = (if length (hc_entries c) \<ge> HANDSHAKE_CACHE_MAX_ENTRIES then HandshakeCache_cleanup c now else c);
          c2 = (if length (hc_entries c1) \<ge> HANDSHAKE_CACHE_MAX_ENTRIES
                then (case min_by_key (\<lambda>(_, e). ch_created_at e) (hc_entries c1) of
                        None \<Rightarrow> c1
                      | Some (oldest, _) \<Rightarrow> c1\<lparr>hc_entries := AList.delete oldest (hc_entries c1)\<rparr>)
                else c1)
      in c2\<lparr>hc_entries := AList.update key \<lparr>ch_response = response, ch_peer_id = pid, ch_created_at = now\<rparr> (hc_entries c2)\<rparr>)"

record LighthouseSlot =
  ls_name :: string
  ls_configured :: string
  ls_address :: SocketAddr
  ls_peer_id :: "u32 option"
  ls_resolved_at :: instant

definition accept_handshake_session :: "u32 \<Rightarrow> u32 \<Rightarrow> u32 option \<Rightarrow> u32 \<Rightarrow> bool \<Rightarrow> bool" where
  "accept_handshake_session our_id pid existing_initiator_id initiator_id simultaneous =
     (if \<not> simultaneous then True
      else
        case existing_initiator_id of
          None \<Rightarrow> True
        | Some existing \<Rightarrow>
            let preferred = min our_id pid
            in if initiator_id \<noteq> preferred then False else existing \<noteq> preferred)"

section \<open>Lemmas: the cache\<close>

datatype cache_event = CInsert bytes bytes u32 instant | CCleanup instant

fun cache_step :: "cache_event \<Rightarrow> HandshakeCache \<Rightarrow> HandshakeCache" where
  "cache_step (CInsert k r i now) c = HandshakeCache_insert c k r i now"
| "cache_step (CCleanup now) c = HandshakeCache_cleanup c now"

definition cache_inv :: "HandshakeCache \<Rightarrow> bool" where
  "cache_inv c \<longleftrightarrow> hm_wf (hc_entries c) \<and> length (hc_entries c) \<le> HANDSHAKE_CACHE_MAX_ENTRIES"

lemma cache_inv_cleanup: "cache_inv c \<Longrightarrow> cache_inv (HandshakeCache_cleanup c now)"
  using length_filter_le [of "\<lambda>(_, e). now - ch_created_at e < HANDSHAKE_CACHE_TTL" "hc_entries c"]
  unfolding cache_inv_def HandshakeCache_cleanup_def by (simp add: hm_wf_filter del: length_filter_le)

lemma length_delete_present:
  "hm_wf m \<Longrightarrow> k \<in> fst ` set m \<Longrightarrow> Suc (length (AList.delete k m)) = length m"
proof -
  assume wf: "hm_wf m" and "k \<in> fst ` set m"
  then obtain v where "map_of m k = Some v" by (auto simp: map_of_eq_None_iff dest: weak_map_of_SomeI)
  then have "hm_at (\<lambda>_ _. 1) m k = 1" by (simp add: hm_at_def)
  with hm_sum_delete [OF wf, of "\<lambda>_ _. 1" k] show ?thesis unfolding hm_sum_length by simp
qed

lemma cache_inv_insert: "cache_inv c \<Longrightarrow> cache_inv (HandshakeCache_insert c k r i now)"
proof -
  assume inv: "cache_inv c"
  define c1 where "c1 = (if length (hc_entries c) \<ge> HANDSHAKE_CACHE_MAX_ENTRIES then HandshakeCache_cleanup c now else c)"
  have i1: "cache_inv c1" using inv cache_inv_cleanup by (simp add: c1_def)
  define c2 where "c2 = (if length (hc_entries c1) \<ge> HANDSHAKE_CACHE_MAX_ENTRIES
      then (case min_by_key (\<lambda>(_, e). ch_created_at e) (hc_entries c1) of
              None \<Rightarrow> c1 | Some (oldest, _) \<Rightarrow> c1\<lparr>hc_entries := AList.delete oldest (hc_entries c1)\<rparr>)
      else c1)"
  have i2: "hm_wf (hc_entries c2) \<and> length (hc_entries c2) < HANDSHAKE_CACHE_MAX_ENTRIES"
  proof (cases "length (hc_entries c1) \<ge> HANDSHAKE_CACHE_MAX_ENTRIES")
    case True
    then have "hc_entries c1 \<noteq> []" by (auto simp: HANDSHAKE_CACHE_MAX_ENTRIES_def)
    then obtain ko e where m: "min_by_key (\<lambda>(_, e). ch_created_at e) (hc_entries c1) = Some (ko, e)"
      by (cases "min_by_key (\<lambda>(_, e). ch_created_at e) (hc_entries c1)") auto
    then have c2: "c2 = c1\<lparr>hc_entries := AList.delete ko (hc_entries c1)\<rparr>" using True by (simp add: c2_def)
    have "ko \<in> fst ` set (hc_entries c1)" using min_by_key_in [OF m] by force
    then have "Suc (length (AList.delete ko (hc_entries c1))) = length (hc_entries c1)"
      using i1 by (intro length_delete_present) (auto simp: cache_inv_def)
    with i1 c2 show ?thesis by (auto simp: cache_inv_def intro: hm_wf_delete)
  qed (use i1 in \<open>auto simp: c2_def cache_inv_def\<close>)
  have "HandshakeCache_insert c k r i now =
      c2\<lparr>hc_entries := AList.update k \<lparr>ch_response = r, ch_peer_id = i, ch_created_at = now\<rparr> (hc_entries c2)\<rparr>"
    unfolding HandshakeCache_insert_def Let_def c2_def c1_def ..
  with i2 show ?thesis
    using length_update_le [of k _ "hc_entries c2"] by (auto simp: cache_inv_def hm_wf_update length_update_eq)
qed

interpretation cache_run: step_machine HandshakeCache_new cache_step "\<lambda>_. True" cache_inv
proof
  show "cache_inv HandshakeCache_new" by (simp add: cache_inv_def HandshakeCache_new_def)
next
  fix e c
  assume "cache_inv c"
  then show "cache_inv (cache_step e c)" by (cases e) (auto intro: cache_inv_insert cache_inv_cleanup)
qed

section \<open>Properties\<close>

text \<open>The cache of handshake answers never holds more than 256 entries; an answer just stored is
  returned for a retransmission of the same handshake for 60 seconds and not after, so a duplicate
  handshake 1 gets the same handshake 2.\<close>

lemma handshake_cache_serves:
  "length (hc_entries (fold cache_step es HandshakeCache_new)) \<le> 256
   \<and> HandshakeCache_get (HandshakeCache_insert c k r i now) k now' =
       (if now' - now < HANDSHAKE_CACHE_TTL then Some \<lparr>ch_response = r, ch_peer_id = i, ch_created_at = now\<rparr> else None)"
proof -
  have "cache_inv (fold cache_step es HandshakeCache_new)"
    using cache_run.inv_reachable [of es] by (simp add: list_all_iff)
  then show ?thesis
    by (simp add: cache_inv_def HANDSHAKE_CACHE_MAX_ENTRIES_def HandshakeCache_get_def HandshakeCache_insert_def
        update_conv' Let_def)
qed

end
