(* ===== verification/Handshake_Agreement.thy ===== *)
theory Handshake_Agreement
  imports Handshake
begin

text \<open>
  What the handshake of theory \<open>Handshake\<close> achieves: the sealed messages are read back as they were
  written, the two ends of an undisturbed exchange derive the same session key and each other's
  session ids, and whatever a node accepts was signed, recently and for this exchange, by the
  holder of a certificate the CA issued.
\<close>

unbundle bit_operations_syntax

section \<open>Sealing and opening\<close>

text \<open>A plaintext that is not a fragment, with the kind byte in front.\<close>

definition whole_plaintext :: "bytes \<Rightarrow> bool" where
  "whole_plaintext pt \<longleftrightarrow> pt \<noteq> [] \<and> known_kind (hd pt) \<and> hd pt \<noteq> KIND_HANDSHAKE_FRAG"

lemma seal_handshake_serialize:
  assumes "seal_handshake_with_header E nk pt dst sid w = (m, w')"
  shows "\<exists>pkt. m = serialize_packet pkt
    \<and> (blake3_sized E \<longrightarrow> aead_sized E \<longrightarrow> packet_wf pkt)
    \<and> (blake3_sized E \<longrightarrow> known_kind (kind (fst (handshake_header_and_payload pt))) \<longrightarrow>
        unmask_packet_header E pkt nk = Some ((fst (handshake_header_and_payload pt))\<lparr>dst_peer_id := dst, session_id := sid\<rparr>))
    \<and> (aead_correct E \<longrightarrow>
        aead_decrypt E nk (nonce pkt) (ciphertext pkt) (packet_aad pkt) = Some (snd (handshake_header_and_payload pt)))
    \<and> draws w w'"
proof -
  obtain h payload where hp: "handshake_header_and_payload pt = (h, payload)" by fastforce
  obtain mn w1 where 1: "fill_bytes MASK_NONCE_LEN w = (mn, w1)" by fastforce
  obtain n w2 where 2: "fill_bytes NONCE_LEN w1 = (n, w2)" by fastforce
  let ?mh = "mask_network_header E (h\<lparr>dst_peer_id := dst, session_id := sid\<rparr>) mn nk"
  let ?aad = "packet_aad \<lparr>mask_nonce = mn, masked_header = ?mh, nonce = n, ciphertext = []\<rparr>"
  let ?pkt = "\<lparr>mask_nonce = mn, masked_header = ?mh, nonce = n, ciphertext = aead_encrypt E nk n payload ?aad\<rparr>"
  have m: "m = serialize_packet ?pkt" and w': "w' = w2"
    using assms hp 1 2 by (simp_all add: seal_handshake_with_header_def serialize_packet_def Let_def)
  have "length mn = 8" "length n = 12"
    using fill_bytes_length [OF 1] fill_bytes_length [OF 2] by (simp_all add: packet_lens)
  then have "blake3_sized E \<longrightarrow> aead_sized E \<longrightarrow> packet_wf ?pkt"
    by (simp add: packet_wf_def length_mask_network_header length_aead_encrypt AEAD_TAG_LEN_def)
  moreover have "blake3_sized E \<longrightarrow> known_kind (kind h) \<longrightarrow>
      unmask_packet_header E ?pkt nk = Some (h\<lparr>dst_peer_id := dst, session_id := sid\<rparr>)"
    by (simp add: unmask_packet_header_def unmask_header_def unmask_mask_header)
  moreover have "aead_correct E \<longrightarrow> aead_decrypt E nk (nonce ?pkt) (ciphertext ?pkt) (packet_aad ?pkt) = Some payload"
    by (simp add: packet_aad_def aead_decrypt_encrypt)
  moreover have "draws w w'" unfolding w' by (rule draws_trans [OF draws_fill [OF 1] draws_fill [OF 2]])
  ultimately show ?thesis using m hp by auto
qed

lemma open_seal_whole:
  assumes "blake3_sized E" and "aead_sized E" and "aead_correct E" and "whole_plaintext pt"
    and "seal_handshake_with_header E nk pt dst sid w = (m, w')"
  shows "open_handshake E nk m = Some pt"
    and "network_header E m nk = Some \<lparr>kind = hd pt, frag_index = 0, frag_total = 0, dst_peer_id = dst, session_id = sid\<rparr>"
proof -
  obtain k r where pt: "pt = k # r" using assms(4) by (cases pt) (auto simp: whole_plaintext_def)
  with assms(4) have k: "known_kind k" "k \<noteq> KIND_HANDSHAKE_FRAG" by (auto simp: whole_plaintext_def)
  have hp: "handshake_header_and_payload pt =
      (\<lparr>kind = k, frag_index = 0, frag_total = 0, dst_peer_id = 0, session_id = 0\<rparr>, pt)"
    using k by (simp add: handshake_header_and_payload_def pt)
  obtain pkt where p: "m = serialize_packet pkt" "packet_wf pkt"
      "unmask_packet_header E pkt nk = Some \<lparr>kind = k, frag_index = 0, frag_total = 0, dst_peer_id = dst, session_id = sid\<rparr>"
      "aead_decrypt E nk (nonce pkt) (ciphertext pkt) (packet_aad pkt) = Some pt"
    using seal_handshake_serialize [OF assms(5)] assms(1-3) k by (auto simp: hp)
  then have "deserialize_packet m = Some pkt" by (simp add: deserialize_serialize)
  with p k show "open_handshake E nk m = Some pt"
    and "network_header E m nk = Some \<lparr>kind = hd pt, frag_index = 0, frag_total = 0, dst_peer_id = dst, session_id = sid\<rparr>"
    by (simp_all add: open_handshake_def network_header_deserialize pt)
qed

text \<open>A fragment: its id, index and total travel in the masked header, and come back in front of
  the payload.\<close>

definition frag_plaintext :: "u32 \<Rightarrow> u8 \<Rightarrow> u8 \<Rightarrow> bytes \<Rightarrow> bytes" where
  "frag_plaintext mid i t payload = KIND_HANDSHAKE_FRAG # u32_to_be_bytes mid @ [i, t] @ payload"

lemma frag_plaintext_nth:
  "frag_plaintext mid i t p ! 0 = KIND_HANDSHAKE_FRAG"
  "frag_plaintext mid i t p ! 5 = i" "frag_plaintext mid i t p ! 6 = t"
  "drop 7 (frag_plaintext mid i t p) = p"
  "[frag_plaintext mid i t p ! Suc 0, frag_plaintext mid i t p ! 2, frag_plaintext mid i t p ! 3,
    frag_plaintext mid i t p ! 4] = u32_to_be_bytes mid"
proof -
  have "length (u32_to_be_bytes mid) = Suc (Suc (Suc (Suc 0)))" by simp
  then obtain a b c d where l: "u32_to_be_bytes mid = [a, b, c, d]"
    by (auto simp only: length_Suc_conv length_0_conv)
  show "frag_plaintext mid i t p ! 0 = KIND_HANDSHAKE_FRAG"
    and "frag_plaintext mid i t p ! 5 = i" and "frag_plaintext mid i t p ! 6 = t"
    and "drop 7 (frag_plaintext mid i t p) = p"
    and "[frag_plaintext mid i t p ! Suc 0, frag_plaintext mid i t p ! 2, frag_plaintext mid i t p ! 3,
      frag_plaintext mid i t p ! 4] = u32_to_be_bytes mid"
    by (simp_all add: frag_plaintext_def l)
qed

lemma header_frag_plaintext:
  "handshake_header_and_payload (frag_plaintext mid i t p) =
     (\<lparr>kind = KIND_HANDSHAKE_FRAG, frag_index = i, frag_total = t, dst_peer_id = 0, session_id = mid\<rparr>, p)"
proof -
  have "7 \<le> length (frag_plaintext mid i t p)" by (simp add: frag_plaintext_def)
  then show ?thesis by (simp add: handshake_header_and_payload_def frag_plaintext_nth)
qed

lemma open_seal_frag:
  assumes "blake3_sized E" and "aead_sized E" and "aead_correct E" and "i < t"
    and "seal_handshake_to_peer E nk (frag_plaintext mid i t p) dst w = (m, w')"
  shows "open_handshake E nk m = Some (frag_plaintext mid i t p)"
    and "network_header E m nk = Some \<lparr>kind = KIND_HANDSHAKE_FRAG, frag_index = i, frag_total = t, dst_peer_id = dst, session_id = mid\<rparr>"
    and "length m = PACKET_OVERHEAD + length p" and "draws w w'"
proof -
  have "7 \<le> length (frag_plaintext mid i t p)" by (simp add: frag_plaintext_def)
  then have s: "seal_handshake_with_header E nk (frag_plaintext mid i t p) dst mid w = (m, w')"
    using assms(5) by (simp add: seal_handshake_to_peer_def frag_plaintext_nth)
  obtain pkt where p: "m = serialize_packet pkt" "packet_wf pkt" "draws w w'"
      "unmask_packet_header E pkt nk = Some \<lparr>kind = KIND_HANDSHAKE_FRAG, frag_index = i, frag_total = t, dst_peer_id = dst, session_id = mid\<rparr>"
      "aead_decrypt E nk (nonce pkt) (ciphertext pkt) (packet_aad pkt) = Some p"
    using seal_handshake_serialize [OF s] assms(1-3) by (auto simp: header_frag_plaintext)
  then have "deserialize_packet m = Some pkt" by (simp add: deserialize_serialize)
  moreover have "t \<noteq> 0" using assms(4) by auto
  ultimately show "open_handshake E nk m = Some (frag_plaintext mid i t p)"
    and "network_header E m nk = Some \<lparr>kind = KIND_HANDSHAKE_FRAG, frag_index = i, frag_total = t, dst_peer_id = dst, session_id = mid\<rparr>"
    using p assms(4) by (simp_all add: open_handshake_def network_header_deserialize frag_plaintext_def not_le [symmetric] del: not_le)
  show "draws w w'" by (rule p(3))
  show "length m = PACKET_OVERHEAD + length p"
    using s assms(1,2)
    by (auto simp: seal_handshake_with_header_def header_frag_plaintext fill_bytes_def length_mask_network_header
        length_aead_encrypt packet_lens Let_def)
qed

section \<open>Parsing what was written\<close>

definition hs1_signed :: "ext \<Rightarrow> bool \<Rightarrow> u64 \<Rightarrow> bytes \<Rightarrow> u32 \<Rightarrow> bytes \<Rightarrow> bytes \<Rightarrow> Cert \<Rightarrow> bytes" where
  "hs1_signed E relay ts rnd sid x k cert =
     [KIND_HANDSHAKE_1] @ [HANDSHAKE_VERSION] @ u16_to_be_bytes (handshake_flags relay) @ u64_to_be_bytes ts
       @ rnd @ u32_to_be_bytes sid @ x @ k @ put_vec_u32 [] (json_cert E cert)"

definition hs2_signed :: "ext \<Rightarrow> bool \<Rightarrow> u64 \<Rightarrow> bytes \<Rightarrow> u32 \<Rightarrow> bytes \<Rightarrow> bytes \<Rightarrow> bytes \<Rightarrow> Cert \<Rightarrow> bytes" where
  "hs2_signed E relay ts rnd sid x ct h cert =
     [KIND_HANDSHAKE_2] @ [HANDSHAKE_VERSION] @ u16_to_be_bytes (handshake_flags relay) @ u64_to_be_bytes ts
       @ rnd @ u32_to_be_bytes sid @ x @ ct @ h @ put_vec_u32 [] (json_cert E cert)"

lemma handshake_flags_relay: "(handshake_flags relay AND FLAG_RELAY \<noteq> 0) = relay"
  by (simp add: handshake_flags_def FLAG_RELAY_def)

lemma hrd_u8_at_single: "hrd_u8 (reader_at pre ([x] @ rest)) = Inr (x, reader_at (pre @ [x]) rest)"
  by (simp add: hrd_u8_at)

lemmas read_steps = hrd_u8_at_single hrd_u16_at hrd_u64_at hrd_u32_at hrd_bytes_at hrd_array_at hrd_vec_u32_at

lemma hlift_step: "r = Inr a \<Longrightarrow> hbind (hlift r) f w = f a w"
  by simp

lemma parse_handshake_1_written:
  assumes "length rnd = 16" "length x = 32" "length k = 1184" "length ed = 64" "length ml = 3309"
    and "json_cert_ok E cert" and "validate_timestamp ts w = (Inr (), w1)"
    and "verify_peer_cert_and_sig E cert ca (hs1_signed E relay ts rnd sid x k cert) ed ml w1 = (Inr (), w2)"
  shows "parse_handshake_1 E (hs1_signed E relay ts rnd sid x k cert @ ed @ ml @ pad) ca w =
    (Inr \<lparr>h1_cert = cert, h1_rx_session_id = sid, h1_eph_x25519_pk = x, h1_eph_mlkem_pk = k, h1_peer_is_relay = relay\<rparr>, w2)"
proof -
  let ?d = "hs1_signed E relay ts rnd sid x k cert @ ed @ ml @ pad"
  have j: "length (json_cert E cert) < 2 ^ 32" "read_cert E (json_cert E cert) = Inr cert"
    using assms(6) by (simp_all add: json_cert_ok_def read_cert_def)
  have len: "1 + 1 + 2 + 8 + 16 + 4 + 32 + MLKEM_PK_LEN + 4 + ED25519_SIG_LEN + MLDSA_SIG_LEN \<le> length ?d"
    using assms(1-5) by (simp add: hs1_signed_def put_vec_u32_def crypto_lens)
  have rd: "Reader_new ?d = reader_at [] ([KIND_HANDSHAKE_1] @ [HANDSHAKE_VERSION]
      @ u16_to_be_bytes (handshake_flags relay) @ u64_to_be_bytes ts @ rnd @ u32_to_be_bytes sid @ x @ k
      @ put_vec_u32 [] (json_cert E cert) @ ed @ ml @ pad)"
    by (simp add: Reader_new_at hs1_signed_def)
  let ?pre = "hs1_signed E relay ts rnd sid x k cert"
  have pre: "take (length ?pre) ?d = ?pre" by simp
  show ?thesis
    unfolding parse_handshake_1_def hbind_guard [OF len] rd
    using assms(1-5) j assms(7,8) pre
    by (simp only: read_steps hbind_lift prod.case hbind_guard hbind_step [of "validate_timestamp ts"]
        crypto_lens append_Nil append_assoc hs1_signed_def [symmetric] reader_at_pos Let_def
        hbind_step [of "verify_peer_cert_and_sig E cert ca ?pre ed ml"] handshake_flags_relay hlift_def)
qed

lemma parse_handshake_2_written:
  assumes "length rnd = 16" "length x = 32" "length ct = 1088" "length h = 32" "length ed = 64" "length ml = 3309"
    and "json_cert_ok E cert" and "h = blake3_hash E hs1" and "validate_timestamp ts w = (Inr (), w1)"
    and "verify_peer_cert_and_sig E cert ca (hs2_signed E relay ts rnd sid x ct h cert) ed ml w1 = (Inr (), w2)"
  shows "parse_handshake_2 E (hs2_signed E relay ts rnd sid x ct h cert @ ed @ ml @ pad) hs1 ca w =
    (Inr \<lparr>h2_cert = cert, h2_rx_session_id = sid, h2_eph_x25519_pk = x, h2_mlkem_ct = ct, h2_peer_is_relay = relay\<rparr>, w2)"
proof -
  let ?d = "hs2_signed E relay ts rnd sid x ct h cert @ ed @ ml @ pad"
  have j: "length (json_cert E cert) < 2 ^ 32" "read_cert E (json_cert E cert) = Inr cert"
    using assms(7) by (simp_all add: json_cert_ok_def read_cert_def)
  have len: "1 + 1 + 2 + 8 + 16 + 4 + 32 + MLKEM_CT_LEN + 32 + 4 + ED25519_SIG_LEN + MLDSA_SIG_LEN \<le> length ?d"
    using assms(1-6) by (simp add: hs2_signed_def put_vec_u32_def crypto_lens)
  have rd: "Reader_new ?d = reader_at [] ([KIND_HANDSHAKE_2] @ [HANDSHAKE_VERSION]
      @ u16_to_be_bytes (handshake_flags relay) @ u64_to_be_bytes ts @ rnd @ u32_to_be_bytes sid @ x @ ct @ h
      @ put_vec_u32 [] (json_cert E cert) @ ed @ ml @ pad)"
    by (simp add: Reader_new_at hs2_signed_def)
  let ?pre = "hs2_signed E relay ts rnd sid x ct h cert"
  have pre: "take (length ?pre) ?d = ?pre" by simp
  show ?thesis
    unfolding parse_handshake_2_def hbind_guard [OF len] rd
    using assms(1-6) j assms(9,10) pre
    by (simp only: read_steps hbind_lift prod.case hbind_guard hbind_guard [OF assms(8)] hbind_step [of "validate_timestamp ts"]
        crypto_lens append_Nil append_assoc hs2_signed_def [symmetric] reader_at_pos Let_def
        hbind_step [of "verify_peer_cert_and_sig E cert ca ?pre ed ml"] handshake_flags_relay hlift_def)
qed

section \<open>Identities\<close>

text \<open>A certificate the CA signed, and the key pair it names.\<close>

definition issued :: "ext \<Rightarrow> Cert \<Rightarrow> CaVerifyKey \<Rightarrow> bool" where
  "issued E cert ca \<longleftrightarrow> \<not> is_ca (meta (body cert))
     \<and> hybrid_verify E \<lparr>hvk_ed25519 = cavk_ed25519 ca, hvk_ml_dsa = cavk_ml_dsa ca\<rparr> (CertBody_to_bytes E (body cert))
         \<lparr>sig_ed25519 = csig_ed25519 (signature cert), sig_ml_dsa = csig_ml_dsa (signature cert)\<rparr>"

definition cert_vk :: "Cert \<Rightarrow> HybridVerifyKey" where
  "cert_vk cert = \<lparr>hvk_ed25519 = ed25519_pk (keys (body cert)), hvk_ml_dsa = ml_dsa_pk (keys (body cert))\<rparr>"

definition holds_key :: "ext \<Rightarrow> Cert \<Rightarrow> NodeSigningSecretKey \<Rightarrow> bool" where
  "holds_key E cert sk \<longleftrightarrow>
     cert_vk cert = hybrid_vk_of E \<lparr>hsk_ed25519 = nsk_ed25519 sk, hsk_ml_dsa_seed = nsk_ml_dsa_seed sk\<rparr>"

lemma verify_iff_issued: "fst (Cert_verify E cert ca w) \<longleftrightarrow> issued E cert ca \<and> in_validity E cert (unix w 0)"
  by (auto simp: Cert_verify_iff issued_def)

lemma issued_verify_world: "issued E cert ca \<Longrightarrow> snd (Cert_verify E cert ca w) = snd (unix_now w)"
  by (auto simp: Cert_verify_def issued_def unix_now_def Let_def)

lemma sign_node_verifies:
  assumes "signatures_correct E" and "holds_key E cert sk"
  shows "hybrid_verify E (cert_vk cert) m (sign_node E sk m)"
  using hybrid_verify_sign [OF assms(1)] assms(2) by (simp add: holds_key_def sign_node_def)

lemma sign_node_lengths:
  "signatures_correct E \<Longrightarrow> length (sig_ed25519 (sign_node E sk m)) = 64"
  "signatures_correct E \<Longrightarrow> length (sig_ml_dsa (sign_node E sk m)) = 3309"
  by (simp_all add: sign_node_def hybrid_sign_lengths)

lemma verify_peer_own:
  assumes "signatures_correct E" and "holds_key E cert sk" and "issued E cert ca" and "in_validity E cert (unix w 0)"
  shows "verify_peer_cert_and_sig E cert ca m (sig_ed25519 (sign_node E sk m)) (sig_ml_dsa (sign_node E sk m)) w
    = (Inr (), snd (unix_now w))"
  using sign_node_verifies [OF assms(1,2), of m] assms(3,4)
  by (simp add: verify_peer_iff verify_iff_issued issued_verify_world cert_vk_def)

section \<open>The two messages\<close>

lemma put_vec_hs: "put_vec_u32 out bs = out @ put_vec_u32 [] bs"
  by (rule put_vec_u32_append)

lemma ephemeral_shape:
  "\<exists>xs ks w0. generate_reusable_ephemeral E w = ((xs, x25519_public E xs, ks, mlkem_public E ks), w0) \<and> draws w w0"
  "\<exists>xs ks w0. generate_ephemeral E w = ((xs, x25519_public E xs, ks, mlkem_public E ks), w0) \<and> draws w w0"
proof -
  obtain xs w1 where 1: "fill_bytes 32 w = (xs, w1)" by fastforce
  obtain ks w2 where 2: "fill_bytes MLKEM_SK_LEN w1 = (ks, w2)" by fastforce
  have "draws w w2" by (rule draws_trans [OF draws_fill [OF 1] draws_fill [OF 2]])
  then show "\<exists>xs ks w0. generate_reusable_ephemeral E w = ((xs, x25519_public E xs, ks, mlkem_public E ks), w0) \<and> draws w w0"
    and "\<exists>xs ks w0. generate_ephemeral E w = ((xs, x25519_public E xs, ks, mlkem_public E ks), w0) \<and> draws w w0"
    using 1 2 by (simp_all add: generate_reusable_ephemeral_def generate_ephemeral_def generate_mlkem_keypair_def)
qed

text \<open>What \<open>create_handshake_1\<close> puts into its message.\<close>

lemma create_handshake_1_parts:
  assumes "create_handshake_1 E cert sk nk relay w = Some (ini, w')"
  shows "\<exists>rnd pad w1. length rnd = 16 \<and> hi_my_rx_session_id ini \<noteq> 0
    \<and> (let sm = hs1_signed E relay (unix w 0) rnd (hi_my_rx_session_id ini)
             (x25519_public E (hi_eph_x25519_sk ini)) (mlkem_public E (hi_eph_mlkem_sk ini)) cert
       in seal_handshake_with_header E nk (sm @ sig_ed25519 (sign_node E sk sm) @ sig_ml_dsa (sign_node E sk sm) @ pad)
            0 (hi_my_rx_session_id ini) w1 = (hi_msg ini, w'))"
proof -
  obtain xs ks w0 where g: "generate_reusable_ephemeral E w = ((xs, x25519_public E xs, ks, mlkem_public E ks), w0)"
    and d: "draws w w0"
    using ephemeral_shape(1) by blast
  have d0: "unix w0 = unix w" using d by (simp add: draws_def)
  from assms g obtain sid w1 where r: "random_session_id w0 = Some (sid, w1)"
    by (auto simp: create_handshake_1_def bind_eq_Some_conv)
  then have sid: "sid \<noteq> 0" and u: "unix w1 0 = unix w 0"
    using random_session_id_draws [OF r] d0 by (auto simp: draws_def)
  obtain w2 where t: "unix_time_secs w1 = (unix w 0, w2)" using u by (simp add: unix_time_secs_def unix_now_def)
  obtain rnd w3 where f: "fill_bytes 16 w2 = (rnd, w3)" by fastforce
  let ?sm = "hs1_signed E relay (unix w 0) rnd sid (x25519_public E xs) (mlkem_public E ks) cert"
  let ?p = "?sm @ sig_ed25519 (sign_node E sk ?sm) @ sig_ml_dsa (sign_node E sk ?sm)"
  obtain res w4 where p: "add_random_padding ?p w3 = (res, w4)" by fastforce
  then obtain pad where pad: "res = ?p @ pad" using add_random_padding_prefix by blast
  obtain m w5 where s: "seal_handshake_with_header E nk res 0 sid w4 = (m, w5)" by fastforce
  have sm: "put_vec_u32 ([KIND_HANDSHAKE_1, HANDSHAKE_VERSION] @ u16_to_be_bytes (handshake_flags relay)
        @ u64_to_be_bytes (unix w 0) @ rnd @ u32_to_be_bytes sid @ x25519_public E xs @ mlkem_public E ks) (json_cert E cert) = ?sm"
    by (simp add: hs1_signed_def put_vec_u32_def)
  have "ini = \<lparr>hi_msg = m, hi_eph_x25519_sk = xs, hi_eph_mlkem_sk = ks, hi_my_rx_session_id = sid\<rparr> \<and> w' = w5"
    using assms g r t f p s by (simp add: create_handshake_1_def Let_def sm del: append.simps)
  with s pad sid fill_bytes_length [OF f] show ?thesis
    by (rule_tac x = rnd in exI, rule_tac x = pad in exI, rule_tac x = w4 in exI) (simp add: Let_def)
qed

text \<open>What \<open>process_handshake_1\<close> answers once the first message parses. \<open>kem_draw\<close> is the randomness it
  encapsulates with.\<close>

definition kem_draw :: "ext \<Rightarrow> bytes \<Rightarrow> bytes \<Rightarrow> CaVerifyKey \<Rightarrow> world \<Rightarrow> bytes option" where
  "kem_draw E data nk ca w = do {
     pt \<leftarrow> open_handshake E nk data;
     let (r, w1) = parse_handshake_1 E pt ca w;
     (_, w2) \<leftarrow> random_session_id w1;
     let (_, w3) = generate_ephemeral E w2;
     Some (fst (fill_bytes 32 w3))
   }"

lemma process_handshake_1_answer:
  assumes "open_handshake E nk data = Some pt" and "parse_handshake_1 E pt ca w = (Inr hs1, w1)"
    and "rng_live w1" and "mlkem_key_ok E (h1_eph_mlkem_pk hs1)"
  shows "\<exists>resp w' xs r rnd pad w4. process_handshake_1 E data cert sk nk ca relay w = Some (Inr resp, w')
    \<and> kem_draw E data nk ca w = Some r \<and> length rnd = 16 \<and> hr_my_rx_session_id resp \<noteq> 0
    \<and> hr_peer_cert resp = h1_cert hs1 \<and> hr_peer_is_relay resp = h1_peer_is_relay hs1
    \<and> hr_peer_rx_session_id resp = h1_rx_session_id hs1
    \<and> hr_session_key resp = derive_session_v2 E
        (x25519_dh E xs (h1_eph_x25519_pk hs1) @ snd (mlkem_encapsulate E (h1_eph_mlkem_pk hs1) r)) data (hr_msg resp)
    \<and> (let sm = hs2_signed E relay (unix w1 0) rnd (hr_my_rx_session_id resp) (x25519_public E xs)
             (fst (mlkem_encapsulate E (h1_eph_mlkem_pk hs1) r)) (blake3_hash E data) cert
       in seal_handshake_with_header E nk (sm @ sig_ed25519 (sign_node E sk sm) @ sig_ml_dsa (sign_node E sk sm) @ pad)
            0 (h1_rx_session_id hs1) w4 = (hr_msg resp, w'))"
proof -
  obtain i where "rng w1 i \<noteq> 0" using assms(3) by (auto simp: rng_live_def)
  then obtain sid w2 where r: "random_session_id w1 = Some (sid, w2)" and sid: "sid \<noteq> 0"
    using random_session_id_returns by blast
  then have u2: "unix w2 = unix w1" using random_session_id_draws [OF r] by (auto simp: draws_def)
  obtain xs ks w3 where g: "generate_ephemeral E w2 = ((xs, x25519_public E xs, ks, mlkem_public E ks), w3)"
    and d3: "draws w2 w3"
    using ephemeral_shape(2) by blast
  obtain rr wr where fr: "fill_bytes 32 w3 = (rr, wr)" by fastforce
  have ur: "unix wr 0 = unix w1 0" using d3 draws_fill [OF fr] u2 by (simp add: draws_def)
  obtain wt where t: "unix_time_secs wr = (unix w1 0, wt)" using ur by (simp add: unix_time_secs_def unix_now_def)
  obtain rnd wf where f: "fill_bytes 16 wt = (rnd, wf)" by fastforce
  obtain ct ss where e: "mlkem_encapsulate E (h1_eph_mlkem_pk hs1) rr = (ct, ss)" by fastforce
  let ?sm = "hs2_signed E relay (unix w1 0) rnd sid (x25519_public E xs) ct (blake3_hash E data) cert"
  let ?p = "?sm @ sig_ed25519 (sign_node E sk ?sm) @ sig_ml_dsa (sign_node E sk ?sm)"
  obtain res w4 where p: "add_random_padding ?p wf = (res, w4)" by fastforce
  then obtain pad where pad: "res = ?p @ pad" using add_random_padding_prefix by blast
  obtain m w5 where s: "seal_handshake_with_header E nk res 0 (h1_rx_session_id hs1) w4 = (m, w5)" by fastforce
  have sm: "put_vec_u32 ([KIND_HANDSHAKE_2, HANDSHAKE_VERSION] @ u16_to_be_bytes (handshake_flags relay)
        @ u64_to_be_bytes (unix w1 0) @ rnd @ u32_to_be_bytes sid @ x25519_public E xs @ ct @ blake3_hash E data) (json_cert E cert) = ?sm"
    by (simp add: hs2_signed_def put_vec_u32_def)
  let ?resp = "\<lparr>hr_msg = m, hr_session_key = derive_session_v2 E (x25519_dh E xs (h1_eph_x25519_pk hs1) @ ss) data m,
    hr_peer_cert = h1_cert hs1, hr_peer_is_relay = h1_peer_is_relay hs1, hr_my_rx_session_id = sid,
    hr_peer_rx_session_id = h1_rx_session_id hs1\<rparr>"
  have "process_handshake_1 E data cert sk nk ca relay w = Some (Inr ?resp, w5)"
    unfolding process_handshake_1_def assms(1) assms(2) option.case prod.case sum.case
    using assms(4) r g fr e t f p s by (simp add: Let_def sm del: append.simps)
  moreover have "kem_draw E data nk ca w = Some rr"
    using assms(1,2) r g fr by (simp add: kem_draw_def)
  ultimately show ?thesis
    using s pad sid e fill_bytes_length [OF f]
    by (rule_tac x = "?resp" in exI, rule_tac x = w5 in exI, rule_tac x = xs in exI, rule_tac x = rr in exI, rule_tac x = rnd in exI, rule_tac x = pad in exI, rule_tac x = w4 in exI)
      (simp add: Let_def)
qed

lemma parse_own_handshake_1:
  assumes "blake3_sized E" "aead_sized E" "aead_correct E" "x25519_correct E" "mlkem_sized E" "signatures_correct E"
    and "json_cert_ok E cert" "issued E cert ca" "holds_key E cert sk"
    and "create_handshake_1 E cert sk nk relay wA = Some (ini, wA')"
    and "within_skew (unix wA 0) (unix w 0)" and "in_validity E cert (unix w 1)"
  shows "\<exists>pt. open_handshake E nk (hi_msg ini) = Some pt
    \<and> parse_handshake_1 E pt ca w =
        (Inr \<lparr>h1_cert = cert, h1_rx_session_id = hi_my_rx_session_id ini,
           h1_eph_x25519_pk = x25519_public E (hi_eph_x25519_sk ini),
           h1_eph_mlkem_pk = mlkem_public E (hi_eph_mlkem_sk ini), h1_peer_is_relay = relay\<rparr>,
         snd (unix_now (snd (unix_now w))))"
proof -
  let ?sid = "hi_my_rx_session_id ini" and ?x = "x25519_public E (hi_eph_x25519_sk ini)"
  let ?k = "mlkem_public E (hi_eph_mlkem_sk ini)"
  obtain rnd pad w1 where len: "length rnd = 16"
    and s: "seal_handshake_with_header E nk
      (hs1_signed E relay (unix wA 0) rnd ?sid ?x ?k cert
        @ sig_ed25519 (sign_node E sk (hs1_signed E relay (unix wA 0) rnd ?sid ?x ?k cert))
        @ sig_ml_dsa (sign_node E sk (hs1_signed E relay (unix wA 0) rnd ?sid ?x ?k cert)) @ pad) 0 ?sid w1 = (hi_msg ini, wA')"
    using create_handshake_1_parts [OF assms(10)] by (auto simp: Let_def)
  let ?sm = "hs1_signed E relay (unix wA 0) rnd ?sid ?x ?k cert"
  let ?pt = "?sm @ sig_ed25519 (sign_node E sk ?sm) @ sig_ml_dsa (sign_node E sk ?sm) @ pad"
  have "whole_plaintext ?pt" by (simp add: whole_plaintext_def hs1_signed_def) (simp add: kind_defs)
  from open_seal_whole(1) [OF assms(1-3) this s] have o: "open_handshake E nk (hi_msg ini) = Some ?pt" .
  have v: "validate_timestamp (unix wA 0) w = (Inr (), snd (unix_now w))"
    using assms(11) by (simp add: validate_timestamp_iff)
  have "unix (snd (unix_now w)) 0 = unix w 1" by (simp add: unix_now_def)
  then have c: "verify_peer_cert_and_sig E cert ca ?sm (sig_ed25519 (sign_node E sk ?sm)) (sig_ml_dsa (sign_node E sk ?sm))
      (snd (unix_now w)) = (Inr (), snd (unix_now (snd (unix_now w))))"
    using assms(12) by (intro verify_peer_own assms(6,8,9)) simp
  have "length ?x = 32" "length ?k = 1184" using assms(4,5) by (auto simp: x25519_correct_def mlkem_sized_def)
  from parse_handshake_1_written [OF len this sign_node_lengths(1) [OF assms(6)] sign_node_lengths(2) [OF assms(6)] assms(7) v c]
  show ?thesis using o by blast
qed

lemma handshake_agrees:
  assumes laws: "blake3_sized E" "aead_sized E" "aead_correct E" "x25519_correct E" "mlkem_sized E" "signatures_correct E"
    and A: "json_cert_ok E certA" "issued E certA ca" "holds_key E certA skA"
    and B: "json_cert_ok E certB" "issued E certB ca" "holds_key E certB skB"
    and create: "create_handshake_1 E certA skA nk relayA wA = Some (ini, wA')"
    and clockB: "within_skew (unix wA 0) (unix wB 0)" "in_validity E certA (unix wB 1)" and live: "rng_live wB"
    and clockA: "within_skew (unix wB 2) (unix wC 0)" "in_validity E certB (unix wC 1)"
    and kem: "\<And>r. kem_draw E (hi_msg ini) nk ca wB = Some r \<Longrightarrow> kem_agrees E (hi_eph_mlkem_sk ini) r"
  shows "\<exists>resp wB' res wC'. process_handshake_1 E (hi_msg ini) certB skB nk ca relayB wB = Some (Inr resp, wB')
    \<and> process_handshake_2 E (hr_msg resp) ini nk ca wC = (Inr res, wC')
    \<and> hres_session_key res = hr_session_key resp
    \<and> hres_my_rx_session_id res = hr_peer_rx_session_id resp \<and> hres_peer_rx_session_id res = hr_my_rx_session_id resp
    \<and> hres_peer_cert res = certB \<and> hr_peer_cert resp = certA
    \<and> hres_peer_is_relay res = relayB \<and> hr_peer_is_relay resp = relayA"
proof -
  let ?w1 = "snd (unix_now (snd (unix_now wB)))"
  let ?x = "x25519_public E (hi_eph_x25519_sk ini)" and ?k = "mlkem_public E (hi_eph_mlkem_sk ini)"
  obtain pt where o1: "open_handshake E nk (hi_msg ini) = Some pt"
    and p1: "parse_handshake_1 E pt ca wB = (Inr \<lparr>h1_cert = certA, h1_rx_session_id = hi_my_rx_session_id ini,
      h1_eph_x25519_pk = ?x, h1_eph_mlkem_pk = ?k, h1_peer_is_relay = relayA\<rparr>, ?w1)"
    using parse_own_handshake_1 [OF laws A create clockB] by blast
  have live1: "rng_live ?w1" using live by (simp add: rng_live_def unix_now_def)
  have key: "mlkem_key_ok E ?k" using laws(5) by (simp add: mlkem_sized_def)
  obtain resp wB' xs r rnd pad w4 where proc: "process_handshake_1 E (hi_msg ini) certB skB nk ca relayB wB = Some (Inr resp, wB')"
    and draw: "kem_draw E (hi_msg ini) nk ca wB = Some r" and len: "length rnd = 16"
    and resp: "hr_peer_cert resp = certA" "hr_peer_is_relay resp = relayA" "hr_peer_rx_session_id resp = hi_my_rx_session_id ini"
      "hr_session_key resp = derive_session_v2 E (x25519_dh E xs ?x @ snd (mlkem_encapsulate E ?k r)) (hi_msg ini) (hr_msg resp)"
    and s: "let sm = hs2_signed E relayB (unix ?w1 0) rnd (hr_my_rx_session_id resp) (x25519_public E xs)
             (fst (mlkem_encapsulate E ?k r)) (blake3_hash E (hi_msg ini)) certB
       in seal_handshake_with_header E nk (sm @ sig_ed25519 (sign_node E skB sm) @ sig_ml_dsa (sign_node E skB sm) @ pad)
            0 (hi_my_rx_session_id ini) w4 = (hr_msg resp, wB')"
    using process_handshake_1_answer [OF o1 p1 live1, of certB skB relayB] key by auto
  let ?ct = "fst (mlkem_encapsulate E ?k r)"
  define sm where "sm = hs2_signed E relayB (unix wB 2) rnd (hr_my_rx_session_id resp) (x25519_public E xs) ?ct
    (blake3_hash E (hi_msg ini)) certB"
  have "unix ?w1 0 = unix wB 2" by (simp add: unix_now_def numeral_2_eq_2)
  with s have s': "seal_handshake_with_header E nk (sm @ sig_ed25519 (sign_node E skB sm) @ sig_ml_dsa (sign_node E skB sm) @ pad)
      0 (hi_my_rx_session_id ini) w4 = (hr_msg resp, wB')"
    by (simp add: sm_def Let_def)
  have "whole_plaintext (sm @ sig_ed25519 (sign_node E skB sm) @ sig_ml_dsa (sign_node E skB sm) @ pad)"
    by (simp add: whole_plaintext_def sm_def hs2_signed_def) (simp add: kind_defs)
  from open_seal_whole(1) [OF laws(1-3) this s']
  have o2: "open_handshake E nk (hr_msg resp) = Some (sm @ sig_ed25519 (sign_node E skB sm) @ sig_ml_dsa (sign_node E skB sm) @ pad)" .
  have v: "validate_timestamp (unix wB 2) wC = (Inr (), snd (unix_now wC))"
    using clockA(1) by (simp add: validate_timestamp_iff)
  have c: "verify_peer_cert_and_sig E certB ca sm (sig_ed25519 (sign_node E skB sm)) (sig_ml_dsa (sign_node E skB sm))
      (snd (unix_now wC)) = (Inr (), snd (unix_now (snd (unix_now wC))))"
    using clockA(2) by (intro verify_peer_own laws(6) B(2,3)) (simp add: unix_now_def)
  have lens: "length (x25519_public E xs) = 32" "length ?ct = 1088" "length (blake3_hash E (hi_msg ini)) = 32"
    using laws by (auto simp: x25519_correct_def mlkem_sized_def blake3_sized_def)
  have p2: "parse_handshake_2 E (sm @ sig_ed25519 (sign_node E skB sm) @ sig_ml_dsa (sign_node E skB sm) @ pad) (hi_msg ini) ca wC
    = (Inr \<lparr>h2_cert = certB, h2_rx_session_id = hr_my_rx_session_id resp, h2_eph_x25519_pk = x25519_public E xs,
        h2_mlkem_ct = ?ct, h2_peer_is_relay = relayB\<rparr>, snd (unix_now (snd (unix_now wC))))"
    unfolding sm_def
    by (rule parse_handshake_2_written [OF len lens sign_node_lengths(1) [OF laws(6)] sign_node_lengths(2) [OF laws(6)] B(1) refl v])
      (use c in \<open>simp only: sm_def\<close>)
  have "mlkem_ct_ok E ?ct" using laws(5) lens(2) by (simp add: mlkem_sized_def)
  moreover have "mlkem_decapsulate E (hi_eph_mlkem_sk ini) ?ct = snd (mlkem_encapsulate E ?k r)"
    using kem [OF draw] by (auto simp: kem_agrees_def split: prod.splits)
  moreover have "x25519_dh E (hi_eph_x25519_sk ini) (x25519_public E xs) = x25519_dh E xs ?x"
    using laws(4) by (simp add: x25519_correct_def)
  ultimately show ?thesis
    using proc resp by (simp add: process_handshake_2_def o2 p2)
qed

section \<open>What an accepted message contains\<close>

lemma hrd_bytes_at_iff:
  "hrd_bytes n (reader_at pre rest) = Inr (bs, rd') \<longleftrightarrow>
     (\<exists>rest'. rest = bs @ rest' \<and> length bs = n \<and> rd' = reader_at (pre @ bs) rest')"
proof
  assume "hrd_bytes n (reader_at pre rest) = Inr (bs, rd')"
  then have n: "n \<le> length rest" and bs: "bs = take n rest" and rd': "rd' = \<lparr>rd_data = pre @ rest, rd_pos = length pre + n\<rparr>"
    by (auto simp: hrd_bytes_def reader_at_def split: if_splits)
  have "rest = bs @ drop n rest" "length bs = n" using n bs by simp_all
  moreover from this have "rd' = reader_at (pre @ bs) (drop n rest)" by (simp add: rd' reader_at_def)
  ultimately show "\<exists>rest'. rest = bs @ rest' \<and> length bs = n \<and> rd' = reader_at (pre @ bs) rest'" by blast
qed (auto simp: hrd_bytes_at)

lemma hrd_array_at_iff:
  "hrd_array n (reader_at pre rest) = Inr (bs, rd') \<longleftrightarrow>
     (\<exists>rest'. rest = bs @ rest' \<and> length bs = n \<and> rd' = reader_at (pre @ bs) rest')"
  by (simp add: hrd_array_def hrd_bytes_at_iff)

lemma hrd_u8_at_iff:
  "hrd_u8 (reader_at pre rest) = Inr (x, rd') \<longleftrightarrow> (\<exists>rest'. rest = [x] @ rest' \<and> rd' = reader_at (pre @ [x]) rest')"
proof
  assume "hrd_u8 (reader_at pre rest) = Inr (x, rd')"
  then obtain bs where b: "hrd_bytes 1 (reader_at pre rest) = Inr (bs, rd')" "x = bs ! 0"
    by (auto simp: hrd_u8_def rbind_eq_Inr)
  then have "length bs = 1" by (auto simp: hrd_bytes_at_iff)
  with b(2) have "bs = [x]" by (cases bs) simp_all
  with b(1) show "\<exists>rest'. rest = [x] @ rest' \<and> rd' = reader_at (pre @ [x]) rest'" by (simp only: hrd_bytes_at_iff) auto
qed (auto simp: hrd_u8_at)

lemma hrd_u32_at_iff:
  "hrd_u32 (reader_at pre rest) = Inr (v, rd') \<longleftrightarrow>
     (\<exists>rest'. rest = u32_to_be_bytes v @ rest' \<and> rd' = reader_at (pre @ u32_to_be_bytes v) rest')"
proof
  assume "hrd_u32 (reader_at pre rest) = Inr (v, rd')"
  then show "\<exists>rest'. rest = u32_to_be_bytes v @ rest' \<and> rd' = reader_at (pre @ u32_to_be_bytes v) rest'"
    by (auto simp: hrd_u32_def rbind_eq_Inr hrd_array_at_iff u32_to_from_be)
qed (auto simp: hrd_u32_at)

lemma hrd_u64_at_iff:
  "hrd_u64 (reader_at pre rest) = Inr (v, rd') \<longleftrightarrow>
     (\<exists>rest'. rest = u64_to_be_bytes v @ rest' \<and> rd' = reader_at (pre @ u64_to_be_bytes v) rest')"
proof
  assume "hrd_u64 (reader_at pre rest) = Inr (v, rd')"
  then show "\<exists>rest'. rest = u64_to_be_bytes v @ rest' \<and> rd' = reader_at (pre @ u64_to_be_bytes v) rest'"
    by (auto simp: hrd_u64_def rbind_eq_Inr hrd_array_at_iff u64_to_from_be)
qed (auto simp: hrd_u64_at)

lemma u16_to_from_be: "length bs = 2 \<Longrightarrow> u16_to_be_bytes (u16_from_be_bytes bs) = bs"
  using be_value_less [of bs]
  by (simp add: u16_from_be_bytes_def u16_to_be_bytes_def unat_of_nat be_bytes_be_value)

lemma hrd_u16_at_iff:
  "hrd_u16 (reader_at pre rest) = Inr (v, rd') \<longleftrightarrow>
     (\<exists>rest'. rest = u16_to_be_bytes v @ rest' \<and> rd' = reader_at (pre @ u16_to_be_bytes v) rest')"
proof
  assume "hrd_u16 (reader_at pre rest) = Inr (v, rd')"
  then show "\<exists>rest'. rest = u16_to_be_bytes v @ rest' \<and> rd' = reader_at (pre @ u16_to_be_bytes v) rest'"
    by (auto simp: hrd_u16_def rbind_eq_Inr hrd_array_at_iff u16_to_from_be)
qed (auto simp: hrd_u16_at)

lemma hrd_vec_u32_at_iff:
  "hrd_vec_u32 (reader_at pre rest) = Inr (bs, rd') \<longleftrightarrow>
     (\<exists>rest'. rest = put_vec_u32 [] bs @ rest' \<and> length bs < 2 ^ 32 \<and> rd' = reader_at (pre @ put_vec_u32 [] bs) rest')"
proof
  assume "hrd_vec_u32 (reader_at pre rest) = Inr (bs, rd')"
  then obtain n rest' where r: "rest = u32_to_be_bytes n @ bs @ rest'" "length bs = unat n"
    "rd' = reader_at (pre @ u32_to_be_bytes n @ bs) rest'"
    by (auto simp: hrd_vec_u32_def rbind_eq_Inr hrd_u32_at_iff hrd_bytes_at_iff)
  have "length bs < 2 ^ 32" using r(2) unsigned_less [of n, where ?'a = nat] by simp
  moreover have "put_vec_u32 [] bs = u32_to_be_bytes n @ bs" using r(2) by (simp add: put_vec_u32_def)
  ultimately show "\<exists>rest'. rest = put_vec_u32 [] bs @ rest' \<and> length bs < 2 ^ 32 \<and> rd' = reader_at (pre @ put_vec_u32 [] bs) rest'"
    using r by simp
qed (auto simp: hrd_vec_u32_at)

lemmas read_inversion = hrd_bytes_at_iff hrd_array_at_iff hrd_u8_at_iff hrd_u16_at_iff hrd_u32_at_iff
  hrd_u64_at_iff hrd_vec_u32_at_iff

lemma hread_E:
  assumes "hbind (hlift (r :: hs_error + 'a \<times> reader)) (\<lambda>(v, rd). f v rd) w = (Inr x, w')"
  obtains v rd where "r = Inr (v, rd)" "f v rd w = (Inr x, w')"
  using assms by (auto simp: hbind_Inr_iff)

lemma hguard_E:
  assumes "hbind (hguard c e) f w = (Inr x, w')"
  obtains "c" "f () w = (Inr x, w')"
  using assms by (auto simp: hbind_Inr_iff)

text \<open>The authenticated part of a message that a node accepts at world \<open>w\<close>: it is fresh, and the
  holder of the certified key signed it.\<close>

definition authentic :: "ext \<Rightarrow> Cert \<Rightarrow> CaVerifyKey \<Rightarrow> u64 \<Rightarrow> bytes \<Rightarrow> HybridSignature \<Rightarrow> world \<Rightarrow> bool" where
  "authentic E cert ca ts sm sig w \<longleftrightarrow>
     within_skew ts (unix w 0) \<and> issued E cert ca \<and> in_validity E cert (unix w 1) \<and> hybrid_verify E (cert_vk cert) sm sig"

definition hs_fields :: "u8 \<Rightarrow> u16 \<Rightarrow> u64 \<Rightarrow> bytes \<Rightarrow> u32 \<Rightarrow> bytes \<Rightarrow> bytes \<Rightarrow> bytes \<Rightarrow> bytes" where
  "hs_fields k flags ts rnd sid x kem cb =
     [k] @ [HANDSHAKE_VERSION] @ u16_to_be_bytes flags @ u64_to_be_bytes ts @ rnd @ u32_to_be_bytes sid @ x @ kem
       @ put_vec_u32 [] cb"

lemma validate_then_verify:
  assumes "validate_timestamp ts w = (Inr u, w1)" and "verify_peer_cert_and_sig E cert ca sm ed ml w1 = (Inr u', w2)"
  shows "authentic E cert ca ts sm \<lparr>sig_ed25519 = ed, sig_ml_dsa = ml\<rparr> w"
proof -
  have "within_skew ts (unix w 0)" and w1: "w1 = snd (unix_now w)"
    using assms(1) validate_timestamp_iff [of ts w w1] by auto
  moreover have "unix w1 0 = unix w 1" by (simp add: w1 unix_now_def)
  ultimately show ?thesis
    using assms(2) verify_peer_iff [of E cert ca sm ed ml w1 w2]
    by (auto simp: authentic_def verify_iff_issued cert_vk_def)
qed

lemma hs_fields_append:
  "[k] @ [HANDSHAKE_VERSION] @ u16_to_be_bytes flags @ u64_to_be_bytes ts @ rnd @ u32_to_be_bytes sid @ x @ kem
     @ put_vec_u32 [] cb @ r = hs_fields k flags ts rnd sid x kem cb @ r"
  by (simp add: hs_fields_def)

lemma hs_fields_append2:
  "[k] @ [HANDSHAKE_VERSION] @ u16_to_be_bytes flags @ u64_to_be_bytes ts @ rnd @ u32_to_be_bytes sid @ x @ kem @ h
     @ put_vec_u32 [] cb @ r = hs_fields k flags ts rnd sid x (kem @ h) cb @ r"
  "[k] @ [HANDSHAKE_VERSION] @ u16_to_be_bytes flags @ u64_to_be_bytes ts @ rnd @ u32_to_be_bytes sid @ x @ kem @ h
     @ put_vec_u32 [] cb = hs_fields k flags ts rnd sid x (kem @ h) cb"
  by (simp_all add: hs_fields_def)

lemma take_length_app: "take (length xs) (xs @ ys) = xs"
  by simp

lemmas parse_inversion = hbind_Inr_iff hlift_Inr_iff hguard_Inr_iff read_inversion split_paired_Ex prod.case
  reader_at_pos append_Nil append_assoc

lemma parse_handshake_1_shape:
  assumes "parse_handshake_1 E data ca w = (Inr hs, w')"
  obtains flags ts rnd sid x k cb cert ed ml rest u u' w1
  where "data = hs_fields KIND_HANDSHAKE_1 flags ts rnd sid x k cb @ ed @ ml @ rest"
    and "validate_timestamp ts w = (Inr u, w1)" and "read_cert E cb = Inr cert"
    and "verify_peer_cert_and_sig E cert ca (hs_fields KIND_HANDSHAKE_1 flags ts rnd sid x k cb) ed ml w1 = (Inr u', w')"
    and "hs = \<lparr>h1_cert = cert, h1_rx_session_id = sid, h1_eph_x25519_pk = x, h1_eph_mlkem_pk = k,
      h1_peer_is_relay = (flags AND FLAG_RELAY \<noteq> 0)\<rparr>"
    and "length rnd = 16" "length x = 32" "length k = MLKEM_PK_LEN" "length ed = ED25519_SIG_LEN" "length ml = MLDSA_SIG_LEN"
  using assms
  by (simp only: parse_handshake_1_def Reader_new_at parse_inversion Let_def)
    (clarsimp simp only: parse_inversion, simp only: hs_fields_append hs_fields_def [symmetric] take_length_app)

lemma parse_handshake_2_shape:
  assumes "parse_handshake_2 E data hs1 ca w = (Inr hs, w')"
  obtains flags ts rnd sid x ct cb cert ed ml rest u u' w1
  where "data = hs_fields KIND_HANDSHAKE_2 flags ts rnd sid x (ct @ blake3_hash E hs1) cb @ ed @ ml @ rest"
    and "validate_timestamp ts w = (Inr u, w1)" and "read_cert E cb = Inr cert"
    and "verify_peer_cert_and_sig E cert ca (hs_fields KIND_HANDSHAKE_2 flags ts rnd sid x (ct @ blake3_hash E hs1) cb) ed ml w1 = (Inr u', w')"
    and "hs = \<lparr>h2_cert = cert, h2_rx_session_id = sid, h2_eph_x25519_pk = x, h2_mlkem_ct = ct,
      h2_peer_is_relay = (flags AND FLAG_RELAY \<noteq> 0)\<rparr>"
    and "length rnd = 16" "length x = 32" "length ct = MLKEM_CT_LEN" "length ed = ED25519_SIG_LEN" "length ml = MLDSA_SIG_LEN"
  using assms
  by (simp only: parse_handshake_2_def Reader_new_at parse_inversion Let_def)
    (clarsimp simp only: parse_inversion, simp only: hs_fields_append2 take_length_app)

text \<open>Acceptance by either side, in terms of the message that arrived.\<close>

lemma process_handshake_1_accepts:
  assumes "process_handshake_1 E data cert sk nk ca relay w = Some (Inr resp, w')"
  shows "\<exists>flags ts rnd x k cb ed ml rest.
    open_handshake E nk data = Some (hs_fields KIND_HANDSHAKE_1 flags ts rnd (hr_peer_rx_session_id resp) x k cb @ ed @ ml @ rest)
    \<and> json_parse_cert E cb = Some (hr_peer_cert resp)
    \<and> authentic E (hr_peer_cert resp) ca ts (hs_fields KIND_HANDSHAKE_1 flags ts rnd (hr_peer_rx_session_id resp) x k cb)
        \<lparr>sig_ed25519 = ed, sig_ml_dsa = ml\<rparr> w
    \<and> (hr_peer_is_relay resp \<longleftrightarrow> flags AND FLAG_RELAY \<noteq> 0) \<and> hr_my_rx_session_id resp \<noteq> 0"
proof -
  obtain pt where o: "open_handshake E nk data = Some pt"
    using assms by (auto simp: process_handshake_1_def split: option.splits)
  obtain hs w1 where p: "parse_handshake_1 E pt ca w = (Inr hs, w1)"
    using assms o by (auto simp: process_handshake_1_def split: prod.splits sum.splits)
  obtain sid w2 where r: "random_session_id w1 = Some (sid, w2)"
    using assms o p by (auto simp: process_handshake_1_def bind_eq_Some_conv)
  have resp: "hr_peer_cert resp = h1_cert hs" "hr_peer_rx_session_id resp = h1_rx_session_id hs"
    "hr_peer_is_relay resp = h1_peer_is_relay hs" "hr_my_rx_session_id resp = sid"
    using assms o p r by (auto simp: process_handshake_1_def Let_def split: if_splits prod.splits)
  have sid: "sid \<noteq> 0" using random_session_id_draws [OF r] by simp
  show ?thesis
  proof (rule parse_handshake_1_shape [OF p])
    fix flags ts rnd s x k cb c ed ml rest u u' w1'
    assume a: "pt = hs_fields KIND_HANDSHAKE_1 flags ts rnd s x k cb @ ed @ ml @ rest"
      "validate_timestamp ts w = (Inr u, w1')" "read_cert E cb = Inr c"
      "verify_peer_cert_and_sig E c ca (hs_fields KIND_HANDSHAKE_1 flags ts rnd s x k cb) ed ml w1' = (Inr u', w1)"
      "hs = \<lparr>h1_cert = c, h1_rx_session_id = s, h1_eph_x25519_pk = x, h1_eph_mlkem_pk = k,
        h1_peer_is_relay = (flags AND FLAG_RELAY \<noteq> 0)\<rparr>"
    have "json_parse_cert E cb = Some c" using a(3) by (auto simp: read_cert_def split: option.splits)
    with o resp sid a(1,5) validate_then_verify [OF a(2,4)] show ?thesis
      by (rule_tac x = flags in exI, rule_tac x = ts in exI, rule_tac x = rnd in exI, rule_tac x = x in exI, rule_tac x = k in exI, rule_tac x = cb in exI, rule_tac x = ed in exI, rule_tac x = ml in exI, rule_tac x = rest in exI) simp
  qed
qed

lemma process_handshake_2_accepts:
  assumes "process_handshake_2 E data ini nk ca w = (Inr res, w')"
  shows "\<exists>flags ts rnd ct cb ed ml rest.
    let sm = hs_fields KIND_HANDSHAKE_2 flags ts rnd (hres_peer_rx_session_id res) (hres_peer_eph_x25519 res)
      (ct @ blake3_hash E (hi_msg ini)) cb
    in open_handshake E nk data = Some (sm @ ed @ ml @ rest)
      \<and> json_parse_cert E cb = Some (hres_peer_cert res)
      \<and> authentic E (hres_peer_cert res) ca ts sm \<lparr>sig_ed25519 = ed, sig_ml_dsa = ml\<rparr> w
      \<and> hres_my_rx_session_id res = hi_my_rx_session_id ini
      \<and> hres_session_key res = derive_session_v2 E
          (x25519_dh E (hi_eph_x25519_sk ini) (hres_peer_eph_x25519 res) @ mlkem_decapsulate E (hi_eph_mlkem_sk ini) ct)
          (hi_msg ini) data"
proof -
  obtain pt where o: "open_handshake E nk data = Some pt"
    using assms by (auto simp: process_handshake_2_def split: option.splits)
  obtain hs w1 where p: "parse_handshake_2 E pt (hi_msg ini) ca w = (Inr hs, w1)"
    using assms o by (auto simp: process_handshake_2_def split: prod.splits sum.splits)
  show ?thesis
  proof (rule parse_handshake_2_shape [OF p])
    fix flags ts rnd s x ct cb c ed ml rest u u' w1'
    assume a: "pt = hs_fields KIND_HANDSHAKE_2 flags ts rnd s x (ct @ blake3_hash E (hi_msg ini)) cb @ ed @ ml @ rest"
      "validate_timestamp ts w = (Inr u, w1')" "read_cert E cb = Inr c"
      "verify_peer_cert_and_sig E c ca (hs_fields KIND_HANDSHAKE_2 flags ts rnd s x (ct @ blake3_hash E (hi_msg ini)) cb) ed ml w1' = (Inr u', w1)"
      "hs = \<lparr>h2_cert = c, h2_rx_session_id = s, h2_eph_x25519_pk = x, h2_mlkem_ct = ct,
        h2_peer_is_relay = (flags AND FLAG_RELAY \<noteq> 0)\<rparr>"
    have "json_parse_cert E cb = Some c" using a(3) by (auto simp: read_cert_def split: option.splits)
    moreover have "res = \<lparr>hres_peer_cert = c,
        hres_session_key = derive_session_v2 E (x25519_dh E (hi_eph_x25519_sk ini) x @ mlkem_decapsulate E (hi_eph_mlkem_sk ini) ct) (hi_msg ini) data,
        hres_peer_eph_x25519 = x, hres_peer_is_relay = (flags AND FLAG_RELAY \<noteq> 0),
        hres_my_rx_session_id = hi_my_rx_session_id ini, hres_peer_rx_session_id = s\<rparr>"
      using assms o p a(5) by (auto simp: process_handshake_2_def Let_def split: if_splits)
    ultimately show ?thesis
      using o a(1) validate_then_verify [OF a(2,4)]
      by (rule_tac x = flags in exI, rule_tac x = ts in exI, rule_tac x = rnd in exI, rule_tac x = ct in exI, rule_tac x = cb in exI, rule_tac x = ed in exI, rule_tac x = ml in exI, rule_tac x = rest in exI) simp
  qed
qed

section \<open>Returning\<close>

lemma random_session_id_nonzero_byte:
  assumes "random_session_id w = Some y"
  shows "\<exists>i. rng w i \<noteq> 0"
proof (rule random_session_id.raw_induct [OF _ assms])
  fix f w and y :: "u32 \<times> world"
  assume IH: "\<And>w y. f w = Some y \<Longrightarrow> \<exists>i. rng w i \<noteq> 0"
    and y: "(let (i, w') = random_u32 w in if i \<noteq> 0 then Some (i, w') else f w') = Some y"
  obtain v w1 where r: "random_u32 w = (v, w1)" by fastforce
  then have w1: "w1 = snd (fill_bytes 4 w)" and v: "v = u32_from_be_bytes (map (rng w) [0..<4])"
    by (auto simp: random_u32_def fill_bytes_def)
  show "\<exists>i. rng w i \<noteq> 0"
  proof (cases "v = 0")
    case True
    with y r IH [of w1 y] obtain i where "rng w1 i \<noteq> 0" by auto
    then show ?thesis using w1 by (auto simp: fill_bytes_def)
  next
    case False
    have "u32_from_be_bytes (replicate 4 0) = 0" by code_simp
    then have "map (rng w) [0..<4] \<noteq> replicate 4 0" using False v by metis
    then show ?thesis by (auto simp: list_eq_iff_nth_eq)
  qed
qed

lemma create_handshake_1_returns:
  assumes "rng_live w"
  shows "\<exists>ini w'. create_handshake_1 E cert sk nk relay w = Some (ini, w')"
proof -
  obtain xs ks w0 where g: "generate_reusable_ephemeral E w = ((xs, x25519_public E xs, ks, mlkem_public E ks), w0)"
    and d: "draws w w0" using ephemeral_shape(1) by blast
  then have "rng_live w0" using assms by (simp add: draws_def)
  then obtain i where "rng w0 i \<noteq> 0" by (auto simp: rng_live_def)
  then obtain sid w1 where "random_session_id w0 = Some (sid, w1)" using random_session_id_returns by blast
  with g show ?thesis by (simp add: create_handshake_1_def Let_def split: prod.splits)
qed

section \<open>Properties\<close>

text \<open>C7. An undisturbed handshake succeeds and agrees. If both nodes hold certificates of the same
  CA, valid when the other end checks them, their clocks differ by at most 300 seconds, the
  responder's generator is alive and the one ML-KEM encapsulation it makes is decapsulated
  correctly, then the responder answers, the initiator accepts the answer, both hold the same
  session key, each knows the session id the other listens on, and each has the other's certificate
  and relay flag.\<close>

theorem handshake_agreement:
  assumes "blake3_sized E" "aead_sized E" "aead_correct E" "x25519_correct E" "mlkem_sized E" "signatures_correct E"
    and "json_cert_ok E certA" "issued E certA ca" "holds_key E certA skA"
    and "json_cert_ok E certB" "issued E certB ca" "holds_key E certB skB"
    and "create_handshake_1 E certA skA nk relayA wA = Some (ini, wA')"
    and "within_skew (unix wA 0) (unix wB 0)" "in_validity E certA (unix wB 1)" "rng_live wB"
    and "within_skew (unix wB 2) (unix wC 0)" "in_validity E certB (unix wC 1)"
    and "\<And>r. kem_draw E (hi_msg ini) nk ca wB = Some r \<Longrightarrow> kem_agrees E (hi_eph_mlkem_sk ini) r"
  shows "\<exists>resp wB' res wC'. process_handshake_1 E (hi_msg ini) certB skB nk ca relayB wB = Some (Inr resp, wB')
    \<and> process_handshake_2 E (hr_msg resp) ini nk ca wC = (Inr res, wC')
    \<and> hres_session_key res = hr_session_key resp
    \<and> hres_my_rx_session_id res = hr_peer_rx_session_id resp \<and> hres_peer_rx_session_id res = hr_my_rx_session_id resp
    \<and> hres_peer_cert res = certB \<and> hr_peer_cert resp = certA
    \<and> hres_peer_is_relay res = relayB \<and> hr_peer_is_relay resp = relayA"
  using assms by (rule handshake_agrees)

definition demo_ca :: CaVerifyKey where
  "demo_ca = \<lparr>cavk_ed25519 = [9], cavk_ml_dsa = [9]\<rparr>"

definition demo_sk :: NodeSigningSecretKey where
  "demo_sk = \<lparr>nsk_ed25519 = [2], nsk_ml_dsa_seed = [2]\<rparr>"

lemma demo_identity: "issued demo_ext demo_cert demo_ca" "holds_key demo_ext demo_cert demo_sk"
  by (simp_all add: issued_def holds_key_def cert_vk_def hybrid_vk_of_def hybrid_verify_def demo_ext_def
      demo_cert_def demo_body_def demo_ca_def demo_sk_def)

lemma demo_validity: "in_validity demo_ext demo_cert (unix demo_world i)" "within_skew (unix demo_world i) (unix demo_world j)"
  by (simp_all add: in_validity_def within_skew_def demo_ext_def demo_cert_def demo_body_def demo_world_def)

theorem handshake_agreement_witness:
  "\<exists>ini wA' resp wB' res wC'. create_handshake_1 demo_ext demo_cert demo_sk [1] True demo_world = Some (ini, wA')
    \<and> process_handshake_1 demo_ext (hi_msg ini) demo_cert demo_sk [1] demo_ca False demo_world = Some (Inr resp, wB')
    \<and> process_handshake_2 demo_ext (hr_msg resp) ini [1] demo_ca demo_world = (Inr res, wC')
    \<and> hres_session_key res = hr_session_key resp"
proof -
  obtain ini wA' where "create_handshake_1 demo_ext demo_cert demo_sk [1] True demo_world = Some (ini, wA')"
    using create_handshake_1_returns [OF demo_rng] by blast
  moreover from handshake_agreement [OF demo_blake3 demo_aead(2) demo_aead(1) demo_x25519 demo_mlkem(1) demo_signatures
      demo_json(1) demo_identity demo_json(1) demo_identity this demo_validity(2) demo_validity(1) demo_rng
      demo_validity(2) demo_validity(1) demo_mlkem(2), of False]
  obtain resp wB' res wC' where "process_handshake_1 demo_ext (hi_msg ini) demo_cert demo_sk [1] demo_ca False demo_world = Some (Inr resp, wB')"
    "process_handshake_2 demo_ext (hr_msg resp) ini [1] demo_ca demo_world = (Inr res, wC')"
    "hres_session_key res = hr_session_key resp" by blast
  ultimately show ?thesis by blast
qed

text \<open>C8. A responder accepts only authenticated, fresh messages. Whenever \<open>process_handshake_1\<close>
  succeeds, the datagram opens under the network key to a version-2 handshake 1 whose signed part,
  carrying the session id and both ephemeral keys, is validly signed with both schemes by the key
  of a certificate that the CA issued (not a CA certificate) and that is valid now, and whose
  timestamp is within 300 seconds of the clock; the response carries that certificate and id.\<close>

theorem process_handshake_1_authentic:
  assumes "process_handshake_1 E data cert sk nk ca relay w = Some (Inr resp, w')"
  shows "\<exists>flags ts rnd x k cb ed ml rest.
    open_handshake E nk data = Some (hs_fields KIND_HANDSHAKE_1 flags ts rnd (hr_peer_rx_session_id resp) x k cb @ ed @ ml @ rest)
    \<and> json_parse_cert E cb = Some (hr_peer_cert resp)
    \<and> authentic E (hr_peer_cert resp) ca ts (hs_fields KIND_HANDSHAKE_1 flags ts rnd (hr_peer_rx_session_id resp) x k cb)
        \<lparr>sig_ed25519 = ed, sig_ml_dsa = ml\<rparr> w
    \<and> (hr_peer_is_relay resp \<longleftrightarrow> flags AND FLAG_RELAY \<noteq> 0) \<and> hr_my_rx_session_id resp \<noteq> 0"
  using assms by (rule process_handshake_1_accepts)

lemma demo_exchange:
  "\<exists>ini resp wB' res wC'. process_handshake_1 demo_ext (hi_msg ini) demo_cert demo_sk [1] demo_ca False demo_world = Some (Inr resp, wB')
    \<and> process_handshake_2 demo_ext (hr_msg resp) ini [1] demo_ca demo_world = (Inr res, wC')"
proof -
  obtain ini wA' where "create_handshake_1 demo_ext demo_cert demo_sk [1] True demo_world = Some (ini, wA')"
    using create_handshake_1_returns [OF demo_rng] by blast
  from handshake_agrees [OF demo_blake3 demo_aead(2) demo_aead(1) demo_x25519 demo_mlkem(1) demo_signatures
      demo_json(1) demo_identity demo_json(1) demo_identity this demo_validity(2) demo_validity(1) demo_rng
      demo_validity(2) demo_validity(1) demo_mlkem(2), of False]
  show ?thesis by blast
qed

theorem process_handshake_1_authentic_witness:
  "\<exists>data resp w'. process_handshake_1 demo_ext data demo_cert demo_sk [1] demo_ca False demo_world = Some (Inr resp, w')
    \<and> issued demo_ext (hr_peer_cert resp) demo_ca \<and> hr_my_rx_session_id resp \<noteq> 0"
proof -
  obtain data resp w' where "process_handshake_1 demo_ext data demo_cert demo_sk [1] demo_ca False demo_world = Some (Inr resp, w')"
    using demo_exchange by blast
  with process_handshake_1_authentic [OF this] show ?thesis unfolding authentic_def by blast
qed

text \<open>C9. An initiator accepts only an authenticated, fresh answer to its own message: when
  \<open>process_handshake_2\<close> succeeds, the signed part of the answer contains the hash of the very
  handshake 1 this node sent, it is validly signed by the key of a currently valid certificate of
  the CA, and the session key is derived from the node's own ephemeral secrets, the signed
  ephemeral key and ciphertext, and both messages.\<close>

theorem process_handshake_2_authentic:
  assumes "process_handshake_2 E data ini nk ca w = (Inr res, w')"
  shows "\<exists>flags ts rnd ct cb ed ml rest.
    let sm = hs_fields KIND_HANDSHAKE_2 flags ts rnd (hres_peer_rx_session_id res) (hres_peer_eph_x25519 res)
      (ct @ blake3_hash E (hi_msg ini)) cb
    in open_handshake E nk data = Some (sm @ ed @ ml @ rest)
      \<and> json_parse_cert E cb = Some (hres_peer_cert res)
      \<and> authentic E (hres_peer_cert res) ca ts sm \<lparr>sig_ed25519 = ed, sig_ml_dsa = ml\<rparr> w
      \<and> hres_my_rx_session_id res = hi_my_rx_session_id ini
      \<and> hres_session_key res = derive_session_v2 E
          (x25519_dh E (hi_eph_x25519_sk ini) (hres_peer_eph_x25519 res) @ mlkem_decapsulate E (hi_eph_mlkem_sk ini) ct)
          (hi_msg ini) data"
  using assms by (rule process_handshake_2_accepts)

theorem process_handshake_2_authentic_witness:
  "\<exists>ini data res w'. process_handshake_2 demo_ext data ini [1] demo_ca demo_world = (Inr res, w')
    \<and> issued demo_ext (hres_peer_cert res) demo_ca"
proof -
  obtain ini data res w' where "process_handshake_2 demo_ext data ini [1] demo_ca demo_world = (Inr res, w')"
    using demo_exchange by blast
  with process_handshake_2_authentic [OF this] show ?thesis unfolding authentic_def Let_def by blast
qed

text \<open>The rejection loop of \<open>random_session_id\<close> fails to return exactly when the generator
  delivers zeros forever; whenever it returns, the id is not zero and nothing but random bytes was
  consumed.\<close>

lemma random_session_id_terminates:
  "(random_session_id w = None \<longleftrightarrow> (\<forall>i. rng w i = 0))
    \<and> pred_option (\<lambda>(sid, w'). sid \<noteq> 0 \<and> draws w w') (random_session_id w)"
proof -
  have "random_session_id w = None \<longleftrightarrow> (\<forall>i. rng w i = 0)"
  proof
    assume "random_session_id w = None"
    then show "\<forall>i. rng w i = 0" using random_session_id_returns [of w] by fastforce
  next
    assume "\<forall>i. rng w i = 0"
    then show "random_session_id w = None" using random_session_id_nonzero_byte [of w] by (cases "random_session_id w") auto
  qed
  moreover have "pred_option (\<lambda>(sid, w'). sid \<noteq> 0 \<and> draws w w') (random_session_id w)"
    using random_session_id_draws [of w] by (cases "random_session_id w") auto
  ultimately show ?thesis by blast
qed

end
