(* ===== verification/Frag.thy ===== *)
theory Frag
  imports Handshake_Agreement
begin

text \<open>
  \<open>liteway-core/src/frag.rs\<close>: splitting a handshake message into sealed fragments, and the assembler
  that rebuilds messages per source address within fixed memory limits.
\<close>

section \<open>Constants and data\<close>

definition DEFAULT_MAX_DATAGRAM :: nat where "DEFAULT_MAX_DATAGRAM = 1200"
definition MIN_DATAGRAM :: nat where "MIN_DATAGRAM = PACKET_OVERHEAD + 1"
definition CLEANUP_AGE_SECS :: nat where "CLEANUP_AGE_SECS = 30"
definition MAX_PENDING_MESSAGES :: nat where "MAX_PENDING_MESSAGES = 1024"
definition MAX_PENDING_MESSAGES_PER_SOURCE :: nat where "MAX_PENDING_MESSAGES_PER_SOURCE = 32"
definition MAX_BUFFERED_BYTES :: nat where "MAX_BUFFERED_BYTES = 4 * 1024 * 1024"
definition MAX_BUFFERED_BYTES_PER_SOURCE :: nat where "MAX_BUFFERED_BYTES_PER_SOURCE = 512 * 1024"
definition MAX_FRAGMENTED_MESSAGE_BYTES :: nat where "MAX_FRAGMENTED_MESSAGE_BYTES = 512 * 1024"

lemmas frag_limits = MAX_PENDING_MESSAGES_def MAX_PENDING_MESSAGES_PER_SOURCE_def MAX_BUFFERED_BYTES_def
  MAX_BUFFERED_BYTES_PER_SOURCE_def MAX_FRAGMENTED_MESSAGE_BYTES_def

datatype FeedResult = Complete bytes | Buffered | NotFragment

record PendingMessage =
  pm_chunks :: "bytes option list"
  pm_started :: instant
  pm_bytes :: nat

record FragmentAssembler =
  fa_pending :: "(SocketAddr \<times> u32, PendingMessage) hashmap"
  fa_buffered_bytes :: nat

section \<open>Sending\<close>

definition div_ceil :: "nat \<Rightarrow> nat \<Rightarrow> nat" where
  "div_ceil n m = (n + m - 1) div m"

text \<open>The loop over the chunks: an error of \<open>send_to\<close> ends it.\<close>

fun send_chunks ::
  "ext \<Rightarrow> bytes \<Rightarrow> SocketAddr \<Rightarrow> u32 \<Rightarrow> u32 \<Rightarrow> nat \<Rightarrow> nat \<Rightarrow> bytes list \<Rightarrow> world \<Rightarrow> (io_error + unit) \<times> world" where
  "send_chunks E nk addr dst mid tot i [] w = (Inr (), w)"
| "send_chunks E nk addr dst mid tot i (chunk # cs) w =
     (let plain = KIND_HANDSHAKE_FRAG # u32_to_be_bytes mid @ [word_of_nat i, word_of_nat tot] @ chunk;
          (packet, w1) = seal_handshake_to_peer E nk plain dst w
      in case send_to packet addr w1 of
           (Inl e, w2) \<Rightarrow> (Inl e, w2)
         | (Inr _, w2) \<Rightarrow> send_chunks E nk addr dst mid tot (i + 1) cs w2)"

definition send_fragmented_with_id ::
  "ext \<Rightarrow> bytes \<Rightarrow> SocketAddr \<Rightarrow> bytes \<Rightarrow> nat \<Rightarrow> u32 \<Rightarrow> u32 \<Rightarrow> world \<Rightarrow> (io_error + unit) \<times> world" where
  "send_fragmented_with_id E data addr nk max_datagram dst mid w =
     (if max_datagram < MIN_DATAGRAM then (Inl InvalidInput, w)
      else
        let chunk_size = max_datagram - PACKET_OVERHEAD;
            tot = max (div_ceil (length data) chunk_size) 1
        in if tot > 255 then (Inl InvalidInput, w)
           else if data = [] then
             (let plain = KIND_HANDSHAKE_FRAG # u32_to_be_bytes mid @ [0, 1];
                  (packet, w1) = seal_handshake_to_peer E nk plain dst w
              in case send_to packet addr w1 of
                   (Inl e, w2) \<Rightarrow> (Inl e, w2)
                 | (Inr _, w2) \<Rightarrow> (Inr (), w2))
           else send_chunks E nk addr dst mid tot 0 (chunks chunk_size data) w)"

definition send_fragmented_to_peer ::
  "ext \<Rightarrow> bytes \<Rightarrow> SocketAddr \<Rightarrow> bytes \<Rightarrow> nat \<Rightarrow> u32 \<Rightarrow> world \<Rightarrow> (io_error + unit) \<times> world" where
  "send_fragmented_to_peer E data addr nk max_datagram dst w =
     (let (mid, w1) = random_u32 w in send_fragmented_with_id E data addr nk max_datagram dst mid w1)"

definition send_fragmented ::
  "ext \<Rightarrow> bytes \<Rightarrow> SocketAddr \<Rightarrow> bytes \<Rightarrow> nat \<Rightarrow> world \<Rightarrow> (io_error + unit) \<times> world" where
  "send_fragmented E data addr nk max_datagram w = send_fragmented_to_peer E data addr nk max_datagram 0 w"

section \<open>The assembler\<close>

definition FragmentAssembler_new :: FragmentAssembler where
  "FragmentAssembler_new = \<lparr>fa_pending = [], fa_buffered_bytes = 0\<rparr>"

definition source_usage :: "FragmentAssembler \<Rightarrow> SocketAddr \<Rightarrow> nat \<times> nat" where
  "source_usage a src =
     foldl (\<lambda>(messages, bs) (_, m). (messages + 1, saturating_add bs (pm_bytes m))) (0, 0)
       (filter (\<lambda>((s, _), _). s = src) (fa_pending a))"

definition remove_pending :: "FragmentAssembler \<Rightarrow> SocketAddr \<times> u32 \<Rightarrow> FragmentAssembler" where
  "remove_pending a key =
     (case map_of (fa_pending a) key of
        None \<Rightarrow> a
      | Some m \<Rightarrow> a\<lparr>fa_pending := AList.delete key (fa_pending a),
                   fa_buffered_bytes := saturating_sub (fa_buffered_bytes a) (pm_bytes m)\<rparr>)"

definition cleanup :: "FragmentAssembler \<Rightarrow> world \<Rightarrow> FragmentAssembler \<times> world" where
  "cleanup a w =
     (let (now, w') = instant_now w;
          keep = (\<lambda>(_, m). as_secs (now - pm_started m) < CLEANUP_AGE_SECS);
          removed = foldl (\<lambda>r (_, m). saturating_add r (pm_bytes m)) 0 (filter (\<lambda>x. \<not> keep x) (fa_pending a))
      in (a\<lparr>fa_pending := filter keep (fa_pending a),
            fa_buffered_bytes := saturating_sub (fa_buffered_bytes a) removed\<rparr>, w'))"

text \<open>\<open>entry.chunks.drain(..).flatten()\<close>, concatenated.\<close>

definition assembled :: "bytes option list \<Rightarrow> bytes" where
  "assembled cs = concat (map the (filter (\<lambda>c. c \<noteq> None) cs))"

text \<open>The part of \<open>feed\<close> that runs once the entry of the message exists.\<close>

definition feed_entry ::
  "FragmentAssembler \<Rightarrow> SocketAddr \<Rightarrow> u32 \<Rightarrow> nat \<Rightarrow> nat \<Rightarrow> bytes \<Rightarrow> FeedResult \<times> FragmentAssembler" where
  "feed_entry a src mid idx tot chunk =
     (let key = (src, mid)
      in case map_of (fa_pending a) key of
           None \<Rightarrow> (Buffered, a)
         | Some entry \<Rightarrow>
             if length (pm_chunks entry) \<noteq> tot then (Buffered, remove_pending a key)
             else
               let old_len = (case pm_chunks entry ! idx of None \<Rightarrow> 0 | Some c \<Rightarrow> length c);
                   delta = saturating_sub (length chunk) old_len;
                   message_bytes = saturating_add (pm_bytes entry) delta
               in if message_bytes > MAX_FRAGMENTED_MESSAGE_BYTES then (Buffered, remove_pending a key)
                  else
                    let (_, source_bytes) = source_usage a src
                    in if saturating_add (fa_buffered_bytes a) delta > MAX_BUFFERED_BYTES
                          \<or> saturating_add source_bytes delta > MAX_BUFFERED_BYTES_PER_SOURCE
                       then (Buffered, a)
                       else
                         let buffered = (if old_len > length chunk
                               then saturating_sub (fa_buffered_bytes a) (old_len - length chunk)
                               else saturating_add (fa_buffered_bytes a) delta);
                             ebytes = (if old_len > length chunk
                               then saturating_sub (pm_bytes entry) (old_len - length chunk)
                               else saturating_add (pm_bytes entry) delta);
                             entry' = entry\<lparr>pm_bytes := ebytes, pm_chunks := (pm_chunks entry)[idx := Some chunk]\<rparr>;
                             a' = a\<lparr>fa_pending := AList.update key entry' (fa_pending a), fa_buffered_bytes := buffered\<rparr>
                         in if list_all (\<lambda>c. c \<noteq> None) (pm_chunks entry')
                            then (Complete (assembled (pm_chunks entry')),
                                  a'\<lparr>fa_pending := AList.delete key (fa_pending a'),
                                     fa_buffered_bytes := saturating_sub (fa_buffered_bytes a') (pm_bytes entry')\<rparr>)
                            else (Buffered, a'))"

definition feed ::
  "ext \<Rightarrow> FragmentAssembler \<Rightarrow> SocketAddr \<Rightarrow> bytes \<Rightarrow> bytes \<Rightarrow> world \<Rightarrow> FeedResult \<times> FragmentAssembler \<times> world" where
  "feed E a src data nk w =
     (case open_handshake E nk data of
        None \<Rightarrow> (NotFragment, a, w)
      | Some plain \<Rightarrow>
          if plain = [] \<or> plain ! 0 \<noteq> KIND_HANDSHAKE_FRAG then (NotFragment, a, w)
          else if length plain < 7 then (NotFragment, a, w)
          else
            let mid = u32_from_be_bytes [plain ! 1, plain ! 2, plain ! 3, plain ! 4];
                idx = unat (plain ! 5);
                tot = unat (plain ! 6)
            in if idx \<ge> tot \<or> tot = 0 then (Buffered, a, w)
               else
                 let chunk = drop 7 plain
                 in if length chunk > MAX_FRAGMENTED_MESSAGE_BYTES then (Buffered, a, w)
                    else if map_of (fa_pending a) (src, mid) = None then
                      (let (source_messages, _) = source_usage a src
                       in if length (fa_pending a) \<ge> MAX_PENDING_MESSAGES
                             \<or> source_messages \<ge> MAX_PENDING_MESSAGES_PER_SOURCE
                          then (Buffered, a, w)
                          else
                            let (now, w') = instant_now w;
                                m = \<lparr>pm_chunks = replicate tot None, pm_started = now, pm_bytes = 0\<rparr>;
                                a' = a\<lparr>fa_pending := AList.update (src, mid) m (fa_pending a)\<rparr>;
                                (r, a'') = feed_entry a' src mid idx tot chunk
                            in (r, a'', w'))
                    else
                      let (r, a') = feed_entry a src mid idx tot chunk in (r, a', w))"

section \<open>Accounting\<close>

definition chunk_len :: "bytes option \<Rightarrow> nat" where
  "chunk_len c = (case c of None \<Rightarrow> 0 | Some b \<Rightarrow> length b)"

definition chunks_len :: "bytes option list \<Rightarrow> nat" where
  "chunks_len cs = sum_list (map chunk_len cs)"

abbreviation message_weight :: "SocketAddr \<times> u32 \<Rightarrow> PendingMessage \<Rightarrow> nat" where
  "message_weight \<equiv> \<lambda>_. pm_bytes"

definition src_messages :: "SocketAddr \<Rightarrow> FragmentAssembler \<Rightarrow> nat" where
  "src_messages src a = hm_sum (\<lambda>(s, _) _. if s = src then 1 else 0) (fa_pending a)"

definition src_bytes :: "SocketAddr \<Rightarrow> FragmentAssembler \<Rightarrow> nat" where
  "src_bytes src a = hm_sum (\<lambda>(s, _) m. if s = src then pm_bytes m else 0) (fa_pending a)"

definition pending_ok :: "PendingMessage \<Rightarrow> bool" where
  "pending_ok m \<longleftrightarrow> pm_bytes m = chunks_len (pm_chunks m) \<and> None \<in> set (pm_chunks m) \<and> length (pm_chunks m) \<le> 255
     \<and> pm_bytes m \<le> MAX_FRAGMENTED_MESSAGE_BYTES"

text \<open>The invariant of the assembler: the counters are the sizes of what is stored, no stored message
  is complete, and every limit holds.\<close>

definition asm_inv :: "FragmentAssembler \<Rightarrow> bool" where
  "asm_inv a \<longleftrightarrow>
     hm_wf (fa_pending a) \<and> (\<forall>x\<in>set (fa_pending a). pending_ok (snd x))
   \<and> fa_buffered_bytes a = hm_sum message_weight (fa_pending a)
   \<and> fa_buffered_bytes a \<le> MAX_BUFFERED_BYTES
   \<and> length (fa_pending a) \<le> MAX_PENDING_MESSAGES
   \<and> (\<forall>src. src_messages src a \<le> MAX_PENDING_MESSAGES_PER_SOURCE \<and> src_bytes src a \<le> MAX_BUFFERED_BYTES_PER_SOURCE)"

lemma saturating_add_le: "saturating_add a b \<le> a + b"
  by (simp add: saturating_add_def)

lemma saturating_add_small: "saturating_add a b \<le> 4 * 1024 * 1024 \<Longrightarrow> saturating_add a b = a + b"
  by (auto simp: saturating_add_def usize_max_def min_def split: if_splits)

lemma source_usage_foldl:
  "foldl (\<lambda>(messages, bs) (_, m). (messages + 1, saturating_add bs (pm_bytes m))) (n, min b usize_max)
     (filter (\<lambda>((s, _), _). s = src) ms)
   = (n + hm_sum (\<lambda>(s, _) _. if s = src then 1 else 0) ms,
      min (b + hm_sum (\<lambda>(s, _) m. if s = src then pm_bytes m else 0) ms) usize_max)"
proof (induction ms arbitrary: n b)
  case Nil
  then show ?case by simp
next
  case (Cons x ms)
  obtain s i m where x: "x = ((s, i), m)" by (metis prod.collapse)
  have "saturating_add (min b usize_max) (pm_bytes m) = min (b + pm_bytes m) usize_max"
    by (simp add: saturating_add_def)
  with Cons.IH [of "n + 1" "b + pm_bytes m"] Cons.IH [of n b] show ?case
    by (simp add: x add.assoc)
qed

lemma source_usage_eq: "source_usage a src = (src_messages src a, min (src_bytes src a) usize_max)"
  using source_usage_foldl [of 0 0 src "fa_pending a"]
  by (simp add: source_usage_def src_messages_def src_bytes_def)

lemma source_usage_inv:
  "asm_inv a \<Longrightarrow> source_usage a src = (src_messages src a, src_bytes src a)"
proof -
  assume "asm_inv a"
  then have "src_bytes src a \<le> MAX_BUFFERED_BYTES_PER_SOURCE" by (simp add: asm_inv_def)
  then show ?thesis by (simp add: source_usage_eq usize_max_def frag_limits)
qed

lemma removed_foldl:
  "foldl (\<lambda>r (_, m). saturating_add r (pm_bytes m)) (min b usize_max) ms = min (b + hm_sum message_weight ms) usize_max"
proof (induction ms arbitrary: b)
  case Nil
  then show ?case by simp
next
  case (Cons x ms)
  obtain k m where x: "x = (k, m)" by fastforce
  have "saturating_add (min b usize_max) (pm_bytes m) = min (b + pm_bytes m) usize_max"
    by (simp add: saturating_add_def)
  with Cons.IH [of "b + pm_bytes m"] show ?case by (simp add: x add.assoc)
qed

lemma asm_inv_new: "asm_inv FragmentAssembler_new"
  by (simp add: asm_inv_def FragmentAssembler_new_def src_messages_def src_bytes_def)

lemma asm_inv_filter:
  assumes "asm_inv a" and "b = fa_buffered_bytes a - hm_sum message_weight (filter (\<lambda>x. \<not> P x) (fa_pending a))"
  shows "asm_inv (a\<lparr>fa_pending := filter P (fa_pending a), fa_buffered_bytes := b\<rparr>)"
proof -
  let ?m = "fa_pending a"
  have s: "hm_sum message_weight (filter P ?m) + hm_sum message_weight (filter (\<lambda>x. \<not> P x) ?m) = hm_sum message_weight ?m"
    by (rule hm_sum_filter)
  have "hm_sum g (filter P ?m) \<le> hm_sum g ?m" for g by (rule hm_sum_filter_le)
  then have le: "src_messages src (a\<lparr>fa_pending := filter P ?m, fa_buffered_bytes := b\<rparr>) \<le> src_messages src a"
    "src_bytes src (a\<lparr>fa_pending := filter P ?m, fa_buffered_bytes := b\<rparr>) \<le> src_bytes src a" for src
    by (simp_all add: src_messages_def src_bytes_def)
  have len: "length (filter P ?m) \<le> MAX_PENDING_MESSAGES"
    using assms(1) length_filter_le [of P ?m] unfolding asm_inv_def by linarith
  show ?thesis
    using assms s len le_trans [OF le(1)] le_trans [OF le(2)]
    by (auto simp: asm_inv_def hm_wf_filter intro: le_trans)
qed

lemma asm_inv_cleanup: "asm_inv a \<Longrightarrow> asm_inv (fst (cleanup a w))"
proof -
  assume inv: "asm_inv a"
  obtain now w' where n: "instant_now w = (now, w')" by fastforce
  let ?keep = "\<lambda>(_, m). as_secs (now - pm_started m) < CLEANUP_AGE_SECS"
  let ?out = "filter (\<lambda>x. \<not> ?keep x) (fa_pending a)"
  have "hm_sum message_weight ?out \<le> fa_buffered_bytes a"
    using hm_sum_filter_le inv by (metis asm_inv_def)
  moreover have "fa_buffered_bytes a \<le> MAX_BUFFERED_BYTES" using inv by (simp add: asm_inv_def)
  ultimately have "min (hm_sum message_weight ?out) usize_max = hm_sum message_weight ?out"
    by (simp add: usize_max_def frag_limits)
  then have "foldl (\<lambda>r (_, m). saturating_add r (pm_bytes m)) 0 ?out = hm_sum message_weight ?out"
    using removed_foldl [of 0 ?out] by simp
  then show ?thesis
    using asm_inv_filter [OF inv, of _ ?keep] by (simp add: cleanup_def n saturating_sub_def Let_def)
qed

lemma asm_inv_remove_pending: "asm_inv a \<Longrightarrow> asm_inv (remove_pending a key)"
proof (cases "map_of (fa_pending a) key")
  case None
  assume "asm_inv a"
  with None show ?thesis by (simp add: remove_pending_def)
next
  case (Some m)
  assume inv: "asm_inv a"
  let ?P = "\<lambda>x. fst x \<noteq> key"
  have d: "AList.delete key (fa_pending a) = filter ?P (fa_pending a)"
    by (auto simp: AList.delete_eq intro!: filter_cong)
  have wf: "hm_wf (fa_pending a)" using inv by (simp add: asm_inv_def)
  have "hm_sum message_weight (filter ?P (fa_pending a)) + pm_bytes m = hm_sum message_weight (fa_pending a)"
    using hm_sum_delete [OF wf, of message_weight key] Some by (simp add: d hm_at_def)
  then have "hm_sum message_weight (filter (\<lambda>x. \<not> ?P x) (fa_pending a)) = pm_bytes m"
    using hm_sum_filter [of message_weight ?P "fa_pending a"] by linarith
  with asm_inv_filter [OF inv, of "fa_buffered_bytes a - pm_bytes m" ?P] Some show ?thesis
    by (simp add: remove_pending_def d saturating_sub_def)
qed

lemma asm_inv_put:
  assumes inv: "asm_inv a" and ok: "pending_ok e"
    and b: "b + hm_at message_weight (fa_pending a) key = fa_buffered_bytes a + pm_bytes e" "b \<le> MAX_BUFFERED_BYTES"
    and s: "src_bytes (fst key) a + pm_bytes e \<le> MAX_BUFFERED_BYTES_PER_SOURCE + hm_at message_weight (fa_pending a) key"
    and room: "key \<in> fst ` set (fa_pending a) \<or>
      length (fa_pending a) < MAX_PENDING_MESSAGES \<and> src_messages (fst key) a < MAX_PENDING_MESSAGES_PER_SOURCE"
  shows "asm_inv (a\<lparr>fa_pending := AList.update key e (fa_pending a), fa_buffered_bytes := b\<rparr>)"
proof -
  let ?m = "fa_pending a" and ?a' = "a\<lparr>fa_pending := AList.update key e (fa_pending a), fa_buffered_bytes := b\<rparr>"
  have wf: "hm_wf ?m" using inv by (simp add: asm_inv_def)
  have bytes: "hm_sum message_weight (AList.update key e ?m) = b"
    using hm_sum_update [of message_weight key e ?m] b inv by (simp add: asm_inv_def)
  have oks: "\<forall>x\<in>set (AList.update key e ?m). pending_ok (snd x)"
    using set_update [OF wf, of _ key e] inv ok by (fastforce simp: asm_inv_def)
  have len: "length (AList.update key e ?m) \<le> MAX_PENDING_MESSAGES"
    using room inv by (auto simp: length_update_eq asm_inv_def)
  have msgs: "src_messages src ?a' \<le> MAX_PENDING_MESSAGES_PER_SOURCE" for src
  proof -
    let ?g = "\<lambda>(s, _) (_ :: PendingMessage). if s = src then (1 :: nat) else 0"
    have "src_messages src ?a' + hm_at ?g ?m key = src_messages src a + ?g key e"
      using hm_sum_update [of ?g key e ?m] by (simp add: src_messages_def)
    moreover have "key \<in> fst ` set ?m \<Longrightarrow> hm_at ?g ?m key = ?g key e"
      using wf by (cases "map_of ?m key") (auto simp: hm_at_def map_of_eq_None_iff)
    moreover have "src_messages src a \<le> MAX_PENDING_MESSAGES_PER_SOURCE" using inv by (simp add: asm_inv_def)
    moreover have "?g key e \<le> 1" and "?g key e = 0 \<or> src = fst key" by (auto split: prod.splits)
    ultimately show ?thesis using room by (cases "key \<in> fst ` set ?m") auto
  qed
  have srcb: "src_bytes src ?a' \<le> MAX_BUFFERED_BYTES_PER_SOURCE" for src
  proof -
    let ?g = "\<lambda>(s, _) m. if s = src then pm_bytes m else 0"
    have u: "src_bytes src ?a' + hm_at ?g ?m key = src_bytes src a + ?g key e"
      using hm_sum_update [of ?g key e ?m] by (simp add: src_bytes_def)
    have "src_bytes src a \<le> MAX_BUFFERED_BYTES_PER_SOURCE" using inv by (simp add: asm_inv_def)
    moreover have "hm_at ?g ?m key = (if fst key = src then hm_at message_weight ?m key else 0)"
      by (auto simp: hm_at_def split: option.splits prod.splits)
    ultimately show ?thesis using u s by (auto split: prod.splits if_splits)
  qed
  show ?thesis
    using bytes oks len msgs srcb b(2) hm_wf_update [OF wf] by (simp add: asm_inv_def)
qed

lemma chunks_len_update:
  "idx < length cs \<Longrightarrow> chunks_len (cs[idx := c]) + chunk_len (cs ! idx) = chunks_len cs + chunk_len c"
proof (induction cs arbitrary: idx)
  case Nil
  then show ?case by simp
next
  case (Cons x cs)
  then show ?case by (cases idx) (auto simp: chunks_len_def)
qed

lemma map_of_mem: "map_of m k = Some v \<Longrightarrow> k \<in> fst ` set m \<and> (k, v) \<in> set m"
  by (auto dest: map_of_SomeD intro: rev_image_eqI)

text \<open>The new byte count of an entry, and of the assembler, is the old one with the replaced chunk
  exchanged; none of the saturating operations saturates.\<close>

lemma exchange_bytes:
  assumes "old \<le> n" and "d = saturating_sub len old" and "saturating_add n d \<le> 4 * 1024 * 1024"
  shows "(if old > len then saturating_sub n (old - len) else saturating_add n d) + old = n + len"
  using assms saturating_add_small [OF assms(3)] by (auto simp: saturating_sub_def)

lemma chunks_len_nth_le: "idx < length cs \<Longrightarrow> chunk_len (cs ! idx) \<le> chunks_len cs"
  unfolding chunks_len_def by (rule member_le_sum_list) auto

lemma asm_inv_feed_entry:
  assumes inv: "asm_inv a" and idx: "idx < tot"
  shows "asm_inv (snd (feed_entry a src mid idx tot chunk))"
proof (cases "map_of (fa_pending a) (src, mid)")
  case None
  with inv show ?thesis by (simp add: feed_entry_def)
next
  case (Some e)
  let ?old = "chunk_len (pm_chunks e ! idx)"
  let ?d = "saturating_sub (length chunk) ?old"
  let ?x = "\<lambda>n. if ?old > length chunk then saturating_sub n (?old - length chunk) else saturating_add n ?d"
  have e: "pending_ok e" using inv map_of_mem [OF Some] by (auto simp: asm_inv_def)
  have at: "hm_at message_weight (fa_pending a) (src, mid) = pm_bytes e" using Some by (simp add: hm_at_def)
  consider (drop) "length (pm_chunks e) \<noteq> tot \<or> saturating_add (pm_bytes e) ?d > MAX_FRAGMENTED_MESSAGE_BYTES"
    | (full) "length (pm_chunks e) = tot" "saturating_add (pm_bytes e) ?d \<le> MAX_FRAGMENTED_MESSAGE_BYTES"
        "saturating_add (fa_buffered_bytes a) ?d > MAX_BUFFERED_BYTES
         \<or> saturating_add (src_bytes src a) ?d > MAX_BUFFERED_BYTES_PER_SOURCE"
    | (store) "length (pm_chunks e) = tot" "saturating_add (pm_bytes e) ?d \<le> MAX_FRAGMENTED_MESSAGE_BYTES"
        "saturating_add (fa_buffered_bytes a) ?d \<le> MAX_BUFFERED_BYTES"
        "saturating_add (src_bytes src a) ?d \<le> MAX_BUFFERED_BYTES_PER_SOURCE"
    by linarith
  then show ?thesis
  proof cases
    case drop
    with asm_inv_remove_pending [OF inv] Some show ?thesis
      by (auto simp: feed_entry_def Let_def chunk_len_def)
  next
    case full
    with inv Some show ?thesis
      by (auto simp: feed_entry_def Let_def source_usage_inv [OF inv] chunk_len_def)
  next
    case store
    let ?e = "e\<lparr>pm_bytes := ?x (pm_bytes e), pm_chunks := (pm_chunks e)[idx := Some chunk]\<rparr>"
    let ?a = "a\<lparr>fa_pending := AList.update (src, mid) ?e (fa_pending a), fa_buffered_bytes := ?x (fa_buffered_bytes a)\<rparr>"
    have i: "idx < length (pm_chunks e)" using idx store(1) by simp
    have old: "?old \<le> pm_bytes e" using e chunks_len_nth_le [OF i] by (simp add: pending_ok_def)
    have "pm_bytes e \<le> fa_buffered_bytes a"
      using hm_sum_delete [of "fa_pending a" message_weight "(src, mid)"] inv at by (simp add: asm_inv_def)
    then have xb: "?x (fa_buffered_bytes a) + ?old = fa_buffered_bytes a + length chunk"
      using old store(3) by (intro exchange_bytes) (auto simp: frag_limits)
    have xe: "?x (pm_bytes e) + ?old = pm_bytes e + length chunk"
      using old store(2) by (intro exchange_bytes) (auto simp: frag_limits)
    have small: "saturating_add (pm_bytes e) ?d = pm_bytes e + ?d" "saturating_add (fa_buffered_bytes a) ?d = fa_buffered_bytes a + ?d"
      "saturating_add (src_bytes src a) ?d = src_bytes src a + ?d"
      using store by (auto intro!: saturating_add_small simp: frag_limits)
    have cl: "?x (pm_bytes e) = chunks_len ((pm_chunks e)[idx := Some chunk])"
      using chunks_len_update [OF i, of "Some chunk"] xe e by (simp add: pending_ok_def chunk_len_def)
    have fe: "feed_entry a src mid idx tot chunk =
        (if list_all (\<lambda>c. c \<noteq> None) (pm_chunks ?e)
         then (Complete (assembled (pm_chunks ?e)),
           ?a\<lparr>fa_pending := AList.delete (src, mid) (fa_pending ?a),
              fa_buffered_bytes := saturating_sub (fa_buffered_bytes ?a) (pm_bytes ?e)\<rparr>)
         else (Buffered, ?a))"
      unfolding feed_entry_def using Some store
      by (simp add: Let_def source_usage_inv [OF inv] chunk_len_def [symmetric] not_less)
    show ?thesis
    proof (cases "list_all (\<lambda>c. c \<noteq> None) (pm_chunks ?e)")
      case True
      have "?x (fa_buffered_bytes a) - ?x (pm_bytes e) = fa_buffered_bytes a - pm_bytes e" using xb xe by linarith
      then have "snd (feed_entry a src mid idx tot chunk) = remove_pending a (src, mid)"
        using True Some by (simp add: fe remove_pending_def delete_update saturating_sub_def)
      with asm_inv_remove_pending [OF inv] show ?thesis by simp
    next
      case False
      have "pm_bytes ?e \<le> MAX_FRAGMENTED_MESSAGE_BYTES"
        using xe store(2) small(1) e by (auto simp: saturating_sub_def pending_ok_def)
      moreover have "None \<in> set ((pm_chunks e)[idx := Some chunk])" using False by (auto simp: list_all_iff)
      ultimately have "pending_ok ?e" using cl e by (simp add: pending_ok_def)
      moreover have "?x (fa_buffered_bytes a) + pm_bytes e = fa_buffered_bytes a + pm_bytes ?e" using xb xe by simp
      moreover have "?x (fa_buffered_bytes a) \<le> MAX_BUFFERED_BYTES"
        using store(3) inv by (auto simp: asm_inv_def saturating_sub_def)
      moreover have "src_bytes src a + pm_bytes ?e \<le> MAX_BUFFERED_BYTES_PER_SOURCE + pm_bytes e"
      proof -
        have "src_bytes src a \<le> MAX_BUFFERED_BYTES_PER_SOURCE" using inv by (simp add: asm_inv_def)
        with xe store(4) small(3) show ?thesis by (auto simp: saturating_sub_def)
      qed
      ultimately have "asm_inv ?a"
        using map_of_mem [OF Some] by (intro asm_inv_put [OF inv]) (auto simp: at)
      with False show ?thesis by (simp add: fe)
    qed
  qed
qed

lemma asm_inv_feed: "asm_inv a \<Longrightarrow> asm_inv (fst (snd (feed E a src data nk w)))"
proof (cases "open_handshake E nk data")
  case None
  assume "asm_inv a"
  with None show ?thesis by (simp add: feed_def)
next
  case (Some plain)
  assume inv: "asm_inv a"
  let ?mid = "u32_from_be_bytes [plain ! 1, plain ! 2, plain ! 3, plain ! 4]"
  let ?tot = "unat (plain ! 6)" and ?idx = "unat (plain ! 5)"
  have t: "?tot \<le> 255" using unsigned_less [of "plain ! 6", where ?'a = nat] by simp
  have new: "asm_inv (a\<lparr>fa_pending := AList.update (src, ?mid) \<lparr>pm_chunks = replicate ?tot None, pm_started = now, pm_bytes = 0\<rparr> (fa_pending a)\<rparr>)"
    if "map_of (fa_pending a) (src, ?mid) = None" "?idx < ?tot" "length (fa_pending a) < MAX_PENDING_MESSAGES"
      "src_messages src a < MAX_PENDING_MESSAGES_PER_SOURCE" for now
  proof -
    let ?e = "\<lparr>pm_chunks = replicate ?tot None, pm_started = now, pm_bytes = 0\<rparr>"
    have "chunks_len (replicate n None) = 0" for n by (induction n) (auto simp: chunks_len_def chunk_len_def)
    then have ok: "pending_ok ?e" using t that(2) by (simp add: pending_ok_def frag_limits)
    have "asm_inv (a\<lparr>fa_pending := AList.update (src, ?mid) ?e (fa_pending a), fa_buffered_bytes := fa_buffered_bytes a\<rparr>)"
      using inv that(1,3,4) by (intro asm_inv_put [OF inv ok]) (auto simp: asm_inv_def hm_at_def)
    then show ?thesis by simp
  qed
  show ?thesis
    using Some inv new asm_inv_feed_entry source_usage_inv [OF inv]
    by (simp add: feed_def Let_def instant_now_def case_prod_beta not_le)
qed

text \<open>A run of the assembler: datagrams from any source, and cleanups.\<close>

datatype asm_event = AFeed SocketAddr bytes bytes world | ACleanup world

fun asm_step :: "ext \<Rightarrow> asm_event \<Rightarrow> FragmentAssembler \<Rightarrow> FragmentAssembler" where
  "asm_step E (AFeed src data nk w) a = fst (snd (feed E a src data nk w))"
| "asm_step E (ACleanup w) a = fst (cleanup a w)"

interpretation asm_run: step_machine FragmentAssembler_new "asm_step E" "\<lambda>_. True" asm_inv
proof
  show "asm_inv FragmentAssembler_new" by (rule asm_inv_new)
next
  fix e a
  assume "asm_inv a"
  then show "asm_inv (asm_step E e a)" by (cases e) (auto intro: asm_inv_feed asm_inv_cleanup)
qed

end
