(* ===== verification/Frag_Assembly.thy ===== *)
theory Frag_Assembly
  imports Frag
begin

text \<open>
  What fragmentation achieves (\<open>liteway-core/src/frag.rs\<close>): the datagrams of one message stay within the
  datagram limit, and an assembler that receives them in any order, with any duplicates, returns the
  message exactly when the last missing fragment arrives, and forgets it.
\<close>

section \<open>The fragments a message is sent as\<close>

lemma unat_u8: "n \<le> 255 \<Longrightarrow> unat (word_of_nat n :: u8) = n"
  by (simp add: unat_of_nat)

lemma word_u8_less: "i < t \<Longrightarrow> t \<le> 255 \<Longrightarrow> (word_of_nat i :: u8) < word_of_nat t"
  by (simp add: word_less_nat_alt unat_u8)

definition is_fragment :: "ext \<Rightarrow> bytes \<Rightarrow> u32 \<Rightarrow> nat \<Rightarrow> nat \<Rightarrow> bytes \<Rightarrow> bytes \<Rightarrow> bool" where
  "is_fragment E nk mid t i chunk d \<longleftrightarrow>
     open_handshake E nk d = Some (frag_plaintext mid (word_of_nat i) (word_of_nat t) chunk)
   \<and> length d = PACKET_OVERHEAD + length chunk"

lemma sealed_fragment:
  assumes "blake3_sized E" "aead_sized E" "aead_correct E" and "i < t" "t \<le> 255"
    and "seal_handshake_to_peer E nk (KIND_HANDSHAKE_FRAG # u32_to_be_bytes mid @ [word_of_nat i, word_of_nat t] @ chunk) dst w = (d, w')"
  shows "is_fragment E nk mid t i chunk d" and "draws w w'"
  using open_seal_frag [OF assms(1-3) word_u8_less [OF assms(4,5)], of nk mid chunk dst w d w'] assms(6)
  by (simp_all add: is_fragment_def frag_plaintext_def)

text \<open>What the loop appends to the outbox: the fragments in order, all of them if it succeeds.\<close>

lemma send_chunks_outbox:
  assumes "blake3_sized E" "aead_sized E" "aead_correct E" and "i + length cs \<le> t" "t \<le> 255"
    and "send_chunks E nk addr dst mid t i cs w = (r, w')"
  shows "\<exists>ds. outbox w' = outbox w @ map (\<lambda>d. (d, addr)) ds \<and> length ds \<le> length cs
    \<and> (\<forall>j<length ds. is_fragment E nk mid t (i + j) (cs ! j) (ds ! j))
    \<and> (r = Inr () \<longrightarrow> length ds = length cs)
    \<and> ((\<forall>k. send_ok w k) \<longrightarrow> r = Inr () \<and> (\<forall>k. send_ok w' k))"
  using assms(4-6)
proof (induction cs arbitrary: i w)
  case Nil
  then show ?case by (intro exI [of _ "[]"]) auto
next
  case (Cons c cs)
  let ?p = "KIND_HANDSHAKE_FRAG # u32_to_be_bytes mid @ [word_of_nat i, word_of_nat t] @ c"
  obtain d w1 where s: "seal_handshake_to_peer E nk ?p dst w = (d, w1)" by fastforce
  have "i < t" using Cons.prems(1) by simp
  note frag = sealed_fragment [OF assms(1-3) this Cons.prems(2) s]
  have ob: "outbox w1 = outbox w" "send_ok w1 = send_ok w" using frag(2) by (auto simp: draws_def same_outputs_def)
  obtain res w2 where st: "send_to d addr w1 = (res, w2)" by fastforce
  show ?case
  proof (cases res)
    case (Inl e)
    then have "w' = w2" "r = Inl e" "outbox w2 = outbox w" "\<not> send_ok w 0"
      using Cons.prems(3) s st ob by (auto simp: send_to_def Let_def split: if_splits)
    then show ?thesis by (intro exI [of _ "[]"]) auto
  next
    case (Inr n)
    then have ob2: "outbox w2 = outbox w @ [(d, addr)]" "\<forall>k. send_ok w2 k = send_ok w (k + 1)"
      using st ob by (auto simp: send_to_def Let_def split: if_splits)
    have "send_chunks E nk addr dst mid t (i + 1) cs w2 = (r, w')"
      using Cons.prems(3) s st Inr by (simp add: Let_def)
    from Cons.IH [OF _ Cons.prems(2) this] Cons.prems(1) obtain ds where
      ds: "outbox w' = outbox w2 @ map (\<lambda>d. (d, addr)) ds" "length ds \<le> length cs"
        "\<forall>j<length ds. is_fragment E nk mid t (i + 1 + j) (cs ! j) (ds ! j)" "r = Inr () \<longrightarrow> length ds = length cs"
        "(\<forall>k. send_ok w2 k) \<longrightarrow> r = Inr () \<and> (\<forall>k. send_ok w' k)"
      by auto
    have "is_fragment E nk mid t (i + j) ((c # cs) ! j) ((d # ds) ! j)" if "j < length (d # ds)" for j
      using that ds(3) frag(1) by (cases j) auto
    with ds ob2 show ?thesis by (intro exI [of _ "d # ds"]) auto
  qed
qed

definition message_chunks :: "nat \<Rightarrow> bytes \<Rightarrow> bytes list" where
  "message_chunks max_datagram data = (if data = [] then [[]] else chunks (max_datagram - PACKET_OVERHEAD) data)"

lemma message_chunks_facts:
  assumes "MIN_DATAGRAM \<le> max_datagram"
  shows "concat (message_chunks max_datagram data) = data"
    and "length (message_chunks max_datagram data) = max (div_ceil (length data) (max_datagram - PACKET_OVERHEAD)) 1"
    and "c \<in> set (message_chunks max_datagram data) \<Longrightarrow> PACKET_OVERHEAD + length c \<le> max_datagram"
proof -
  let ?n = "max_datagram - PACKET_OVERHEAD"
  have n: "0 < ?n" "PACKET_OVERHEAD + ?n = max_datagram" using assms by (auto simp: MIN_DATAGRAM_def)
  show "concat (message_chunks max_datagram data) = data" using n by (simp add: message_chunks_def concat_chunks)
  have "length (chunks ?n data) > 0" if "data \<noteq> []" using that n by (simp add: chunks_Cons)
  moreover have "div_ceil 0 ?n = 0" using n by (simp add: div_ceil_def)
  ultimately show "length (message_chunks max_datagram data) = max (div_ceil (length data) ?n) 1"
    using length_chunks [OF n(1), of data] by (auto simp: message_chunks_def div_ceil_def)
  show "c \<in> set (message_chunks max_datagram data) \<Longrightarrow> PACKET_OVERHEAD + length c \<le> max_datagram"
    using n chunks_length_le [of c ?n data] by (auto simp: message_chunks_def split: if_splits)
qed

lemma send_with_id_sends:
  assumes "MIN_DATAGRAM \<le> max_datagram" and "length (message_chunks max_datagram data) \<le> 255"
  shows "send_fragmented_with_id E data addr nk max_datagram dst mid w =
    send_chunks E nk addr dst mid (length (message_chunks max_datagram data)) 0 (message_chunks max_datagram data) w"
proof (cases "data = []")
  case True
  then show ?thesis
    using assms message_chunks_facts(2) [OF assms(1), of data]
    by (auto simp: send_fragmented_with_id_def message_chunks_def Let_def split: prod.splits sum.splits)
next
  case False
  let ?t = "max (div_ceil (length data) (max_datagram - PACKET_OVERHEAD)) 1"
  have "\<not> 255 < ?t" and "\<not> max_datagram < MIN_DATAGRAM"
    and "length (chunks (max_datagram - PACKET_OVERHEAD) data) = ?t"
    using assms message_chunks_facts(2) [OF assms(1), of data] False by (auto simp: message_chunks_def)
  with False show ?thesis
    unfolding send_fragmented_with_id_def message_chunks_def Let_def by (simp only: if_False)
qed

section \<open>The assembler on the fragments of one message\<close>

definition partial :: "bytes list \<Rightarrow> nat set \<Rightarrow> bytes option list" where
  "partial cs S = map (\<lambda>i. if i \<in> S then Some (cs ! i) else None) [0..<length cs]"

lemma length_partial [simp]: "length (partial cs S) = length cs"
  by (simp add: partial_def)

lemma partial_insert: "i < length cs \<Longrightarrow> (partial cs S)[i := Some (cs ! i)] = partial cs (insert i S)"
  by (rule nth_equalityI) (auto simp: partial_def nth_list_update)

lemma partial_empty: "partial cs {} = replicate (length cs) None"
  by (rule nth_equalityI) (auto simp: partial_def)

lemma partial_nth: "i < length cs \<Longrightarrow> partial cs S ! i = (if i \<in> S then Some (cs ! i) else None)"
  by (simp add: partial_def)

lemma partial_complete: "list_all (\<lambda>c. c \<noteq> None) (partial cs S) \<longleftrightarrow> {..<length cs} \<subseteq> S"
  by (auto simp: partial_def list_all_iff)

lemma assembled_partial: "{..<length cs} \<subseteq> S \<Longrightarrow> assembled (partial cs S) = concat cs"
proof -
  assume "{..<length cs} \<subseteq> S"
  then have "partial cs S = map Some cs" by (intro nth_equalityI) (auto simp: partial_def)
  moreover have "map the (filter (\<lambda>c. c \<noteq> None) (map Some cs)) = cs" by (induction cs) auto
  ultimately show ?thesis by (simp add: assembled_def)
qed

lemma chunks_len_partial: "chunks_len (partial cs S) \<le> length (concat cs)"
proof -
  have "chunks_len (partial cs S) \<le> sum_list (map length (map ((!) cs) [0..<length cs]))"
    unfolding chunks_len_def partial_def map_map
    by (rule sum_list_mono) (auto simp: chunk_len_def)
  then show ?thesis by (simp add: map_nth length_concat)
qed

text \<open>The assembler \<open>a\<close> is \<open>a0\<close> plus an entry that holds exactly the fragments \<open>S\<close> of the message.\<close>

definition holding :: "FragmentAssembler \<Rightarrow> SocketAddr \<Rightarrow> u32 \<Rightarrow> bytes list \<Rightarrow> nat set \<Rightarrow> FragmentAssembler \<Rightarrow> bool" where
  "holding a0 src mid cs S a \<longleftrightarrow>
     asm_inv a \<and> AList.delete (src, mid) (fa_pending a) = fa_pending a0
   \<and> (\<exists>e. map_of (fa_pending a) (src, mid) = Some e \<and> pm_chunks e = partial cs S)"

text \<open>There is room for the message: what the limits leave to it.\<close>

definition has_room :: "FragmentAssembler \<Rightarrow> SocketAddr \<Rightarrow> bytes list \<Rightarrow> bool" where
  "has_room a src cs \<longleftrightarrow>
     length (fa_pending a) < MAX_PENDING_MESSAGES \<and> src_messages src a < MAX_PENDING_MESSAGES_PER_SOURCE
   \<and> fa_buffered_bytes a + length (concat cs) \<le> MAX_BUFFERED_BYTES
   \<and> src_bytes src a + length (concat cs) \<le> MAX_BUFFERED_BYTES_PER_SOURCE"

lemma holding_sums:
  assumes "asm_inv a0" and "holding a0 src mid cs S a" and "map_of (fa_pending a) (src, mid) = Some e"
  shows "fa_buffered_bytes a = fa_buffered_bytes a0 + pm_bytes e" and "src_bytes src a = src_bytes src a0 + pm_bytes e"
    and "pm_bytes e = chunks_len (partial cs S)"
proof -
  have inv: "asm_inv a" and d: "AList.delete (src, mid) (fa_pending a) = fa_pending a0" and c: "pm_chunks e = partial cs S"
    using assms(2,3) by (auto simp: holding_def)
  then have wf: "hm_wf (fa_pending a)" by (simp add: asm_inv_def)
  show "fa_buffered_bytes a = fa_buffered_bytes a0 + pm_bytes e"
    using hm_sum_delete [OF wf, of message_weight "(src, mid)"] inv assms(1,3) d by (simp add: asm_inv_def hm_at_def)
  show "src_bytes src a = src_bytes src a0 + pm_bytes e"
    using hm_sum_delete [OF wf, of "\<lambda>(s, _) m. if s = src then pm_bytes m else 0" "(src, mid)"] assms(3) d
    by (simp add: src_bytes_def hm_at_def)
  show "pm_bytes e = chunks_len (partial cs S)"
    using inv map_of_mem [OF assms(3)] c by (fastforce simp: asm_inv_def pending_ok_def)
qed

text \<open>Every fragment of the message is stored, or completes it; a duplicate changes nothing.\<close>

lemma holding_feed_entry:
  assumes inv: "asm_inv a0" and h: "holding a0 src mid cs S a" and room: "has_room a0 src cs" and i: "i < length cs"
    and len: "length cs \<le> 255" and absent: "map_of (fa_pending a0) (src, mid) = None"
  shows "if {..<length cs} \<subseteq> insert i S
    then feed_entry a src mid i (length cs) (cs ! i) = (Complete (concat cs), a0)
    else \<exists>a'. feed_entry a src mid i (length cs) (cs ! i) = (Buffered, a') \<and> holding a0 src mid cs (insert i S) a'"
proof -
  obtain e where e: "map_of (fa_pending a) (src, mid) = Some e" "pm_chunks e = partial cs S"
    and inva: "asm_inv a" and del: "AList.delete (src, mid) (fa_pending a) = fa_pending a0"
    using h by (auto simp: holding_def)
  note sums = holding_sums [OF inv h e(1)]
  let ?old = "chunk_len (partial cs S ! i)"
  let ?d = "saturating_sub (length (cs ! i)) ?old"
  have old: "?old = (if i \<in> S then length (cs ! i) else 0)" using i by (simp add: partial_nth chunk_len_def)
  then have nshrink: "\<not> ?old > length (cs ! i)" and d: "?d = length (cs ! i) - ?old" by (simp_all add: saturating_sub_def)
  have grow: "pm_bytes e + ?d = chunks_len (partial cs (insert i S))"
    using chunks_len_update [of i "partial cs S" "Some (cs ! i)"] i old sums(3) d
    by (simp add: partial_insert chunk_len_def split: if_splits)
  then have le: "pm_bytes e + ?d \<le> length (concat cs)" using chunks_len_partial by metis
  have sat: "saturating_add (pm_bytes e) ?d = pm_bytes e + ?d"
    "saturating_add (fa_buffered_bytes a) ?d = fa_buffered_bytes a + ?d"
    "saturating_add (src_bytes src a) ?d = src_bytes src a + ?d"
    using le room sums(1,2) by (auto simp: saturating_add_def usize_max_def has_room_def frag_limits)
  have lims: "\<not> pm_bytes e + ?d > MAX_FRAGMENTED_MESSAGE_BYTES" "\<not> fa_buffered_bytes a + ?d > MAX_BUFFERED_BYTES"
    "\<not> src_bytes src a + ?d > MAX_BUFFERED_BYTES_PER_SOURCE"
    using le room sums(1,2) by (auto simp: has_room_def frag_limits)
  let ?e = "e\<lparr>pm_bytes := pm_bytes e + ?d, pm_chunks := partial cs (insert i S)\<rparr>"
  let ?a = "a\<lparr>fa_pending := AList.update (src, mid) ?e (fa_pending a), fa_buffered_bytes := fa_buffered_bytes a + ?d\<rparr>"
  have fe: "feed_entry a src mid i (length cs) (cs ! i) =
      (if list_all (\<lambda>c. c \<noteq> None) (partial cs (insert i S))
       then (Complete (assembled (partial cs (insert i S))),
         ?a\<lparr>fa_pending := AList.delete (src, mid) (fa_pending ?a),
            fa_buffered_bytes := saturating_sub (fa_buffered_bytes ?a) (pm_bytes ?e)\<rparr>)
       else (Buffered, ?a))"
    unfolding feed_entry_def using e nshrink lims sat i
    by (simp add: Let_def source_usage_inv [OF inva] chunk_len_def [symmetric] partial_insert)
  show ?thesis
  proof (cases "{..<length cs} \<subseteq> insert i S")
    case True
    have "fa_buffered_bytes a + ?d - (pm_bytes e + ?d) = fa_buffered_bytes a0" using sums(1) by simp
    moreover have full: "list_all (\<lambda>c. c \<noteq> None) (partial cs (insert i S))"
      using True by (simp only: partial_complete)
    ultimately show ?thesis
      unfolding fe if_P [OF full] using True by (simp add: assembled_partial delete_update del saturating_sub_def)
  next
    case False
    then have nfull: "\<not> list_all (\<lambda>c. c \<noteq> None) (partial cs (insert i S))" by (simp only: partial_complete) simp
    have fe': "feed_entry a src mid i (length cs) (cs ! i) = (Buffered, ?a)" unfolding fe if_not_P [OF nfull] ..
    have "asm_inv ?a" using asm_inv_feed_entry [OF inva i, of src mid "cs ! i"] unfolding fe' snd_conv .
    then have "holding a0 src mid cs (insert i S) ?a"
      using del by (simp add: holding_def delete_update update_conv')
    with False fe' show ?thesis by simp
  qed
qed

lemma feed_fragment:
  assumes "is_fragment E nk mid t i chunk d" and "i < t" "t \<le> 255" and "length chunk \<le> MAX_FRAGMENTED_MESSAGE_BYTES"
  shows "feed E a src d nk w =
    (if map_of (fa_pending a) (src, mid) = None then
       (if length (fa_pending a) \<ge> MAX_PENDING_MESSAGES \<or> fst (source_usage a src) \<ge> MAX_PENDING_MESSAGES_PER_SOURCE
        then (Buffered, a, w)
        else
          let m = \<lparr>pm_chunks = replicate t None, pm_started = mono w 0, pm_bytes = 0\<rparr>;
              (r, a') = feed_entry (a\<lparr>fa_pending := AList.update (src, mid) m (fa_pending a)\<rparr>) src mid i t chunk
          in (r, a', snd (instant_now w)))
     else let (r, a') = feed_entry a src mid i t chunk in (r, a', w))"
proof -
  let ?p = "frag_plaintext mid (word_of_nat i) (word_of_nat t) chunk"
  have o: "open_handshake E nk d = Some ?p" using assms(1) by (simp add: is_fragment_def)
  have "7 \<le> length ?p" and "?p \<noteq> []" by (auto simp: frag_plaintext_def)
  moreover have "unat (word_of_nat i :: u8) = i" "unat (word_of_nat t :: u8) = t"
    using assms(2,3) by (simp_all add: unat_u8)
  moreover have "u32_from_be_bytes [?p ! 1, ?p ! 2, ?p ! 3, ?p ! 4] = mid"
    using frag_plaintext_nth(5) [of mid "word_of_nat i" "word_of_nat t" chunk] by simp
  ultimately show ?thesis
    using assms(2,4) unfolding feed_def o
    by (simp add: frag_plaintext_nth Let_def instant_now_def case_prod_beta not_less)
qed

text \<open>Feeding the datagrams of one source, one after the other.\<close>

definition feed_step ::
  "ext \<Rightarrow> SocketAddr \<Rightarrow> bytes \<Rightarrow> FragmentAssembler \<times> world \<Rightarrow> bytes \<Rightarrow> FeedResult \<times> FragmentAssembler \<times> world" where
  "feed_step E src nk aw d = feed E (fst aw) src d nk (snd aw)"

lemma has_room_chunk: "has_room a src cs \<Longrightarrow> i < length cs \<Longrightarrow> length (cs ! i) \<le> MAX_FRAGMENTED_MESSAGE_BYTES"
proof -
  assume r: "has_room a src cs" and i: "i < length cs"
  have "length (cs ! i) \<le> length (concat cs)"
    unfolding length_concat by (rule member_le_sum_list) (use i in auto)
  with r show ?thesis by (auto simp: has_room_def frag_limits)
qed

text \<open>While fragments are missing, everything fed is buffered.\<close>

lemma run_holding:
  assumes inv: "asm_inv a0" and room: "has_room a0 src cs" and len: "length cs \<le> 255"
    and absent: "map_of (fa_pending a0) (src, mid) = None"
    and ds: "\<forall>i<length cs. is_fragment E nk mid (length cs) i (cs ! i) (ds ! i)"
  shows "holding a0 src mid cs S a \<Longrightarrow> set is \<subseteq> {..<length cs} \<Longrightarrow> \<not> {..<length cs} \<subseteq> S \<union> set is \<Longrightarrow>
    \<exists>a' w'. run_outputs (feed_step E src nk) (a, w) (map ((!) ds) is) = (replicate (length is) Buffered, a', w')
      \<and> holding a0 src mid cs (S \<union> set is) a'"
proof (induction "is" arbitrary: S a w)
  case Nil
  then show ?case by simp
next
  case (Cons i "is")
  have i: "i < length cs" using Cons.prems(2) by simp
  have present: "map_of (fa_pending a) (src, mid) \<noteq> None" using Cons.prems(1) by (auto simp: holding_def)
  obtain a1 where f: "feed_entry a src mid i (length cs) (cs ! i) = (Buffered, a1)" and h: "holding a0 src mid cs (insert i S) a1"
    using holding_feed_entry [OF inv Cons.prems(1) room i len absent] Cons.prems(3) by (auto split: if_splits)
  have fs: "feed_step E src nk (a, w) (ds ! i) = (Buffered, a1, w)"
    using feed_fragment [OF ds [rule_format, OF i] i len has_room_chunk [OF room i], of a src w] present f
    by (simp add: feed_step_def)
  from Cons.IH [OF h, of w] Cons.prems(2,3) obtain a' w' where
    "run_outputs (feed_step E src nk) (a1, w) (map ((!) ds) is) = (replicate (length is) Buffered, a', w')"
    "holding a0 src mid cs (insert i S \<union> set is) a'" by auto
  with fs show ?case by auto
qed

lemma holding_start:
  assumes inv: "asm_inv a0" and room: "has_room a0 src cs" and ne: "cs \<noteq> []" and len: "length cs \<le> 255"
    and absent: "map_of (fa_pending a0) (src, mid) = None"
  shows "holding a0 src mid cs {}
    (a0\<lparr>fa_pending := AList.update (src, mid) \<lparr>pm_chunks = replicate (length cs) None, pm_started = now, pm_bytes = 0\<rparr> (fa_pending a0)\<rparr>)"
proof -
  let ?e = "\<lparr>pm_chunks = replicate (length cs) None, pm_started = now, pm_bytes = 0\<rparr>"
  have "chunks_len (replicate n None) = 0" for n by (induction n) (auto simp: chunks_len_def chunk_len_def)
  then have ok: "pending_ok ?e" using len ne by (simp add: pending_ok_def)
  have "asm_inv (a0\<lparr>fa_pending := AList.update (src, mid) ?e (fa_pending a0), fa_buffered_bytes := fa_buffered_bytes a0\<rparr>)"
    using room inv absent by (intro asm_inv_put [OF inv ok]) (auto simp: has_room_def hm_at_def)
  moreover have "(src, mid) \<notin> fst ` set (fa_pending a0)" using absent by (simp add: map_of_eq_None_iff)
  ultimately show ?thesis
    by (simp add: holding_def delete_update hm_sum_absent update_conv' partial_empty)
qed

lemma feed_first:
  assumes inv: "asm_inv a0" and room: "has_room a0 src cs" and len: "length cs \<le> 255" and i: "i < length cs"
    and absent: "map_of (fa_pending a0) (src, mid) = None" and d: "is_fragment E nk mid (length cs) i (cs ! i) d"
  shows "\<exists>a w'. holding a0 src mid cs {} a \<and> feed_step E src nk (a0, w) d =
    (let (r, a') = feed_entry a src mid i (length cs) (cs ! i) in (r, a', w'))"
proof -
  let ?a = "a0\<lparr>fa_pending := AList.update (src, mid) \<lparr>pm_chunks = replicate (length cs) None, pm_started = mono w 0, pm_bytes = 0\<rparr> (fa_pending a0)\<rparr>"
  have "cs \<noteq> []" using i by auto
  from holding_start [OF inv room this len absent] have "holding a0 src mid cs {} ?a" .
  moreover have "feed_step E src nk (a0, w) d =
      (let (r, a') = feed_entry ?a src mid i (length cs) (cs ! i) in (r, a', snd (instant_now w)))"
    using feed_fragment [OF d i len has_room_chunk [OF room i], of a0 src w] absent room
    by (simp add: feed_step_def source_usage_inv [OF inv] has_room_def Let_def)
  ultimately show ?thesis by blast
qed

lemma reassembles:
  assumes inv: "asm_inv a0" and room: "has_room a0 src cs" and len: "length cs \<le> 255"
    and absent: "map_of (fa_pending a0) (src, mid) = None"
    and ds: "\<forall>i<length cs. is_fragment E nk mid (length cs) i (cs ! i) (ds ! i)"
    and "is": "set is \<subseteq> {..<length cs}" "\<not> {..<length cs} \<subseteq> set is" and i: "{..<length cs} \<subseteq> insert i (set is)" "i < length cs"
  shows "\<exists>w'. run_outputs (feed_step E src nk) (a0, w) (map ((!) ds) (is @ [i])) =
    (replicate (length is) Buffered @ [Complete (concat cs)], a0, w')"
proof (cases "is")
  case Nil
  obtain a w' where h: "holding a0 src mid cs {} a" and f: "feed_step E src nk (a0, w) (ds ! i) =
      (let (r, a') = feed_entry a src mid i (length cs) (cs ! i) in (r, a', w'))"
    using feed_first [OF inv room len i(2) absent] ds i(2) by blast
  from holding_feed_entry [OF inv h room i(2) len absent] i(1) Nil
  have "feed_entry a src mid i (length cs) (cs ! i) = (Complete (concat cs), a0)" by simp
  with f Nil show ?thesis by simp
next
  case (Cons j js)
  have j: "j < length cs" and js: "set js \<subseteq> {..<length cs}" "\<not> {..<length cs} \<subseteq> {j} \<union> set js" "\<not> {..<length cs} \<subseteq> {j}"
    using "is" Cons by auto
  obtain a w1 where h: "holding a0 src mid cs {} a" and f: "feed_step E src nk (a0, w) (ds ! j) =
      (let (r, a') = feed_entry a src mid j (length cs) (cs ! j) in (r, a', w1))"
    using feed_first [OF inv room len j absent] ds j by blast
  from holding_feed_entry [OF inv h room j len absent] js(3) obtain a1 where
    f1: "feed_entry a src mid j (length cs) (cs ! j) = (Buffered, a1)" and h1: "holding a0 src mid cs {j} a1"
    by auto
  obtain a2 w2 where r: "run_outputs (feed_step E src nk) (a1, w1) (map ((!) ds) js) = (replicate (length js) Buffered, a2, w2)"
    and h2: "holding a0 src mid cs ({j} \<union> set js) a2"
    using run_holding [OF inv room len absent ds h1 js(1,2)] by blast
  have present: "map_of (fa_pending a2) (src, mid) \<noteq> None" using h2 by (auto simp: holding_def)
  have "feed_entry a2 src mid i (length cs) (cs ! i) = (Complete (concat cs), a0)"
    using holding_feed_entry [OF inv h2 room i(2) len absent] i(1) Cons by simp
  then have "feed_step E src nk (a2, w2) (ds ! i) = (Complete (concat cs), a0, w2)"
    using feed_fragment [OF ds [rule_format, OF i(2)] i(2) len has_room_chunk [OF room i(2)], of a2 src w2] present
    by (simp add: feed_step_def)
  with f f1 r Cons show ?thesis by (simp add: run_outputs_append)
qed

section \<open>Properties\<close>

text \<open>C12. Fragmentation is lossless. If \<open>send_fragmented_with_id\<close> succeeded, then an assembler (after any
  history of its own) that has room and no message under this id receives the datagrams in any
  order and with any duplicates, buffers until the last missing one arrives, and then returns exactly
  the data that was sent and is back in the state it was in before.\<close>

theorem fragments_reassemble:
  assumes "blake3_sized E" "aead_sized E" "aead_correct E"
    and "send_fragmented_with_id E data addr nk max_datagram dst mid w = (Inr (), w')"
    and "outbox w' = outbox w @ map (\<lambda>d. (d, addr)) ds"
    and "a = fold (asm_step E) es FragmentAssembler_new"
    and "has_room a src (message_chunks max_datagram data)" and "map_of (fa_pending a) (src, mid) = None"
    and "set is \<subseteq> {..<length ds}" "\<not> {..<length ds} \<subseteq> set is" "{..<length ds} \<subseteq> insert i (set is)" "i < length ds"
  shows "\<exists>w2. run_outputs (feed_step E src nk) (a, w1) (map ((!) ds) (is @ [i])) =
    (replicate (length is) Buffered @ [Complete data], a, w2)"
proof -
  let ?cs = "message_chunks max_datagram data"
  have inv: "asm_inv a" using asm_run.inv_reachable [of es E] by (simp add: assms(6) list_all_iff)
  have min: "MIN_DATAGRAM \<le> max_datagram"
    using assms(4) by (auto simp: send_fragmented_with_id_def split: if_splits)
  have len: "length ?cs \<le> 255"
    using assms(4) min by (auto simp: send_fragmented_with_id_def message_chunks_facts(2) [OF min] Let_def split: if_splits)
  have s: "send_chunks E nk addr dst mid (length ?cs) 0 ?cs w = (Inr (), w')"
    using send_with_id_sends [OF min len] assms(4) by simp
  have "0 + length ?cs \<le> length ?cs" by simp
  from send_chunks_outbox [OF assms(1-3) this len s]
  obtain ds' where "outbox w' = outbox w @ map (\<lambda>d. (d, addr)) ds'" "length ds' = length ?cs"
    "\<forall>j<length ds'. is_fragment E nk mid (length ?cs) (0 + j) (?cs ! j) (ds' ! j)" by blast
  then have d: "outbox w' = outbox w @ map (\<lambda>d. (d, addr)) ds'" "length ds' = length ?cs"
    "\<forall>j<length ds'. is_fragment E nk mid (length ?cs) j (?cs ! j) (ds' ! j)" by simp_all
  have "map fst (map (\<lambda>d. (d, addr)) ds) = map fst (map (\<lambda>d. (d, addr)) ds')" using d(1) assms(5) by simp
  then have "ds = ds'" by (simp add: comp_def)
  with d have ds: "\<forall>i<length ?cs. is_fragment E nk mid (length ?cs) i (?cs ! i) (ds ! i)" and n: "length ds = length ?cs" by auto
  show ?thesis
    using reassembles [OF inv assms(7) len assms(8) ds] assms(9-12) n message_chunks_facts(1) [OF min, of data] by simp
qed

theorem fragments_reassemble_witness:
  "\<exists>d1 d2 w2. run_outputs (feed_step demo_ext (SocketAddrV4 1 2) [1]) (FragmentAssembler_new, demo_world) [d2, d2, d1] =
    ([Buffered, Buffered, Complete [1, 2, 3]], FragmentAssembler_new, w2)"
proof -
  have cs: "message_chunks 54 [1, 2, 3] = [[1, 2], [3 :: u8]]"
    by (simp add: message_chunks_def packet_lens chunks.simps)
  have ok: "\<forall>k. send_ok demo_world k" by (simp add: demo_world_def)
  obtain r w' where s: "send_fragmented_with_id demo_ext [1, 2, 3] (SocketAddrV4 3 4) [1] 54 0 9 demo_world = (r, w')" by fastforce
  then have s2: "send_chunks demo_ext [1] (SocketAddrV4 3 4) 0 9 2 0 [[1, 2], [3]] demo_world = (r, w')"
    using send_with_id_sends [of 54 "[1, 2, 3]" demo_ext] by (simp add: cs MIN_DATAGRAM_def packet_lens numeral_2_eq_2 [symmetric] del: send_chunks.simps)
  have "0 + length [[1, 2], [3 :: u8]] \<le> 2" "2 \<le> (255 :: nat)" by simp_all
  from send_chunks_outbox [OF demo_blake3 demo_aead(2) demo_aead(1) this s2] ok
  obtain ds where ds: "outbox w' = outbox demo_world @ map (\<lambda>d. (d, SocketAddrV4 3 4)) ds" "r = Inr ()" "length ds = length [[1, 2], [3 :: u8]]"
    by blast
  have "has_room FragmentAssembler_new (SocketAddrV4 1 2) (message_chunks 54 [1, 2, 3])"
    by (simp add: cs has_room_def FragmentAssembler_new_def src_messages_def src_bytes_def frag_limits)
  moreover have "{..<length ds} \<subseteq> insert 0 (set [1, 1])" using ds(3) by (auto simp: less_Suc_eq)
  ultimately have "\<exists>w2. run_outputs (feed_step demo_ext (SocketAddrV4 1 2) [1]) (FragmentAssembler_new, demo_world) (map ((!) ds) ([1, 1] @ [0])) =
      (replicate (length [1, 1 :: nat]) Buffered @ [Complete [1, 2, 3]], FragmentAssembler_new, w2)"
    using ds s
    by (intro fragments_reassemble [OF demo_blake3 demo_aead(2) demo_aead(1), where es = "[]" and w = demo_world and w' = w'])
      (auto simp: FragmentAssembler_new_def)
  then show ?thesis by auto
qed

text \<open>C17. The assembler's memory is bounded whatever arrives: after any sequence of datagrams and
  cleanups, at most 1024 messages and 4 MiB are held, at most 32 messages and 512 KiB per source,
  no message above 512 KiB or 255 chunks, the counter of buffered bytes is exactly the sum of the
  chunks stored, and no complete message is kept.\<close>

theorem assembler_bounded:
  "let a = fold (asm_step E) es FragmentAssembler_new in
     length (fa_pending a) \<le> 1024 \<and> fa_buffered_bytes a \<le> 4194304
   \<and> fa_buffered_bytes a = hm_sum (\<lambda>_ m. chunks_len (pm_chunks m)) (fa_pending a)
   \<and> src_messages src a \<le> 32 \<and> src_bytes src a \<le> 524288
   \<and> list_all (\<lambda>(_, m). pm_bytes m \<le> 524288 \<and> length (pm_chunks m) \<le> 255 \<and> None \<in> set (pm_chunks m)) (fa_pending a)"
proof -
  define a where "a = fold (asm_step E) es FragmentAssembler_new"
  have inv: "asm_inv a" using asm_run.inv_reachable [of es E] by (simp add: a_def list_all_iff)
  then have ok: "\<forall>x\<in>set (fa_pending a). pending_ok (snd x)" by (simp add: asm_inv_def)
  then have "map (\<lambda>(_, m). pm_bytes m) (fa_pending a) = map (\<lambda>(_, m). chunks_len (pm_chunks m)) (fa_pending a)"
    by (auto simp: pending_ok_def)
  then have "hm_sum message_weight (fa_pending a) = hm_sum (\<lambda>_ m. chunks_len (pm_chunks m)) (fa_pending a)"
    unfolding hm_sum_def by (rule arg_cong)
  moreover have "list_all (\<lambda>(_, m). pm_bytes m \<le> 524288 \<and> length (pm_chunks m) \<le> 255 \<and> None \<in> set (pm_chunks m)) (fa_pending a)"
    using ok by (auto simp: list_all_iff pending_ok_def frag_limits)
  ultimately show ?thesis
    unfolding a_def [symmetric] Let_def using inv by (auto simp: asm_inv_def frag_limits)
qed

text \<open>Every datagram that sending a message produces is addressed to the given endpoint and is at
  most \<open>max_datagram\<close> bytes; there are at most 255 of them; a limit that is too small and a message
  that needs more than 255 chunks are refused without sending anything; and if the socket accepts
  everything, nothing is refused that is within the limits.\<close>

lemma send_fragmented_bounds:
  assumes "blake3_sized E" "aead_sized E" "aead_correct E"
    and "send_fragmented_with_id E data addr nk max_datagram dst mid w = (r, w')"
  shows "(\<exists>ds. outbox w' = outbox w @ map (\<lambda>d. (d, addr)) ds \<and> length ds \<le> 255
      \<and> list_all (\<lambda>d. length d \<le> max_datagram) ds)
    \<and> (max_datagram < MIN_DATAGRAM \<or> 255 < length (message_chunks max_datagram data)
         \<longrightarrow> r = Inl InvalidInput \<and> w' = w)
    \<and> (MIN_DATAGRAM \<le> max_datagram \<and> length (message_chunks max_datagram data) \<le> 255 \<and> (\<forall>k. send_ok w k)
         \<longrightarrow> r = Inr ())"
proof (cases "MIN_DATAGRAM \<le> max_datagram \<and> length (message_chunks max_datagram data) \<le> 255")
  case True
  let ?cs = "message_chunks max_datagram data"
  have s: "send_chunks E nk addr dst mid (length ?cs) 0 ?cs w = (r, w')"
    using send_with_id_sends True assms(4) by simp
  obtain ds where d: "outbox w' = outbox w @ map (\<lambda>d. (d, addr)) ds" "length ds \<le> length ?cs"
    "\<forall>j<length ds. is_fragment E nk mid (length ?cs) j (?cs ! j) (ds ! j)" "(\<forall>k. send_ok w k) \<longrightarrow> r = Inr ()"
    using send_chunks_outbox [OF assms(1-3) _ _ s] True by auto
  have "length (ds ! j) \<le> max_datagram" if "j < length ds" for j
    using d(2,3) that message_chunks_facts(3) [of max_datagram "?cs ! j" data] True by (auto simp: is_fragment_def)
  then have "list_all (\<lambda>d. length d \<le> max_datagram) ds" by (simp add: list_all_length)
  with d True show ?thesis by auto
next
  case False
  have "(r, w') = (Inl InvalidInput, w)"
  proof (cases "max_datagram < MIN_DATAGRAM")
    case True
    then show ?thesis using assms(4) by (simp add: send_fragmented_with_id_def)
  next
    case nsmall: False
    with False have "255 < max (div_ceil (length data) (max_datagram - PACKET_OVERHEAD)) 1"
      by (simp add: message_chunks_facts(2))
    then show ?thesis using assms(4) nsmall unfolding send_fragmented_with_id_def Let_def by (simp only: if_True if_False)
  qed
  then have "r = Inl InvalidInput" "w' = w" "outbox w' = outbox w @ map (\<lambda>d. (d, addr)) []" by auto
  with False show ?thesis by (intro conjI exI [of _ "[]"]) auto
qed

end
