(* ===== verification/Config.thy ===== *)
theory Config
  imports Peer Frag_Assembly
begin

text \<open>
  \<open>liteway-core/src/config.rs\<close> and \<open>liteway-core/src/hex_serde.rs\<close>: the configuration with its defaults,
  its validation and the network secret, and the fixed-size hexadecimal fields of key files. Reading
  and writing TOML files is not modelled. The sizes the daemon derives from the configuration
  (\<open>litewayd/src/main.rs\<close>) are here too.
\<close>

section \<open>Definitions\<close>

record LighthouseConfig =
  lc_name :: string
  lc_address :: string

record InterfaceConfig =
  if_name :: string
  mtu :: u16

record AppConfig =
  cfg_listen :: SocketAddr
  ca_cert_path :: string
  node_cert_path :: string
  node_key_path :: string
  cfg_network_secret :: string
  cfg_lighthouses :: "LighthouseConfig list"
  interface :: "InterfaceConfig option"
  cfg_am_lighthouse :: bool
  cfg_am_relay :: bool
  punch_interval_secs :: u64
  keepalive_punch :: bool
  keepalive_timeout_secs :: u64
  relay_fallback_timeout_secs :: u64
  handshake_timeout_secs :: u64
  keepalive_interval_secs :: u64
  direct_probe_interval_secs :: u64

definition default_listen :: SocketAddr where "default_listen = SocketAddrV4 0 0"
definition default_mtu :: u16 where "default_mtu = 1300"
definition InterfaceConfig_default :: InterfaceConfig where
  "InterfaceConfig_default = \<lparr>if_name = ''liteway0'', mtu = 1300\<rparr>"
definition default_punch_interval :: u64 where "default_punch_interval = 10"
definition default_keepalive_punch :: bool where "default_keepalive_punch = True"
definition default_keepalive_timeout :: u64 where "default_keepalive_timeout = 30"
definition default_relay_fallback_timeout :: u64 where "default_relay_fallback_timeout = 5"
definition default_handshake_timeout :: u64 where "default_handshake_timeout = 20"
definition default_keepalive_interval :: u64 where "default_keepalive_interval = 10"
definition default_direct_probe_interval :: u64 where "default_direct_probe_interval = 5"

datatype config_error =
    ZeroValue string
  | TimeoutNotAboveInterval
  | FallbackNotBelowHandshake
  | MtuTooSmall
  | EmptyLighthouseAddress string
  | BadHex
  | BadSecretLength

text \<open>\<open>str::trim\<close> leaves nothing: the string consists of Unicode white space only.\<close>

fun blank :: "bytes \<Rightarrow> bool" where
  "blank [] = True"
| "blank (b # bs) =
     (if 9 \<le> b \<and> b \<le> 13 \<or> b = 32 then blank bs
      else
        case bs of
          c # cs \<Rightarrow>
            if b = 0xC2 \<and> (c = 0x85 \<or> c = 0xA0) then blank cs
            else
              (case cs of
                 d # ds \<Rightarrow>
                   if b = 0xE1 \<and> c = 0x9A \<and> d = 0x80
                     \<or> b = 0xE2 \<and> c = 0x80 \<and> (0x80 \<le> d \<and> d \<le> 0x8A \<or> d = 0xA8 \<or> d = 0xA9 \<or> d = 0xAF)
                     \<or> b = 0xE2 \<and> c = 0x81 \<and> d = 0x9F
                     \<or> b = 0xE3 \<and> c = 0x80 \<and> d = 0x80
                   then blank ds else False
               | [] \<Rightarrow> False)
        | [] \<Rightarrow> False)"

fun check_nonzero :: "(string \<times> u64) list \<Rightarrow> config_error + unit" where
  "check_nonzero [] = Inr ()"
| "check_nonzero ((name, v) # cs) = (if v = 0 then Inl (ZeroValue name) else check_nonzero cs)"

fun check_lighthouses :: "LighthouseConfig list \<Rightarrow> config_error + unit" where
  "check_lighthouses [] = Inr ()"
| "check_lighthouses (l # ls) =
     (if blank (as_bytes (lc_address l)) then Inl (EmptyLighthouseAddress (lc_name l)) else check_lighthouses ls)"

definition validate :: "AppConfig \<Rightarrow> config_error + unit" where
  "validate c =
     rbind (check_nonzero
       [(''punch_interval_secs'', punch_interval_secs c),
        (''keepalive_timeout_secs'', keepalive_timeout_secs c),
        (''keepalive_interval_secs'', keepalive_interval_secs c),
        (''handshake_timeout_secs'', handshake_timeout_secs c),
        (''direct_probe_interval_secs'', direct_probe_interval_secs c),
        (''relay_fallback_timeout_secs'', relay_fallback_timeout_secs c)]) (\<lambda>_.
     if keepalive_timeout_secs c \<le> keepalive_interval_secs c then Inl TimeoutNotAboveInterval
     else if relay_fallback_timeout_secs c \<ge> handshake_timeout_secs c then Inl FallbackNotBelowHandshake
     else if (case interface c of None \<Rightarrow> False | Some i \<Rightarrow> mtu i < 576) then Inl MtuTooSmall
     else check_lighthouses (cfg_lighthouses c))"

definition network_secret :: "ext \<Rightarrow> AppConfig \<Rightarrow> config_error + bytes" where
  "network_secret E c =
     (case hex_decode E (cfg_network_secret c) of
        None \<Rightarrow> Inl BadHex
      | Some bs \<Rightarrow> if length bs \<noteq> 32 then Inl BadSecretLength else Inr bs)"

text \<open>The \<open>hex_serde\<close> module generated for arrays of \<open>n\<close> bytes.\<close>

definition hex_serialize :: "ext \<Rightarrow> bytes \<Rightarrow> string" where
  "hex_serialize E data = hex_encode E data"

definition hex_deserialize :: "ext \<Rightarrow> nat \<Rightarrow> string \<Rightarrow> bytes option" where
  "hex_deserialize E n s =
     (case hex_decode E s of
        None \<Rightarrow> None
      | Some bs \<Rightarrow> if length bs \<noteq> n then None else Some bs)"

definition config_timings :: "AppConfig \<Rightarrow> Timings" where
  "config_timings c =
     Timings_from_secs (keepalive_interval_secs c) (keepalive_timeout_secs c) (direct_probe_interval_secs c)
       (handshake_timeout_secs c) (relay_fallback_timeout_secs c)"

definition ip_udp_overhead :: "SocketAddr \<Rightarrow> nat" where
  "ip_udp_overhead listen = (if is_ipv6 listen then 48 else 28)"

definition udp_payload_limit :: "AppConfig \<Rightarrow> SocketAddr \<Rightarrow> nat" where
  "udp_payload_limit c listen =
     (case interface c of
        None \<Rightarrow> DEFAULT_MAX_DATAGRAM
      | Some i \<Rightarrow>
          let mtu_payload = saturating_sub (unat (mtu i)) (ip_udp_overhead listen)
          in min (max mtu_payload MIN_DATAGRAM) DEFAULT_MAX_DATAGRAM)"

text \<open>\<open>warn_on_oversized_mtu\<close>: the MTU its warning recommends, \<open>None\<close> when it is silent.\<close>

definition warn_on_oversized_mtu :: "AppConfig \<Rightarrow> SocketAddr \<Rightarrow> nat option" where
  "warn_on_oversized_mtu c listen =
     (case interface c of
        None \<Rightarrow> None
      | Some i \<Rightarrow>
          let datagram = unat (mtu i) + PACKET_OVERHEAD + ip_udp_overhead listen
          in if datagram > 1500 then Some (1500 - PACKET_OVERHEAD - ip_udp_overhead listen) else None)"

definition tun_poll_backoff :: "u32 \<Rightarrow> duration" where
  "tun_poll_backoff idle_reads =
     (if idle_reads \<le> 64 then from_micros 200 else if idle_reads \<le> 320 then from_millis 1 else from_millis 10)"

section \<open>Lemmas\<close>

lemma check_nonzero_iff: "check_nonzero cs = Inr () \<longleftrightarrow> (\<forall>(n, v)\<in>set cs. v \<noteq> 0)"
  by (induction cs) (auto split: if_splits)

lemma check_lighthouses_iff: "check_lighthouses ls = Inr () \<longleftrightarrow> (\<forall>l\<in>set ls. \<not> blank (as_bytes (lc_address l)))"
  by (induction ls) auto

lemma validate_iff:
  "validate c = Inr () \<longleftrightarrow>
     punch_interval_secs c \<noteq> 0 \<and> direct_probe_interval_secs c \<noteq> 0
   \<and> 0 < keepalive_interval_secs c \<and> keepalive_interval_secs c < keepalive_timeout_secs c
   \<and> 0 < relay_fallback_timeout_secs c \<and> relay_fallback_timeout_secs c < handshake_timeout_secs c
   \<and> pred_option (\<lambda>i. 576 \<le> mtu i) (interface c)
   \<and> list_all (\<lambda>l. \<not> blank (as_bytes (lc_address l))) (cfg_lighthouses c)"
proof -
  have "v < u \<Longrightarrow> u \<noteq> 0" for u v :: u64 by auto
  then show ?thesis
    unfolding validate_def rbind_eq_Inr check_nonzero_iff
    by (auto simp: check_lighthouses_iff list_all_iff word_neq_0_conv not_le not_less split: option.splits if_splits)
qed

section \<open>Properties\<close>

text \<open>A configuration that passes validation disables no subsystem. For an accepted
  one: every interval is positive, a keepalive is retried at least once before its timeout (the retry
  interval is below the timeout), there is a moment at which a handshake to a known peer falls back to
  a relay before it expires, and the datagram limit leaves room for at least one byte of every
  fragment and never exceeds 1200.\<close>

lemma validated_config:
  assumes "validate c = Inr ()"
  shows "0 < keepalive_interval (config_timings c) \<and> 0 < direct_probe_interval (config_timings c)
    \<and> min (keepalive_interval (config_timings c)) KEEPALIVE_RETRY_MAX < keepalive_timeout (config_timings c)
    \<and> (\<exists>t. relay_fallback_due (PendingHandshake_new ini direct (Some pid) name now) (now + t) (config_timings c)
         \<and> \<not> expired (PendingHandshake_new ini direct (Some pid) name now) (now + t) (config_timings c))
    \<and> MIN_DATAGRAM \<le> udp_payload_limit c listen \<and> udp_payload_limit c listen \<le> DEFAULT_MAX_DATAGRAM"
proof -
  have v: "0 < keepalive_interval_secs c" "keepalive_interval_secs c < keepalive_timeout_secs c" "direct_probe_interval_secs c \<noteq> 0"
      "relay_fallback_timeout_secs c < handshake_timeout_secs c"
    using assms by (auto simp: validate_iff)
  have mono: "from_secs a < from_secs b" if "a < b" for a b using that by (simp add: from_secs_def)
  have "keepalive_interval (config_timings c) < keepalive_timeout (config_timings c)"
    and fall: "relay_fallback (config_timings c) < handshake_timeout (config_timings c)"
    using v(2,4) by (simp_all add: config_timings_def Timings_from_secs_def mono word_less_nat_alt)
  moreover have "0 < keepalive_interval (config_timings c)" "0 < direct_probe_interval (config_timings c)"
    using v(1,3) by (simp_all add: config_timings_def Timings_from_secs_def from_secs_def word_less_nat_alt unat_gt_0)
  moreover have "relay_fallback_due (PendingHandshake_new ini direct (Some pid) name now) (now + relay_fallback (config_timings c)) (config_timings c)
      \<and> \<not> expired (PendingHandshake_new ini direct (Some pid) name now) (now + relay_fallback (config_timings c)) (config_timings c)"
    using fall by (simp add: relay_fallback_due_def expired_def PendingHandshake_new_def)
  moreover have "MIN_DATAGRAM \<le> udp_payload_limit c listen \<and> udp_payload_limit c listen \<le> DEFAULT_MAX_DATAGRAM"
    by (simp add: udp_payload_limit_def MIN_DATAGRAM_def DEFAULT_MAX_DATAGRAM_def packet_lens Let_def split: option.split)
  ultimately show ?thesis by (auto simp: min_less_iff_disj)
qed

definition demo_config :: AppConfig where
  "demo_config =
     \<lparr>cfg_listen = default_listen, ca_cert_path = [], node_cert_path = [], node_key_path = [],
      cfg_network_secret = ''00'', cfg_lighthouses = [\<lparr>lc_name = ''lh'', lc_address = ''10.1.1.1:7''\<rparr>],
      interface = Some \<lparr>if_name = ''lw0'', mtu = 1420\<rparr>, cfg_am_lighthouse = False, cfg_am_relay = False,
      punch_interval_secs = default_punch_interval, keepalive_punch = True,
      keepalive_timeout_secs = default_keepalive_timeout, relay_fallback_timeout_secs = default_relay_fallback_timeout,
      handshake_timeout_secs = default_handshake_timeout, keepalive_interval_secs = default_keepalive_interval,
      direct_probe_interval_secs = default_direct_probe_interval\<rparr>"

lemma demo_config_valid: "validate demo_config = Inr ()"
  by (simp add: validate_iff demo_config_def default_punch_interval_def default_keepalive_timeout_def
      default_relay_fallback_timeout_def default_handshake_timeout_def default_keepalive_interval_def
      default_direct_probe_interval_def as_bytes_def)

text \<open>C38. The MTU warning under-counts. With an interface MTU of 1420 and an IPv4 socket the check is
  silent, and 1420 is the value its message recommends for staying under a 1500-byte path MTU; but
  every full-size packet of that tunnel is sent as a UDP datagram that makes an IP packet of more than
  1500 bytes, because the body adds 13 bytes of framing and up to 31 of padding that the check leaves
  out.\<close>

theorem mtu_warning_misses:
  assumes "blake3_sized E" and "aead_sized E" and "interface c = Some i" and "mtu i = 1420" and "\<not> is_ipv6 listen"
    and "length ipp = 1420" and "encrypt_data_packet E sq dst sid ipp nk sk w = (pkt, w')"
  shows "warn_on_oversized_mtu c listen = None
    \<and> 1500 - PACKET_OVERHEAD - ip_udp_overhead listen = 1420
    \<and> 1500 < length (serialize_packet pkt) + ip_udp_overhead listen"
proof -
  obtain padded w1 where pad: "add_random_padding (body_bytes E (Data sq ipp)) w = (padded, w1)"
    and s: "seal E KIND_DATA dst sid nk sk padded w1 = (pkt, w')"
    using encrypt_body_seal [of E dst sid "Data sq ipp" nk sk w pkt w'] assms(7) by (auto simp: encrypt_body_def)
  obtain p where "padded = body_bytes E (Data sq ipp) @ p" using add_random_padding_prefix [OF pad] by blast
  with length_serialize_seal [OF assms(1,2) s] assms(6)
  have "1420 + 13 + PACKET_OVERHEAD \<le> length (serialize_packet pkt)" by (simp add: put_vec_u32_def)
  with assms(3-5) show ?thesis
    by (simp add: warn_on_oversized_mtu_def ip_udp_overhead_def packet_lens)
qed

theorem mtu_warning_misses_witness:
  "warn_on_oversized_mtu demo_config (SocketAddrV4 0 0) = None
   \<and> 1500 < length (serialize_packet (fst (encrypt_data_packet demo_ext 1 2 3 (replicate 1420 0) [1] [2] demo_world))) + 28"
  using mtu_warning_misses [OF demo_blake3 demo_aead(2) _ _ _ _ prod.collapse [symmetric],
      where c = demo_config and i = "\<lparr>if_name = ''lw0'', mtu = 1420\<rparr>" and listen = "SocketAddrV4 0 0" and sq = 1 and dst = 2
        and sid = 3 and ipp = "replicate 1420 0" and nk = "[1]" and sk = "[2]" and w = demo_world]
  by (simp add: demo_config_def ip_udp_overhead_def)

end
