(* ===== verification/CertRoutes.thy ===== *)
theory CertRoutes
  imports HsCache Config
begin

text \<open>
  The helpers of \<open>litewayd/src/main.rs\<close> that turn certificates into identities and routes and look into
  IP packets, the address parsing of \<open>liteway-net\<close>, and the checks of \<open>liteway-cert\<close> on a node's address.
  Networks are values of the external crate \<open>ipnetwork\<close>; its operations are parameters.
\<close>

unbundle bit_operations_syntax

section \<open>Definitions\<close>

definition ROUTE_ALL_GRANT :: string where "ROUTE_ALL_GRANT = ''route:*''"
definition ROUTE_GRANT_PREFIX :: string where "ROUTE_GRANT_PREFIX = ''route:''"

definition node_id_from_cert :: "ext \<Rightarrow> Cert \<Rightarrow> u32" where
  "node_id_from_cert E cert =
     (let h = blake3_hash E (as_bytes ''liteway-node-id-v1'' @ ed25519_pk (keys (body cert)) @ ml_dsa_pk (keys (body cert)))
      in u32_from_be_bytes (take 4 h))"

definition random_token :: "world \<Rightarrow> u64 \<times> world" where
  "random_token w = (let (bs, w') = fill_bytes 8 w in (u64_from_be_bytes bs, w'))"

definition host_route :: "ext \<Rightarrow> string \<Rightarrow> IpNetwork option" where
  "host_route E addr = do {
     network \<leftarrow> net_parse E addr;
     case net_ip network of
       V4 ip \<Rightarrow> net_new E (V4 ip) 32
     | V6 ip \<Rightarrow> net_new E (V6 ip) 128
   }"

definition primary_cert_ip :: "ext \<Rightarrow> Cert \<Rightarrow> IpAddr option" where
  "primary_cert_ip E cert = do {
     addrs \<leftarrow> addresses (body cert);
     network \<leftarrow> net_parse E (addr_ip addrs);
     Some (net_ip network)
   }"

fun host_prefix :: "IpAddr \<Rightarrow> u8" where
  "host_prefix (V4 _) = 32"
| "host_prefix (V6 _) = 128"

text \<open>\<open>None\<close> is an error; \<open>Some None\<close> that the address gives no route.\<close>

definition discovery_route_from_interface_addr :: "ext \<Rightarrow> string \<Rightarrow> IpNetwork option option" where
  "discovery_route_from_interface_addr E addr = do {
     network \<leftarrow> net_parse E addr;
     if net_prefix network = 0 \<or> net_prefix network \<ge> host_prefix (net_ip network) then Some None
     else do {
       r \<leftarrow> net_new E (net_network E network) (net_prefix network);
       Some (Some r)
     }
   }"

definition is_default_route :: "IpNetwork \<Rightarrow> bool" where
  "is_default_route route = (net_prefix route = 0)"

fun strip_prefix :: "string \<Rightarrow> string \<Rightarrow> string option" where
  "strip_prefix [] s = Some s"
| "strip_prefix (p # ps) [] = None"
| "strip_prefix (p # ps) (c # cs) = (if p = c then strip_prefix ps cs else None)"

definition grants :: "ext \<Rightarrow> IpNetwork \<Rightarrow> string \<Rightarrow> bool" where
  "grants E route grp =
     (if grp = ROUTE_ALL_GRANT then True
      else
        case strip_prefix ROUTE_GRANT_PREFIX grp of
          None \<Rightarrow> False
        | Some grant \<Rightarrow>
            (case net_parse E grant of
               None \<Rightarrow> False
             | Some granted \<Rightarrow> net_contains E granted (net_ip route) \<and> net_prefix granted \<le> net_prefix route))"

definition route_granted_by_cert :: "ext \<Rightarrow> Cert \<Rightarrow> IpNetwork \<Rightarrow> bool" where
  "route_granted_by_cert E cert route = list_ex (grants E route) (groups (meta (body cert)))"

text \<open>What the loop of \<open>authorized_peer_routes\<close> pushes for one advertised subnet.\<close>

definition subnet_route :: "ext \<Rightarrow> Cert \<Rightarrow> string \<Rightarrow> IpNetwork list" where
  "subnet_route E cert subnet =
     (case net_parse E subnet of
        None \<Rightarrow> []
      | Some route \<Rightarrow>
          if is_default_route route then []
          else if \<not> route_granted_by_cert E cert route then []
          else [route])"

definition authorized_peer_routes :: "ext \<Rightarrow> Cert \<Rightarrow> IpNetwork list" where
  "authorized_peer_routes E cert =
     (case addresses (body cert) of
        None \<Rightarrow> []
      | Some addrs \<Rightarrow>
          let rs = (case host_route E (addr_ip addrs) of None \<Rightarrow> [] | Some r \<Rightarrow> [r])
                @ concat (map (subnet_route E cert) (subnets addrs))
          in remdups_adj (sort_key (\<lambda>r. (net_ip r, net_prefix r)) rs))"

fun packet_seq :: "PacketBody \<Rightarrow> u64" where
  "packet_seq (Data s _) = s"
| "packet_seq (RelayForward s _ _) = s"
| "packet_seq (Disconnect s) = s"
| "packet_seq (LighthouseQuery s _) = s"
| "packet_seq (LighthouseResponse s _ _ _ _ _) = s"
| "packet_seq (LighthouseNotFound s _) = s"
| "packet_seq (Keepalive s _) = s"
| "packet_seq (KeepaliveAck s _) = s"

definition parse_source_ip :: "bytes \<Rightarrow> IpAddr option" where
  "parse_source_ip pkt =
     (case pkt of
        [] \<Rightarrow> None
      | b # _ \<Rightarrow>
          let version = drop_bit 4 b
          in if version = 4 \<and> 20 \<le> length pkt then Some (V4 (u32_from_be_bytes (take 4 (drop 12 pkt))))
             else if version = 6 \<and> 40 \<le> length pkt then Some (V6 (u128_from_be_bytes (take 16 (drop 8 pkt))))
             else None)"

definition parse_dest_ip :: "bytes \<Rightarrow> IpAddr option" where
  "parse_dest_ip pkt =
     (case pkt of
        [] \<Rightarrow> None
      | b # _ \<Rightarrow>
          let version = drop_bit 4 b
          in if version = 4 \<and> 20 \<le> length pkt then Some (V4 (u32_from_be_bytes (take 4 (drop 16 pkt))))
             else if version = 6 \<and> 40 \<le> length pkt then Some (V6 (u128_from_be_bytes (take 16 (drop 24 pkt))))
             else None)"

definition peer_allows_ip_packet_source :: "ext \<Rightarrow> PeerState \<Rightarrow> bytes \<Rightarrow> bool" where
  "peer_allows_ip_packet_source E peer pkt =
     (case parse_source_ip pkt of
        None \<Rightarrow> False
      | Some src \<Rightarrow> list_ex (\<lambda>route. net_contains E route src) (ps_routes peer))"

definition is_link_local :: "IpAddr \<Rightarrow> bool" where
  "is_link_local ip = std_is_link_local ip"

definition is_overlay_broadcast :: "ext \<Rightarrow> IpAddr \<Rightarrow> IpNetwork list \<Rightarrow> bool" where
  "is_overlay_broadcast E ip overlay_networks =
     (case ip of
        V6 _ \<Rightarrow> False
      | V4 dst \<Rightarrow>
          list_ex (\<lambda>network.
            case net_network E network of
              V6 _ \<Rightarrow> False
            | V4 network_ip \<Rightarrow>
                if net_prefix network \<ge> 32 then False
                else dst = network_ip OR drop_bit (unat (net_prefix network)) (- 1)) overlay_networks)"

text \<open>\<open>liteway-net\<close> and \<open>liteway-cert\<close>.\<close>

definition parse_addr :: "ext \<Rightarrow> string \<Rightarrow> io_error + (IpAddr \<times> u8)" where
  "parse_addr E addr =
     (case net_parse E addr of None \<Rightarrow> Inl InvalidInput | Some n \<Rightarrow> Inr (net_ip n, net_prefix n))"

definition linux_parse_subnet :: "ext \<Rightarrow> string \<Rightarrow> io_error + (IpAddr \<times> u8)" where
  "linux_parse_subnet E subnet =
     (case net_parse E subnet of None \<Rightarrow> Inl InvalidInput | Some n \<Rightarrow> Inr (net_ip n, net_prefix n))"

definition windows_parse_subnet :: "ext \<Rightarrow> string \<Rightarrow> io_error + (u32 \<times> u8)" where
  "windows_parse_subnet E subnet =
     (case net_parse E subnet of
        None \<Rightarrow> Inl InvalidInput
      | Some n \<Rightarrow> (case net_ip n of V4 ip \<Rightarrow> Inr (ip, net_prefix n) | V6 _ \<Rightarrow> Inl InvalidInput))"

datatype cidr_error = NoPrefix | UnparsableCidr | BreaksDiscovery

definition validate_node_ip_cidr :: "ext \<Rightarrow> string \<Rightarrow> cidr_error + unit" where
  "validate_node_ip_cidr E ip =
     (if CHR ''/'' \<notin> set ip then Inl NoPrefix
      else
        case net_parse E ip of
          None \<Rightarrow> Inl UnparsableCidr
        | Some network \<Rightarrow>
            if net_prefix network = 0 \<or> net_prefix network \<ge> host_prefix (net_ip network)
            then Inl BreaksDiscovery else Inr ())"

definition generate_network_secret :: "ext \<Rightarrow> world \<Rightarrow> string \<times> world" where
  "generate_network_secret E w = (let (seed, w') = fill_bytes 32 w in (hex_encode E seed, w'))"

section \<open>Lemmas\<close>

lemma remdups_adj_sorted_distinct: "sorted xs \<Longrightarrow> distinct (remdups_adj xs)"
  for xs :: "'a::linorder list"
proof (induction xs rule: remdups_adj.induct)
  case (3 x y xs)
  then show ?case by (auto simp: less_le)
qed simp_all

text \<open>The key \<open>(ip, prefix)\<close> is the whole network.\<close>

lemma net_key_inj: "inj (\<lambda>r. (net_ip r, net_prefix r))"
  by (rule injI) (metis IpNetwork.collapse Pair_inject)

lemma remdups_adj_map_inj: "inj f \<Longrightarrow> map f (remdups_adj xs) = remdups_adj (map f xs)"
  by (induction xs rule: remdups_adj.induct) (auto dest: injD)

lemma random_token_draws: "random_token w = (t, w') \<Longrightarrow> draws w w'"
  by (auto simp: random_token_def split: prod.splits intro: draws_fill)

lemma authorized_set:
  "r \<in> set (authorized_peer_routes E cert) \<longleftrightarrow>
     (\<exists>addrs. addresses (body cert) = Some addrs
       \<and> (host_route E (addr_ip addrs) = Some r
         \<or> (\<exists>s\<in>set (subnets addrs). net_parse E s = Some r \<and> net_prefix r \<noteq> 0 \<and> route_granted_by_cert E cert r)))"
proof (cases "addresses (body cert)")
  case None
  then show ?thesis by (simp add: authorized_peer_routes_def)
next
  case (Some addrs)
  have "r \<in> set (subnet_route E cert s) \<longleftrightarrow> net_parse E s = Some r \<and> net_prefix r \<noteq> 0 \<and> route_granted_by_cert E cert r" for s
    by (auto simp: subnet_route_def is_default_route_def split: option.splits if_splits)
  with Some show ?thesis
    by (auto simp: authorized_peer_routes_def Let_def split: option.splits)
qed

lemma authorized_sorted:
  "sorted (map (\<lambda>r. (net_ip r, net_prefix r)) (authorized_peer_routes E cert)) \<and> distinct (authorized_peer_routes E cert)"
proof -
  let ?f = "\<lambda>r. (net_ip r, net_prefix r)"
  have "sorted (map ?f (remdups_adj (sort_key ?f rs))) \<and> distinct (remdups_adj (sort_key ?f rs))" for rs
  proof -
    have m: "map ?f (remdups_adj (sort_key ?f rs)) = remdups_adj (map ?f (sort_key ?f rs))"
      by (rule remdups_adj_map_inj [OF net_key_inj])
    have s: "sorted (map ?f (sort_key ?f rs))" by (rule sorted_sort_key)
    then have "distinct (map ?f (remdups_adj (sort_key ?f rs)))" unfolding m by (rule remdups_adj_sorted_distinct)
    moreover have "sorted (map ?f (remdups_adj (sort_key ?f rs)))" unfolding m using s by (rule sorted_remdups_adj)
    ultimately show ?thesis by (simp add: distinct_map)
  qed
  then show ?thesis by (simp add: authorized_peer_routes_def Let_def split: option.split)
qed

text \<open>What \<open>IpNetwork::new\<close> documents: a prefix that is not longer than the address is accepted. And
  the network address of a network is of the same family.\<close>

definition ipnetwork_ok :: "ext \<Rightarrow> bool" where
  "ipnetwork_ok E \<longleftrightarrow> (\<forall>a p. p \<le> host_prefix a \<longrightarrow> net_new E a p = Some (IpNetwork a p))
     \<and> (\<forall>n. host_prefix (net_network E n) = host_prefix (net_ip n))"

section \<open>Properties\<close>

text \<open>C37. A certificate authorizes exactly its own host address and those of its advertised subnets that
  parse, are not default routes and are covered by one of its route grants; the routes a daemon
  installs for a peer are exactly these, sorted by address and prefix and without repetition.\<close>

theorem authorized_routes_exact:
  "(r \<in> set (authorized_peer_routes E cert) \<longleftrightarrow>
     (\<exists>addrs. addresses (body cert) = Some addrs
       \<and> (host_route E (addr_ip addrs) = Some r
         \<or> list_ex (\<lambda>s. net_parse E s = Some r \<and> \<not> is_default_route r \<and> route_granted_by_cert E cert r) (subnets addrs))))
   \<and> sorted (map (\<lambda>r. (net_ip r, net_prefix r)) (authorized_peer_routes E cert))
   \<and> distinct (authorized_peer_routes E cert)"
  using authorized_sorted [of E cert] by (auto simp: authorized_set list_ex_iff is_default_route_def)

text \<open>The certificate tool and the daemon agree on node addresses: an address the tool accepts when
  it issues a certificate gives the daemon a discovery route when it brings up its interface.\<close>

lemma validated_address_discovers:
  assumes "ipnetwork_ok E" and "validate_node_ip_cidr E ip = Inr ()"
  shows "\<exists>r. discovery_route_from_interface_addr E ip = Some (Some r) \<and> net_prefix r \<noteq> 0"
proof -
  obtain n where n: "net_parse E ip = Some n" "net_prefix n \<noteq> 0" "net_prefix n < host_prefix (net_ip n)"
    using assms(2) by (auto simp: validate_node_ip_cidr_def not_le split: option.splits if_splits)
  then have "net_new E (net_network E n) (net_prefix n) = Some (IpNetwork (net_network E n) (net_prefix n))"
    using assms(1) by (auto simp: ipnetwork_ok_def)
  with n show ?thesis by (auto simp: discovery_route_from_interface_addr_def)
qed

lemma demo_ipnetwork: "ipnetwork_ok demo_ext"
proof -
  have "net_new demo_ext = demo_net_new" "net_network demo_ext = (\<lambda>n. demo_mask (net_ip n) (net_prefix n))"
    by (simp_all add: demo_ext_def)
  then show ?thesis
    by (auto simp: ipnetwork_ok_def demo_net_new_def demo_mask_def word_le_nat_alt split: IpAddr.splits)
qed

lemma demo_net_parse_host: "net_parse demo_ext ''10.0.0.2/24'' = Some (IpNetwork (V4 0x0A000002) 24)"
proof -
  have "net_parse demo_ext = demo_net_parse" by (simp add: demo_ext_def)
  moreover have "demo_net_parse ''10.0.0.2/24'' = Some (IpNetwork (V4 0x0A000002) 24)"
    by (simp add: demo_net_parse_def IpAddr_parse_def parse_with_def read_ip_addr_def read_ipv4_addr_def
        read_octet_def read_separator_def read_number_def to_digit_def demo_net_new_def Let_def)
  ultimately show ?thesis by simp
qed

end
