(* ===== verification/Node.thy ===== *)
theory Node
  imports CertRoutes Frag
begin

text \<open>
  \<open>Node\<close> of \<open>litewayd/src/main.rs\<close>: the state shared by the daemon's threads and the operations on it,
  up to the maintenance of peers; the receive path is in \<open>Node_Recv\<close>. An operation takes the node and
  the world and returns both updated. Every operation runs as a unit here; the sources take one lock at
  a time and release it before the next, so another thread may come in between, which is the subject
  of \<open>Threads\<close>. What the other threads do after a panic, when they find the lock of the peers poisoned, is not modelled. Log lines and
  the \<open>reason\<close> and \<open>what\<close> arguments that only feed them are dropped.

  A \<open>HashMap\<close> is an association list, in an arbitrary but fixed order; the sources iterate over it in
  an unspecified order, and no theorem depends on it.
\<close>

section \<open>State\<close>

definition DISCOVERY_RETRY :: duration where "DISCOVERY_RETRY = from_secs 10"
definition DISCOVERY_ENTRY_TTL :: duration where "DISCOVERY_ENTRY_TTL = from_secs 120"
definition LIGHTHOUSE_RERESOLVE :: duration where "LIGHTHOUSE_RERESOLVE = from_secs 60"

datatype AddPeerOutcome = Added | KeptExisting

record Node =
  n_our_id :: u32
  n_cert :: Cert
  n_signing_key :: NodeSigningSecretKey
  n_ca_vk :: CaVerifyKey
  n_network_key :: bytes
  n_max_datagram :: nat
  n_am_lighthouse :: bool
  n_am_relay :: bool
  n_keepalive_enabled :: bool
  n_timings :: Timings
  n_iface_name :: "string option"
  n_local_networks :: "IpNetwork list"
  n_peers :: "(u32, PeerState) hashmap"
  n_pending :: "(u32, PendingHandshake) hashmap"
  n_routes :: RouteTable
  n_rx_sessions :: "(u32, u32) hashmap"
  n_lighthouses :: "LighthouseSlot list"
  n_handshake_cache :: HandshakeCache
  n_discovery_pending :: "(IpAddr, instant) hashmap"
  n_running :: bool
  n_shutdown :: bool

record PeerTx =
  tx_addr :: SocketAddr
  tx_seq :: u64
  tx_session_id :: u32
  tx_key :: bytes

abbreviation peer_of :: "Node \<Rightarrow> u32 \<Rightarrow> PeerState option" where
  "peer_of n \<equiv> map_of (n_peers n)"

definition put_peer :: "u32 \<Rightarrow> PeerState \<Rightarrow> Node \<Rightarrow> Node" where
  "put_peer pid p n = n\<lparr>n_peers := AList.update pid p (n_peers n)\<rparr>"

section \<open>Transport\<close>

definition send_wire :: "bytes \<Rightarrow> SocketAddr \<Rightarrow> world \<Rightarrow> world" where
  "send_wire wire addr w = snd (send_to wire addr w)"

definition send_message_with_id :: "ext \<Rightarrow> Node \<Rightarrow> bytes \<Rightarrow> SocketAddr \<Rightarrow> u32 \<Rightarrow> u32 \<Rightarrow> world \<Rightarrow> bool \<times> world" where
  "send_message_with_id E n m addr dst mid w =
     (case send_fragmented_with_id E m addr (n_network_key n) (n_max_datagram n) dst mid w of
        (Inr _, w') \<Rightarrow> (True, w')
      | (Inl _, w') \<Rightarrow> (False, w'))"

definition send_message :: "ext \<Rightarrow> Node \<Rightarrow> bytes \<Rightarrow> SocketAddr \<Rightarrow> u32 \<Rightarrow> world \<Rightarrow> bool \<times> world" where
  "send_message E n m addr dst w =
     (let (mid, w') = random_u32 w in send_message_with_id E n m addr dst mid w')"

definition peer_tx :: "Node \<Rightarrow> u32 \<Rightarrow> (PeerTx \<times> Node) option" where
  "peer_tx n pid =
     (case peer_of n pid of
        None \<Rightarrow> None
      | Some p \<Rightarrow>
          let (s, p') = next_seq p
          in Some (\<lparr>tx_addr = ps_addr p, tx_seq = s, tx_session_id = ps_tx_session_id p, tx_key = ps_tx_key p\<rparr>,
                   put_peer pid p' n))"

section \<open>Handshakes and peers\<close>

definition handshake_duplicate :: "SocketAddr \<Rightarrow> u32 option \<Rightarrow> PendingHandshake \<Rightarrow> bool" where
  "handshake_duplicate addr pid p =
     (case (ph_peer_id p, pid) of
        (Some existing, Some wanted) \<Rightarrow> existing = wanted
      | _ \<Rightarrow> ph_direct_addr p = addr)"

definition start_handshake ::
  "ext \<Rightarrow> Node \<Rightarrow> SocketAddr \<Rightarrow> u32 option \<Rightarrow> string \<Rightarrow> world \<Rightarrow> (bool \<times> Node \<times> world) option" where
  "start_handshake E n addr pid name w =
     (if list_ex (\<lambda>(_, p). handshake_duplicate addr pid p) (n_pending n) then Some (False, n, w)
      else do {
        (initiate, w) \<leftarrow> create_handshake_1 E (n_cert n) (n_signing_key n) (n_network_key n) (n_am_relay n) w;
        let sid = hi_my_rx_session_id initiate;
        let (sent, w) = send_message_with_id E n (hi_msg initiate) addr (case pid of None \<Rightarrow> 0 | Some i \<Rightarrow> i) sid w;
        if \<not> sent then Some (False, n, w)
        else do {
          let (now, w) = instant_now w;
          Some (True, n\<lparr>n_pending := AList.update sid (PendingHandshake_new initiate addr pid name now) (n_pending n)\<rparr>, w)
        }
      })"

definition bind_lighthouse :: "SocketAddr \<Rightarrow> string \<Rightarrow> u32 \<Rightarrow> Node \<Rightarrow> Node" where
  "bind_lighthouse addr name pid n =
     n\<lparr>n_lighthouses := map (\<lambda>l. if ls_address l = addr \<or> ls_name l = name then l\<lparr>ls_peer_id := Some pid\<rparr> else l)
         (n_lighthouses n)\<rparr>"

definition log_routes :: "ext \<Rightarrow> (string \<Rightarrow> string \<Rightarrow> route_cmd) \<Rightarrow> string option \<Rightarrow> IpNetwork list \<Rightarrow> world \<Rightarrow> world" where
  "log_routes E cmd iface rs w =
     (case iface of
        None \<Rightarrow> w
      | Some name \<Rightarrow> fold (\<lambda>r. log_route (cmd (net_to_string E r) name)) rs w)"

text \<open>The \<open>PeerState\<close> that \<open>add_peer\<close> inserts.\<close>

definition new_peer ::
  "ext \<Rightarrow> Node \<Rightarrow> u32 \<Rightarrow> bytes \<Rightarrow> Cert \<Rightarrow> SocketAddr \<Rightarrow> SocketAddr option \<Rightarrow> bool \<Rightarrow> bool \<Rightarrow> u32 \<Rightarrow> u32 \<Rightarrow> u32
   \<Rightarrow> instant \<Rightarrow> PeerState" where
  "new_peer E n pid session_key cert addr direct_addr relayed is_relay tx_sid rx_sid initiator_id now =
     (let direct = (case direct_addr of Some a \<Rightarrow> Some a | None \<Rightarrow> Option.bind (peer_of n pid) ps_direct_addr)
      in \<lparr>ps_name = meta_name (meta (body cert)), ps_cert = cert,
          ps_tx_key = derive_traffic_key E session_key (n_our_id n) pid,
          ps_rx_key = derive_traffic_key E session_key pid (n_our_id n),
          ps_addr = addr, ps_direct_addr = direct, ps_is_relay = is_relay,
          ps_tx_session_id = tx_sid, ps_rx_session_id = rx_sid, ps_tx_seq = 0,
          ps_rx_replay = ReplayWindow_new, ps_last_seen = now, ps_last_ack = now,
          ps_routes = authorized_peer_routes E cert,
          ps_handshake_initiator_id = initiator_id, ps_keepalive = None,
          ps_relayed = (relayed \<and> direct \<noteq> Some addr), ps_next_probe = None,
          ps_probe_interval = direct_probe_interval (n_timings n), ps_probe_token = None\<rparr>)"

definition add_peer ::
  "ext \<Rightarrow> Node \<Rightarrow> u32 \<Rightarrow> bytes \<Rightarrow> Cert \<Rightarrow> SocketAddr \<Rightarrow> SocketAddr option \<Rightarrow> bool \<Rightarrow> bool \<Rightarrow> u32 \<Rightarrow> u32 \<Rightarrow> u32 \<Rightarrow> bool
   \<Rightarrow> world \<Rightarrow> AddPeerOutcome \<times> Node \<times> world" where
  "add_peer E n pid session_key cert addr direct_addr relayed is_relay tx_sid rx_sid initiator_id simultaneous w =
     (let rs = authorized_peer_routes E cert;
          (now, w1) = instant_now w;
          previous = peer_of n pid
      in if \<not> accept_handshake_session (n_our_id n) pid (map_option ps_handshake_initiator_id previous) initiator_id simultaneous
         then (KeptExisting, n, w1)
         else
           let p = new_peer E n pid session_key cert addr direct_addr relayed is_relay tx_sid rx_sid initiator_id now;
               n1 = put_peer pid p n;
               sessions = (case previous of
                   None \<Rightarrow> n_rx_sessions n1
                 | Some old \<Rightarrow> AList.delete (ps_rx_session_id old) (n_rx_sessions n1));
               n2 = n1\<lparr>n_rx_sessions := AList.update rx_sid pid sessions\<rparr>;
               n3 = n2\<lparr>n_routes := fold (\<lambda>r t. RouteTable_insert t r pid) rs (n_routes n2)\<rparr>;
               w2 = log_routes E RouteAdd (n_iface_name n3) rs w1
           in (Added, bind_lighthouse addr (meta_name (meta (body cert))) pid n3, w2))"

definition remove_peer :: "ext \<Rightarrow> Node \<Rightarrow> u32 \<Rightarrow> world \<Rightarrow> Node \<times> world" where
  "remove_peer E n pid w =
     (case peer_of n pid of
        None \<Rightarrow> (n, w)
      | Some p \<Rightarrow>
          (n\<lparr>n_peers := AList.delete pid (n_peers n),
             n_rx_sessions := AList.delete (ps_rx_session_id p) (n_rx_sessions n),
             n_routes := RouteTable_remove_peer (n_routes n) pid,
             n_lighthouses := map (\<lambda>l. if ls_peer_id l = Some pid then l\<lparr>ls_peer_id := None\<rparr> else l) (n_lighthouses n)\<rparr>,
           log_routes E RouteDel (n_iface_name n) (ps_routes p) w))"

section \<open>Lighthouses and discovery\<close>

definition refresh_lighthouse_address :: "Node \<Rightarrow> LighthouseSlot \<Rightarrow> world \<Rightarrow> SocketAddr \<times> Node \<times> world" where
  "refresh_lighthouse_address n l w =
     (let (now, w1) = instant_now w
      in if now - ls_resolved_at l < LIGHTHOUSE_RERESOLVE then (ls_address l, n, w1)
         else
           let (answer, w2) = resolve (ls_configured l) w1;
               resolved = (case answer of Some a \<Rightarrow> a | None \<Rightarrow> ls_address l);
               update = (\<lambda>slot.
                 if ls_name slot \<noteq> ls_name l \<or> ls_configured slot \<noteq> ls_configured l then slot
                 else (if ls_address slot \<noteq> resolved then slot\<lparr>ls_address := resolved, ls_peer_id := None\<rparr> else slot)
                        \<lparr>ls_resolved_at := now\<rparr>)
           in (resolved, n\<lparr>n_lighthouses := map update (n_lighthouses n)\<rparr>, w2))"

fun connect_loop :: "ext \<Rightarrow> (LighthouseSlot \<times> u32 option) list \<Rightarrow> Node \<Rightarrow> world \<Rightarrow> (Node \<times> world) option" where
  "connect_loop E [] n w = Some (n, w)"
| "connect_loop E ((l, connected) # ls) n w =
     (if \<not> n_running n then Some (n, w)
      else if connected \<noteq> None then connect_loop E ls n w
      else
        let (address, n, w) = refresh_lighthouse_address n l w
        in case start_handshake E n address None (ls_name l) w of
             None \<Rightarrow> None
           | Some (_, n, w) \<Rightarrow> connect_loop E ls n w)"

definition connect_lighthouses :: "ext \<Rightarrow> Node \<Rightarrow> world \<Rightarrow> (Node \<times> world) option" where
  "connect_lighthouses E n w =
     (let connected = (\<lambda>l. case ls_peer_id l of
            None \<Rightarrow> None
          | Some pid \<Rightarrow> if peer_of n pid \<noteq> None then Some pid else None)
      in connect_loop E (map (\<lambda>l. (l, connected l)) (n_lighthouses n)) n w)"

fun query_loop :: "ext \<Rightarrow> IpAddr \<Rightarrow> u32 list \<Rightarrow> Node \<Rightarrow> world \<Rightarrow> Node \<times> world" where
  "query_loop E dst [] n w = (n, w)"
| "query_loop E dst (pid # pids) n w =
     (case peer_tx n pid of
        None \<Rightarrow> query_loop E dst pids n w
      | Some (tx, n) \<Rightarrow>
          let (pkt, w) = encrypt_lighthouse_query_packet E (tx_seq tx) pid (tx_session_id tx) dst (n_network_key n) (tx_key tx) w;
              (_, w) = send_message E n (serialize_packet pkt) (tx_addr tx) pid w
          in query_loop E dst pids n w)"

definition request_discovery :: "ext \<Rightarrow> Node \<Rightarrow> IpAddr \<Rightarrow> world \<Rightarrow> Node \<times> world" where
  "request_discovery E n dst w =
     (let (now, w) = instant_now w
      in if (case map_of (n_discovery_pending n) dst of None \<Rightarrow> False | Some asked \<Rightarrow> now - asked < DISCOVERY_RETRY)
         then (n, w)
         else
           let n = n\<lparr>n_discovery_pending := AList.update dst now (n_discovery_pending n)\<rparr>
           in query_loop E dst (List.map_filter ls_peer_id (n_lighthouses n)) n w)"

section \<open>Maintenance\<close>

text \<open>One pending handshake: the relay fallback, then the decision whether to send it again. The
  answer to the second is what the sources push onto \<open>retransmissions\<close>.\<close>

record Retransmission =
  rt_msg :: bytes
  rt_msg_id :: u32
  rt_targets :: "SocketAddr list"
  rt_dst_peer_id :: u32

definition retransmit_one ::
  "(u32 \<times> SocketAddr) list \<Rightarrow> instant \<Rightarrow> Timings \<Rightarrow> PendingHandshake \<Rightarrow> PendingHandshake \<times> Retransmission option" where
  "retransmit_one relays now T h0 =
     (let h = (if relay_fallback_due h0 now T
               then (case find (\<lambda>(relay_id, _). Some relay_id \<noteq> ph_peer_id h0) relays of
                       Some (_, relay_addr) \<Rightarrow> h0\<lparr>ph_relay_addr := Some relay_addr\<rparr>
                     | None \<Rightarrow> h0)
               else h0)
      in if \<not> retransmit_due h now T then (h, None)
         else
           let h' = record_attempt h now
           in (h', Some \<lparr>rt_msg = hi_msg (ph_initiate h'), rt_msg_id = hi_my_rx_session_id (ph_initiate h'),
                 rt_targets = targets h', rt_dst_peer_id = (case ph_peer_id h' of None \<Rightarrow> 0 | Some i \<Rightarrow> i)\<rparr>))"

definition send_retransmission :: "ext \<Rightarrow> Node \<Rightarrow> Retransmission \<Rightarrow> world \<Rightarrow> world" where
  "send_retransmission E n r w =
     fold (\<lambda>target w. snd (send_message_with_id E n (rt_msg r) target (rt_dst_peer_id r) (rt_msg_id r) w)) (rt_targets r) w"

definition retransmit_handshakes :: "ext \<Rightarrow> Node \<Rightarrow> instant \<Rightarrow> world \<Rightarrow> Node \<times> world" where
  "retransmit_handshakes E n now w =
     (let relays = map (\<lambda>(i, p). (i, ps_addr p)) (filter (\<lambda>(_, p). ps_is_relay p) (n_peers n));
          alive = filter (\<lambda>(_, h). \<not> expired h now (n_timings n)) (n_pending n);
          stepped = map (\<lambda>(sid, h). (sid, retransmit_one relays now (n_timings n) h)) alive;
          n' = n\<lparr>n_pending := map (\<lambda>(sid, h, _). (sid, h)) stepped\<rparr>
      in (n', fold (send_retransmission E n') (List.map_filter (\<lambda>(_, _, r). r) stepped) w))"

datatype action = ActSend SocketAddr bytes | ActLookup IpAddr

text \<open>The keepalive part of the loop body of \<open>maintain_peers\<close>: whether the peer is dropped, the
  peer, what is to be sent.\<close>

definition keepalive_wire :: "ext \<Rightarrow> bytes \<Rightarrow> u32 \<Rightarrow> PeerState \<Rightarrow> u64 \<Rightarrow> world \<Rightarrow> bytes \<times> PeerState \<times> world" where
  "keepalive_wire E nk pid p tok w =
     (let (s, p) = next_seq p;
          (pkt, w) = encrypt_keepalive_packet E s pid (ps_tx_session_id p) tok nk (ps_tx_key p) w
      in (serialize_packet pkt, p, w))"

definition maintain_keepalive ::
  "ext \<Rightarrow> Node \<Rightarrow> instant \<Rightarrow> u32 \<Rightarrow> PeerState \<Rightarrow> world \<Rightarrow> DropReason option \<times> action list \<times> PeerState \<times> world" where
  "maintain_keepalive E n now pid p w =
     (if n_keepalive_enabled n then
        let (tok, w) = random_token w
        in case tick p now (n_timings n) tok of
             (TickDrop reason, p) \<Rightarrow> (Some reason, [], p, w)
           | (TickKeepalive t, p) \<Rightarrow>
               let (wire, p, w) = keepalive_wire E (n_network_key n) pid p t w
               in (None, [ActSend (ps_addr p) wire], p, w)
           | (TickIdle, p) \<Rightarrow> (None, [], p, w)
      else if now - ps_last_seen p \<ge> peer_expiry (n_timings n) then (Some Expired, [], p, w)
      else (None, [], p, w))"

text \<open>The probe part, and the loop: \<open>None\<close> if a probe panics.\<close>

definition maintain_probe :: "ext \<Rightarrow> Node \<Rightarrow> instant \<Rightarrow> u32 \<Rightarrow> PeerState \<Rightarrow> world \<Rightarrow> (action list \<times> PeerState \<times> world) option" where
  "maintain_probe E n now pid p w =
     (let (tok, w) = random_token w
      in case take_path_probe p now (n_timings n) tok of
           None \<Rightarrow> None
         | Some (ProbePunch direct t, p) \<Rightarrow>
             let (wire, p, w) = keepalive_wire E (n_network_key n) pid p t w
             in Some ([ActSend direct wire], p, w)
         | Some (ProbeLookup, p) \<Rightarrow>
             Some ((case primary_cert_ip E (ps_cert p) of Some ip \<Rightarrow> [ActLookup ip] | None \<Rightarrow> []), p, w)
         | Some (ProbeNone, p) \<Rightarrow> Some ([], p, w))"

fun maintain_loop ::
  "ext \<Rightarrow> Node \<Rightarrow> instant \<Rightarrow> (u32, PeerState) hashmap \<Rightarrow> world
   \<Rightarrow> ((u32, PeerState) hashmap \<times> (u32 \<times> DropReason) list \<times> action list \<times> world) option" where
  "maintain_loop E n now [] w = Some ([], [], [], w)"
| "maintain_loop E n now ((pid, p) # ps) w =
     (case maintain_keepalive E n now pid p w of
        (Some reason, _, p, w) \<Rightarrow> do {
          (ps, drops, acts, w) \<leftarrow> maintain_loop E n now ps w;
          Some ((pid, p) # ps, (pid, reason) # drops, acts, w)
        }
      | (None, acts1, p, w) \<Rightarrow> do {
          (acts2, p, w) \<leftarrow> maintain_probe E n now pid p w;
          (ps, drops, acts, w) \<leftarrow> maintain_loop E n now ps w;
          Some ((pid, p) # ps, drops, acts1 @ acts2 @ acts, w)
        })"

fun do_action :: "ext \<Rightarrow> action \<Rightarrow> Node \<times> world \<Rightarrow> Node \<times> world" where
  "do_action E (ActSend addr wire) (n, w) = (n, send_wire wire addr w)"
| "do_action E (ActLookup ip) (n, w) = request_discovery E n ip w"

definition maintain_peers :: "ext \<Rightarrow> Node \<Rightarrow> instant \<Rightarrow> world \<Rightarrow> (Node \<times> world) option" where
  "maintain_peers E n now w = do {
     (ps, drops, actions, w) \<leftarrow> maintain_loop E n now (n_peers n) w;
     let s = fold (\<lambda>(pid, _) (n, w). remove_peer E n pid w) drops (n\<lparr>n_peers := ps\<rparr>, w);
     Some (fold (do_action E) actions s)
   }"

definition maintenance_tick :: "ext \<Rightarrow> Node \<Rightarrow> world \<Rightarrow> (Node \<times> world) option" where
  "maintenance_tick E n w =
     (let (now, w) = instant_now w;
          (n, w) = retransmit_handshakes E n now w
      in do {
        (n, w) \<leftarrow> maintain_peers E n now w;
        Some (n\<lparr>n_discovery_pending := filter (\<lambda>(_, asked). now - asked < DISCOVERY_ENTRY_TTL) (n_discovery_pending n),
               n_handshake_cache := HandshakeCache_cleanup (n_handshake_cache n) now\<rparr>, w)
      })"

end
