(* ===== verification/Node_Recv.thy ===== *)
theory Node_Recv
  imports Node
begin

text \<open>
  The receive path, the send path and the shutdown of \<open>Node\<close> in \<open>litewayd/src/main.rs\<close>: every
  handler from the datagram to the TUN write, and back from a TUN packet to the session datagram. The
  flag \<open>tun\<close> says whether the receiving thread has a TUN writer. The state machine that runs these
  operations is in \<open>Daemon\<close>.
\<close>

section \<open>Relaying and endpoints\<close>

definition relay_datagram :: "Node \<Rightarrow> bytes \<Rightarrow> u32 \<Rightarrow> world \<Rightarrow> world" where
  "relay_datagram n data dst w =
     (if \<not> n_am_relay n then w
      else
        case map_option ps_addr (peer_of n dst) of
          None \<Rightarrow> w
        | Some addr \<Rightarrow> send_wire data addr w)"

definition addr_is_relay :: "Node \<Rightarrow> SocketAddr \<Rightarrow> bool" where
  "addr_is_relay n addr = list_ex (\<lambda>(_, p). ps_is_relay p \<and> ps_addr p = addr) (n_peers n)"

definition note_direct_endpoint :: "Node \<Rightarrow> u32 \<Rightarrow> SocketAddr \<Rightarrow> Node" where
  "note_direct_endpoint n pid addr =
     (if addr_is_relay n addr then n
      else
        case peer_of n pid of
          None \<Rightarrow> n
        | Some p \<Rightarrow>
            if ps_direct_addr p = Some addr then n
            else put_peer pid (p\<lparr>ps_direct_addr := Some addr, ps_next_probe := None\<rparr>) n)"

section \<open>Handshake messages\<close>

definition handle_handshake_1 :: "ext \<Rightarrow> Node \<Rightarrow> SocketAddr \<Rightarrow> bytes \<Rightarrow> world \<Rightarrow> (Node \<times> world) option" where
  "handle_handshake_1 E n src packet w =
     (let (now, w) = instant_now w;
          digest = blake3_hash E packet;
          mid = u32_from_be_bytes (take 4 digest)
      in case HandshakeCache_get (n_handshake_cache n) digest now of
           Some entry \<Rightarrow>
             let n = note_direct_endpoint n (ch_peer_id entry) src;
                 (_, w) = send_message_with_id E n (ch_response entry) src (ch_peer_id entry) mid w
             in Some (n, w)
         | None \<Rightarrow>
             (case process_handshake_1 E packet (n_cert n) (n_signing_key n) (n_network_key n) (n_ca_vk n) (n_am_relay n) w of
                None \<Rightarrow> None
              | Some (Inl _, w) \<Rightarrow> Some (n, w)
              | Some (Inr response, w) \<Rightarrow>
                  let pid = node_id_from_cert E (hr_peer_cert response)
                  in if pid = n_our_id n then Some (n, w)
                     else
                       let n = n\<lparr>n_handshake_cache := HandshakeCache_insert (n_handshake_cache n) digest (hr_msg response) pid now\<rparr>;
                           relayed = addr_is_relay n src;
                           entry = find (\<lambda>(_, p). ph_peer_id p = Some pid) (n_pending n);
                           simultaneous = (entry \<noteq> None);
                           direct = (case entry of
                               Some (_, p) \<Rightarrow> Some (ph_direct_addr p)
                             | None \<Rightarrow> if relayed then None else Some src);
                           (_, n, w) = add_peer E n pid (hr_session_key response) (hr_peer_cert response) src direct relayed
                             (hr_peer_is_relay response) (hr_peer_rx_session_id response) (hr_my_rx_session_id response)
                             pid simultaneous w;
                           (_, w) = send_message_with_id E n (hr_msg response) src pid mid w
                       in Some (n, w)))"

definition handle_handshake_2 :: "ext \<Rightarrow> Node \<Rightarrow> SocketAddr \<Rightarrow> bytes \<Rightarrow> u32 \<Rightarrow> world \<Rightarrow> Node \<times> world" where
  "handle_handshake_2 E n src packet sid w =
     (case map_of (n_pending n) sid of
        None \<Rightarrow> (n, w)
      | Some h \<Rightarrow>
          (case process_handshake_2 E packet (ph_initiate h) (n_network_key n) (n_ca_vk n) w of
             (Inl _, w) \<Rightarrow> (n, w)
           | (Inr result, w) \<Rightarrow>
               let pid = node_id_from_cert E (hres_peer_cert result)
               in if (case ph_peer_id h of None \<Rightarrow> False | Some expected \<Rightarrow> expected \<noteq> pid) then (n, w)
                  else
                    let direct = ph_direct_addr h;
                        n = n\<lparr>n_pending := AList.delete sid (n_pending n)\<rparr>;
                        relayed = (src \<noteq> direct \<or> addr_is_relay n src);
                        simultaneous = (case peer_of n pid of
                            None \<Rightarrow> False
                          | Some existing \<Rightarrow> ps_handshake_initiator_id existing \<noteq> n_our_id n);
                        (_, n, w) = add_peer E n pid (hres_session_key result) (hres_peer_cert result) src (Some direct) relayed
                          (hres_peer_is_relay result) (hres_peer_rx_session_id result) (hres_my_rx_session_id result)
                          (n_our_id n) simultaneous w
                    in (n, w)))"

section \<open>Session packets\<close>

definition accepts_destination :: "ext \<Rightarrow> Node \<Rightarrow> bytes \<Rightarrow> bool" where
  "accepts_destination E n pkt =
     (if n_local_networks n = [] then True
      else
        case parse_dest_ip pkt of
          None \<Rightarrow> False
        | Some dst \<Rightarrow> if is_multicast dst then True else list_ex (\<lambda>net. net_contains E net dst) (n_local_networks n))"

text \<open>The end of a data packet: its source and destination are checked and it is handed to the TUN device.
  A write that fails is only logged.\<close>

definition handle_data :: "ext \<Rightarrow> bool \<Rightarrow> Node \<Rightarrow> u32 \<Rightarrow> bytes \<Rightarrow> world \<Rightarrow> world" where
  "handle_data E tun n pid pkt w =
     (if \<not> (case peer_of n pid of None \<Rightarrow> False | Some p \<Rightarrow> peer_allows_ip_packet_source E p pkt) then w
      else if \<not> accepts_destination E n pkt then w
      else if tun then tun_write pkt w
      else w)"

text \<open>What the lock section of \<open>handle_lighthouse_query\<close> prepares: for each answer the address, the
  peer it goes to and the wire bytes.\<close>

definition lighthouse_answers ::
  "ext \<Rightarrow> Node \<Rightarrow> u32 \<Rightarrow> IpAddr \<Rightarrow> PeerState \<Rightarrow> (u32 \<times> PeerState) option \<Rightarrow> world
   \<Rightarrow> (SocketAddr \<times> u32 \<times> bytes) list \<times> Node \<times> world" where
  "lighthouse_answers E n requester_id target requester found w =
     (case found of
        Some (found_id, found_peer) \<Rightarrow>
          let (s, requester') = next_seq requester;
              n1 = put_peer requester_id requester' n;
              (pkt, w1) = encrypt_lighthouse_response_packet E s requester_id (ps_tx_session_id requester') target
                found_id (ps_addr found_peer) (ps_cert found_peer) (ps_is_relay found_peer)
                (n_network_key n) (ps_tx_key requester') w;
              first = (ps_addr requester', requester_id, serialize_packet pkt)
          in if found_id = requester_id then ([first], n1, w1)
             else
               (case primary_cert_ip E (ps_cert requester) of
                  None \<Rightarrow> ([first], n1, w1)
                | Some requester_ip \<Rightarrow>
                    (case peer_of n1 found_id of
                       None \<Rightarrow> ([first], n1, w1)
                     | Some target_peer \<Rightarrow>
                         let (s2, target_peer') = next_seq target_peer;
                             n2 = put_peer found_id target_peer' n1;
                             (pkt2, w2) = encrypt_lighthouse_response_packet E s2 found_id (ps_tx_session_id target_peer')
                               requester_ip requester_id (ps_addr requester) (ps_cert requester) (ps_is_relay requester)
                               (n_network_key n) (ps_tx_key target_peer') w1
                         in ([first, (ps_addr target_peer', found_id, serialize_packet pkt2)], n2, w2)))
      | None \<Rightarrow>
          let (s, requester') = next_seq requester;
              (pkt, w1) = encrypt_lighthouse_not_found_packet E s requester_id (ps_tx_session_id requester') target
                (n_network_key n) (ps_tx_key requester') w
          in ([(ps_addr requester', requester_id, serialize_packet pkt)], put_peer requester_id requester' n, w1))"

definition handle_lighthouse_query :: "ext \<Rightarrow> Node \<Rightarrow> u32 \<Rightarrow> IpAddr \<Rightarrow> world \<Rightarrow> Node \<times> world" where
  "handle_lighthouse_query E n requester_id target w =
     (if \<not> n_am_lighthouse n then (n, w)
      else
        case peer_of n requester_id of
          None \<Rightarrow> (n, w)
        | Some requester \<Rightarrow>
            let found = Option.bind (RouteTable_lookup E (n_routes n) target)
                  (\<lambda>i. map_option (\<lambda>p. (i, p)) (peer_of n i));
                (responses, n, w) = lighthouse_answers E n requester_id target requester found w
            in (n, fold (\<lambda>(addr, pid, wire) w. snd (send_message E n wire addr pid w)) responses w))"

definition handle_lighthouse_response ::
  "ext \<Rightarrow> Node \<Rightarrow> IpAddr \<Rightarrow> u32 \<Rightarrow> SocketAddr \<Rightarrow> Cert \<Rightarrow> world \<Rightarrow> (Node \<times> world) option" where
  "handle_lighthouse_response E n target pid addr cert w =
     (if pid = n_our_id n then Some (n, w)
      else
        let (ok, w) = Cert_verify E cert (n_ca_vk n) w
        in if \<not> ok then Some (n, w)
           else if node_id_from_cert E cert \<noteq> pid then Some (n, w)
           else if \<not> list_ex (\<lambda>route. net_contains E route target) (authorized_peer_routes E cert) then Some (n, w)
           else
             case peer_of n pid of
               Some p \<Rightarrow>
                 Some (if ps_direct_addr p \<noteq> Some addr
                       then put_peer pid (p\<lparr>ps_direct_addr := Some addr, ps_next_probe := None\<rparr>) n else n, w)
             | None \<Rightarrow>
                 map_option snd (start_handshake E n addr (Some pid) (meta_name (meta (body cert))) w))"

definition answer_keepalive :: "ext \<Rightarrow> Node \<Rightarrow> u32 \<Rightarrow> u64 \<Rightarrow> SocketAddr \<Rightarrow> world \<Rightarrow> Node \<times> world" where
  "answer_keepalive E n pid tok reply_to w =
     (case peer_tx n pid of
        None \<Rightarrow> (n, w)
      | Some (tx, n) \<Rightarrow>
          let (pkt, w) = encrypt_keepalive_ack_packet E (tx_seq tx) pid (tx_session_id tx) tok (n_network_key n) (tx_key tx) w
          in (n, send_wire (serialize_packet pkt) reply_to w))"

definition handle_keepalive_ack :: "Node \<Rightarrow> u32 \<Rightarrow> u64 \<Rightarrow> world \<Rightarrow> Node \<times> world" where
  "handle_keepalive_ack n pid tok w =
     (case peer_of n pid of
        None \<Rightarrow> (n, w)
      | Some p \<Rightarrow>
          let (now, w) = instant_now w
          in (put_peer pid (snd (ack_keepalive p tok now)) n, w))"

text \<open>The lock section of \<open>handle_session_packet\<close>: decrypt, check the header and the replay window,
  record where the peer was seen. \<open>None\<close> is a dropped packet.\<close>

definition open_session_packet ::
  "ext \<Rightarrow> Node \<Rightarrow> SocketAddr \<Rightarrow> bytes \<Rightarrow> NetworkHeader \<Rightarrow> u32 \<Rightarrow> world \<Rightarrow> (PacketBody \<times> Node \<times> world) option" where
  "open_session_packet E n src packet header pid w =
     (case peer_of n pid of
        None \<Rightarrow> None
      | Some p \<Rightarrow>
          let src_is_relay = (ps_addr p \<noteq> src
                \<and> list_ex (\<lambda>(i, other). i \<noteq> pid \<and> ps_is_relay other \<and> ps_addr other = src) (n_peers n))
          in case decrypt_packet E packet (n_network_key n) (ps_rx_key p) of
               None \<Rightarrow> None
             | Some (decoded_header, b) \<Rightarrow>
                 if decoded_header \<noteq> header then None
                 else
                   let (fresh, window) = accept (ps_rx_replay p) (packet_seq b)
                   in if \<not> fresh then None
                      else
                        let (now, w) = instant_now w;
                            is_keepalive = (case b of Keepalive _ _ \<Rightarrow> True | _ \<Rightarrow> False);
                            (_, p') = mark_seen (p\<lparr>ps_rx_replay := window\<rparr>) src now src_is_relay is_keepalive
                        in Some (b, put_peer pid p' n, w))"

fun dispatch :: "ext \<Rightarrow> bool \<Rightarrow> SocketAddr \<Rightarrow> u32 \<Rightarrow> PacketBody \<Rightarrow> Node \<Rightarrow> world \<Rightarrow> (Node \<times> world) option" where
  "dispatch E tun src pid (Data _ pkt) n w = Some (n, handle_data E tun n pid pkt w)"
| "dispatch E tun src pid (LighthouseQuery _ target) n w = Some (handle_lighthouse_query E n pid target w)"
| "dispatch E tun src pid (LighthouseResponse _ target found_id addr cert relay) n w =
     handle_lighthouse_response E n target found_id addr cert w"
| "dispatch E tun src pid (LighthouseNotFound _ _) n w = Some (n, w)"
| "dispatch E tun src pid (Keepalive _ tok) n w = Some (answer_keepalive E n pid tok src w)"
| "dispatch E tun src pid (KeepaliveAck _ tok) n w = Some (handle_keepalive_ack n pid tok w)"
| "dispatch E tun src pid (RelayForward _ next inner) n w =
     Some (n, if n_am_relay n then relay_datagram n inner next w else w)"
| "dispatch E tun src pid (Disconnect _) n w = Some (remove_peer E n pid w)"

definition handle_session_packet ::
  "ext \<Rightarrow> bool \<Rightarrow> Node \<Rightarrow> SocketAddr \<Rightarrow> bytes \<Rightarrow> NetworkHeader \<Rightarrow> world \<Rightarrow> (Node \<times> world) option" where
  "handle_session_packet E tun n src packet header w =
     (case map_of (n_rx_sessions n) (session_id header) of
        None \<Rightarrow> Some (n, w)
      | Some pid \<Rightarrow>
          (case open_session_packet E n src packet header pid w of
             None \<Rightarrow> Some (n, w)
           | Some (b, n, w) \<Rightarrow> dispatch E tun src pid b n w))"

section \<open>Datagrams\<close>

definition for_other :: "Node \<Rightarrow> NetworkHeader \<Rightarrow> bool" where
  "for_other n header = (dst_peer_id header \<noteq> 0 \<and> dst_peer_id header \<noteq> n_our_id n)"

text \<open>\<open>handle_datagram\<close> after reassembly.\<close>

definition handle_packet :: "ext \<Rightarrow> bool \<Rightarrow> Node \<Rightarrow> SocketAddr \<Rightarrow> bytes \<Rightarrow> world \<Rightarrow> (Node \<times> world) option" where
  "handle_packet E tun n src packet w =
     (case network_header E packet (n_network_key n) of
        None \<Rightarrow> Some (n, w)
      | Some header \<Rightarrow>
          if kind header = KIND_HANDSHAKE_1 then handle_handshake_1 E n src packet w
          else if kind header = KIND_HANDSHAKE_2 then Some (handle_handshake_2 E n src packet (session_id header) w)
          else if for_other n header then Some (n, relay_datagram n packet (dst_peer_id header) w)
          else handle_session_packet E tun n src packet header w)"

definition reassemble_and_handle ::
  "ext \<Rightarrow> bool \<Rightarrow> Node \<Rightarrow> FragmentAssembler \<Rightarrow> SocketAddr \<Rightarrow> bytes \<Rightarrow> world \<Rightarrow> (Node \<times> FragmentAssembler \<times> world) option" where
  "reassemble_and_handle E tun n a src data w =
     (let (r, a, w) = feed E a src data (n_network_key n) w
      in case r of
           Complete message \<Rightarrow> map_option (\<lambda>(n, w). (n, a, w)) (handle_packet E tun n src message w)
         | Buffered \<Rightarrow> Some (n, a, w)
         | NotFragment \<Rightarrow> map_option (\<lambda>(n, w). (n, a, w)) (handle_packet E tun n src data w))"

definition handle_datagram ::
  "ext \<Rightarrow> bool \<Rightarrow> Node \<Rightarrow> FragmentAssembler \<Rightarrow> SocketAddr \<Rightarrow> bytes \<Rightarrow> world \<Rightarrow> (Node \<times> FragmentAssembler \<times> world) option" where
  "handle_datagram E tun n a src data w =
     (case network_header E data (n_network_key n) of
        Some header \<Rightarrow>
          if for_other n header then Some (n, a, relay_datagram n data (dst_peer_id header) w)
          else reassemble_and_handle E tun n a src data w
      | None \<Rightarrow> reassemble_and_handle E tun n a src data w)"

section \<open>Sending and shutting down\<close>

definition send_to_overlay :: "ext \<Rightarrow> Node \<Rightarrow> bytes \<Rightarrow> IpNetwork list \<Rightarrow> world \<Rightarrow> Node \<times> world" where
  "send_to_overlay E n pkt overlay w =
     (case parse_dest_ip pkt of
        None \<Rightarrow> (n, w)
      | Some dst \<Rightarrow>
          if is_multicast dst \<or> is_link_local dst then (n, w)
          else if is_overlay_broadcast E dst overlay then (n, w)
          else
            (case RouteTable_lookup E (n_routes n) dst of
               None \<Rightarrow> request_discovery E n dst w
             | Some pid \<Rightarrow>
                 (case peer_tx n pid of
                    None \<Rightarrow> (n, w)
                  | Some (tx, n) \<Rightarrow>
                      let (p, w) = encrypt_data_packet E (tx_seq tx) pid (tx_session_id tx) pkt (n_network_key n) (tx_key tx) w
                      in (n, send_wire (serialize_packet p) (tx_addr tx) w))))"

definition send_disconnect :: "ext \<Rightarrow> bytes \<Rightarrow> u32 \<times> PeerTx \<Rightarrow> world \<Rightarrow> world" where
  "send_disconnect E nk target w =
     (let (pid, tx) = target;
          (pkt, w) = encrypt_disconnect_packet E (tx_seq tx) pid (tx_session_id tx) nk (tx_key tx) w
      in send_wire (serialize_packet pkt) (tx_addr tx) w)"

definition notify_shutdown :: "ext \<Rightarrow> Node \<Rightarrow> world \<Rightarrow> Node \<times> world" where
  "notify_shutdown E n w =
     (let tgts = map (\<lambda>(i, p). let (s, p') = next_seq p
            in (i, \<lparr>tx_addr = ps_addr p, tx_seq = s, tx_session_id = ps_tx_session_id p, tx_key = ps_tx_key p\<rparr>)) (n_peers n);
          n' = n\<lparr>n_peers := map (\<lambda>(i, p). (i, snd (next_seq p))) (n_peers n)\<rparr>
      in (n', fold (send_disconnect E (n_network_key n)) tgts w))"

end
