(* ===== verification/Daemon.thy ===== *)
theory Daemon
  imports Node_Recv Handshake_Agreement
begin

text \<open>
  The daemon of \<open>litewayd/src/main.rs\<close> as a whole: how \<open>main\<close> builds a node from its configuration, the
  loop bodies of the four threads, the signal handler, and the state machine they make. \<open>daemon_step\<close>
  performs one loop iteration of one thread; a run is any list of them, so the threads interleave at
  the granularity of loop iterations. The program releases its locks within an iteration, so it can also
  reach states that this machine does not, such as a route to a peer that is gone; the interleavings of
  lock sections and what still holds of them are in \<open>Threads\<close>, \<open>Threads_Safety\<close> and \<open>Recv_Threads\<close>, the end of
  the threads in \<open>Shutdown\<close>. An iteration that panics or does not return is \<open>None\<close>.

  The parsed certificate and key files are arguments, and so is what the operating system answers
  while the daemon starts (\<open>os_answers\<close>) and to each read (\<open>recv_result\<close>, \<open>tun_read\<close>).
\<close>

section \<open>Starting\<close>

datatype startup_error =
    BadConfig config_error
  | NodeCertInvalid
  | KeyMismatch
  | NoPrivileges
  | TunFailed
  | SetIpFailed
  | BreaksLighthouses
  | NonblockFailed
  | SocketFailed
  | ResolveFailed
  | HandlerFailed

record os_answers =
  os_privileged :: bool
  os_tun_created :: bool
  os_ip_set :: bool
  os_nonblock :: bool
  os_listen :: "SocketAddr option"
  os_handler_set :: bool

definition resolve_socket_addr :: "string \<Rightarrow> world \<Rightarrow> SocketAddr option \<times> world" where
  "resolve_socket_addr address w = resolve address w"

fun resolve_lighthouses :: "LighthouseConfig list \<Rightarrow> world \<Rightarrow> LighthouseSlot list option \<times> world" where
  "resolve_lighthouses [] w = (Some [], w)"
| "resolve_lighthouses (l # ls) w =
     (case resolve_socket_addr (lc_address l) w of
        (None, w) \<Rightarrow> (None, w)
      | (Some a, w) \<Rightarrow>
          let (now, w) = instant_now w;
              slot = \<lparr>ls_name = lc_name l, ls_configured = lc_address l, ls_address = a, ls_peer_id = None, ls_resolved_at = now\<rparr>;
              (rest, w) = resolve_lighthouses ls w
          in (map_option ((#) slot) rest, w))"

text \<open>The TUN part of \<open>main\<close>: the overlay networks, or why it stops.\<close>

definition bring_up_interface ::
  "ext \<Rightarrow> os_answers \<Rightarrow> AppConfig \<Rightarrow> Cert \<Rightarrow> world \<Rightarrow> (startup_error + IpNetwork list) \<times> world" where
  "bring_up_interface E os cfg cert w =
     (case interface cfg of
        None \<Rightarrow> (Inr [], w)
      | Some iface \<Rightarrow>
          if \<not> os_tun_created os then (Inl TunFailed, w)
          else
            let (r, w) = (case addresses (body cert) of
                  None \<Rightarrow> (Inr [], w)
                | Some addrs \<Rightarrow>
                    if \<not> os_ip_set os then (Inl SetIpFailed, w)
                    else
                      (case discovery_route_from_interface_addr E (addr_ip addrs) of
                         Some (Some route) \<Rightarrow> (Inr [route], log_route (RouteAdd (net_to_string E route) (if_name iface)) w)
                       | Some None \<Rightarrow> (if cfg_lighthouses cfg \<noteq> [] then Inl BreaksLighthouses else Inr [], w)
                       | None \<Rightarrow> (Inr [], w)))
            in if \<not> isl r \<and> \<not> os_nonblock os then (Inl NonblockFailed, w) else (r, w))"

definition new_node ::
  "ext \<Rightarrow> AppConfig \<Rightarrow> CaVerifyKey \<Rightarrow> Cert \<Rightarrow> NodeSigningSecretKey \<Rightarrow> bytes \<Rightarrow> SocketAddr \<Rightarrow> LighthouseSlot list \<Rightarrow> Node" where
  "new_node E cfg ca cert sk network_key listen slots =
     \<lparr>n_our_id = node_id_from_cert E cert, n_cert = cert, n_signing_key = sk, n_ca_vk = ca, n_network_key = network_key,
      n_max_datagram = udp_payload_limit cfg listen, n_am_lighthouse = cfg_am_lighthouse cfg, n_am_relay = cfg_am_relay cfg,
      n_keepalive_enabled = keepalive_punch cfg, n_timings = config_timings cfg,
      n_iface_name = map_option if_name (interface cfg), n_local_networks = authorized_peer_routes E cert,
      n_peers = [], n_pending = [], n_routes = RouteTable_new, n_rx_sessions = [], n_lighthouses = slots,
      n_handshake_cache = HandshakeCache_new, n_discovery_pending = [], n_running = True, n_shutdown = False\<rparr>"

definition start_node ::
  "ext \<Rightarrow> os_answers \<Rightarrow> AppConfig \<Rightarrow> CaCert \<Rightarrow> Cert \<Rightarrow> NodeKeyFile \<Rightarrow> world
   \<Rightarrow> (startup_error + Node \<times> IpNetwork list) \<times> world" where
  "start_node E os cfg ca cert key w =
     (case validate cfg of
        Inl e \<Rightarrow> (Inl (BadConfig e), w)
      | Inr _ \<Rightarrow>
          let ca_vk = verify_key ca;
              (ok, w) = Cert_verify E cert ca_vk w
          in if \<not> ok then (Inl NodeCertInvalid, w)
             else if nsk_ed25519_public E (signing_secret_key key) \<noteq> ed25519_pk (keys (body cert)) then (Inl KeyMismatch, w)
             else
               (case network_secret E cfg of
                  Inl e \<Rightarrow> (Inl (BadConfig e), w)
                | Inr secret \<Rightarrow>
                    if \<not> os_privileged os then (Inl NoPrivileges, w)
                    else
                      (case bring_up_interface E os cfg cert w of
                         (Inl e, w) \<Rightarrow> (Inl e, w)
                       | (Inr overlay, w) \<Rightarrow>
                           (case os_listen os of
                              None \<Rightarrow> (Inl SocketFailed, w)
                            | Some listen \<Rightarrow>
                                (case resolve_lighthouses (cfg_lighthouses cfg) w of
                                   (None, w) \<Rightarrow> (Inl ResolveFailed, w)
                                 | (Some slots, w) \<Rightarrow>
                                     if \<not> os_handler_set os then (Inl HandlerFailed, w)
                                     else
                                     (Inr (new_node E cfg ca_vk cert (signing_secret_key key) (derive_network_key E secret) listen slots,
                                           overlay), w))))))"

section \<open>The threads\<close>

datatype recv_result = Received bytes SocketAddr | RecvTimeout | RecvFailed

text \<open>One iteration of \<open>run_receiver\<close>: what was received is handled, then the assembler is cleaned up
  once a second. The receive buffer has 65535 bytes.\<close>

definition handle_received ::
  "ext \<Rightarrow> bool \<Rightarrow> recv_result \<Rightarrow> Node \<Rightarrow> FragmentAssembler \<Rightarrow> world \<Rightarrow> (Node \<times> FragmentAssembler \<times> world) option" where
  "handle_received E tun r n a w =
     (case r of
        Received data src \<Rightarrow>
          let data = take 65535 data in if data \<noteq> [] then handle_datagram E tun n a src data w else Some (n, a, w)
      | RecvTimeout \<Rightarrow> Some (n, a, w)
      | RecvFailed \<Rightarrow> Some (n, a, w))"

definition periodic_cleanup :: "FragmentAssembler \<Rightarrow> instant \<Rightarrow> world \<Rightarrow> FragmentAssembler \<times> instant \<times> world" where
  "periodic_cleanup a last_cleanup w =
     (let (now, w) = instant_now w
      in if now - last_cleanup \<ge> from_secs 1
         then let (a, w) = cleanup a w; (now, w) = instant_now w in (a, now, w)
         else (a, last_cleanup, w))"

definition receive_once ::
  "ext \<Rightarrow> bool \<Rightarrow> recv_result \<Rightarrow> Node \<Rightarrow> FragmentAssembler \<Rightarrow> instant \<Rightarrow> world
   \<Rightarrow> (Node \<times> FragmentAssembler \<times> instant \<times> world) option" where
  "receive_once E tun r n a last_cleanup w =
     map_option (\<lambda>(n, a, w). (n, periodic_cleanup a last_cleanup w)) (handle_received E tun r n a w)"

datatype tun_read = TunPacket bytes | TunWouldBlock | TunReadFailed

text \<open>One iteration of the loop of \<open>main\<close> that reads the TUN device: the node, the number of idle
  reads, the world.\<close>

definition send_once :: "ext \<Rightarrow> IpNetwork list \<Rightarrow> tun_read \<Rightarrow> Node \<Rightarrow> u32 \<Rightarrow> world \<Rightarrow> Node \<times> u32 \<times> world" where
  "send_once E overlay r n idle w =
     (case r of
        TunPacket pkt \<Rightarrow>
          let pkt = take 65535 pkt
          in if pkt \<noteq> [] then let (n, w) = send_to_overlay E n pkt overlay w in (n, 0, w) else (n, idle, w)
      | TunWouldBlock \<Rightarrow> (n, saturating_add_w idle 1, w)
      | TunReadFailed \<Rightarrow> (n, idle, w))"

text \<open>The handler that \<open>install_signal_handler\<close> sets: the new count, and the node or the exit code.\<close>

definition on_signal :: "u64 \<Rightarrow> Node \<Rightarrow> u64 \<times> (int + Node)" where
  "on_signal signals n =
     (let count = signals + 1
      in (count, if count = 1 then Inr (n\<lparr>n_running := False, n_shutdown := True\<rparr>) else Inl 130))"

section \<open>The state machine\<close>

record daemon =
  d_node :: Node
  d_assembler :: FragmentAssembler
  d_last_cleanup :: instant
  d_idle_reads :: u32
  d_signals :: u64
  d_exit :: "int option"
  d_world :: world

datatype daemon_event =
    EvReceive recv_result
  | EvTun tun_read
  | EvPunch
  | EvMaintain
  | EvSignal
  | EvNotify

text \<open>A thread's loop runs while \<open>running\<close> is set; the main thread notifies the peers once it is not.
  \<open>has_tun\<close> says whether there is a TUN device.\<close>

fun daemon_step :: "ext \<Rightarrow> bool \<Rightarrow> IpNetwork list \<Rightarrow> daemon_event \<Rightarrow> daemon \<Rightarrow> daemon option" where
  "daemon_step E has_tun overlay (EvReceive r) d =
     (if d_exit d \<noteq> None \<or> \<not> n_running (d_node d) then Some d
      else
        map_option (\<lambda>(n, a, t, w). d\<lparr>d_node := n, d_assembler := a, d_last_cleanup := t, d_world := w\<rparr>)
          (receive_once E has_tun r (d_node d) (d_assembler d) (d_last_cleanup d) (d_world d)))"
| "daemon_step E has_tun overlay (EvTun r) d =
     (if d_exit d \<noteq> None \<or> \<not> n_running (d_node d) \<or> \<not> has_tun then Some d
      else
        let (n, idle, w) = send_once E overlay r (d_node d) (d_idle_reads d) (d_world d)
        in Some (d\<lparr>d_node := n, d_idle_reads := idle, d_world := w\<rparr>))"
| "daemon_step E has_tun overlay EvPunch d =
     (if d_exit d \<noteq> None \<or> \<not> n_running (d_node d) then Some d
      else map_option (\<lambda>(n, w). d\<lparr>d_node := n, d_world := w\<rparr>) (connect_lighthouses E (d_node d) (d_world d)))"
| "daemon_step E has_tun overlay EvMaintain d =
     (if d_exit d \<noteq> None \<or> \<not> n_running (d_node d) then Some d
      else map_option (\<lambda>(n, w). d\<lparr>d_node := n, d_world := w\<rparr>) (maintenance_tick E (d_node d) (d_world d)))"
| "daemon_step E has_tun overlay EvSignal d =
     (if d_exit d \<noteq> None then Some d
      else
        case on_signal (d_signals d) (d_node d) of
          (count, Inr n) \<Rightarrow> Some (d\<lparr>d_signals := count, d_node := n\<rparr>)
        | (count, Inl code) \<Rightarrow> Some (d\<lparr>d_signals := count, d_exit := Some code\<rparr>))"
| "daemon_step E has_tun overlay EvNotify d =
     (if d_exit d \<noteq> None \<or> n_running (d_node d) then Some d
      else
        let (n, w) = notify_shutdown E (d_node d) (d_world d)
        in Some (d\<lparr>d_node := n, d_world := w, d_exit := Some 0\<rparr>))"

definition daemon_init :: "Node \<Rightarrow> world \<Rightarrow> daemon" where
  "daemon_init n w =
     (let (now, w) = instant_now w
      in \<lparr>d_node = n, d_assembler = FragmentAssembler_new, d_last_cleanup = now, d_idle_reads = 0, d_signals = 0,
          d_exit = None, d_world = w\<rparr>)"

definition daemon_run :: "ext \<Rightarrow> bool \<Rightarrow> IpNetwork list \<Rightarrow> daemon_event list \<Rightarrow> daemon \<Rightarrow> daemon option" where
  "daemon_run E has_tun overlay = run_option (daemon_step E has_tun overlay)"

end
