(* ===== verification/World_Closed.thy ===== *)
theory World_Closed
  imports Node_Recv Handshake_Agreement
begin

text \<open>
  Predicates on the world that the node's building blocks keep. \<open>world_closed P A\<close> is the contract: \<open>P\<close>
  survives drawing randomness, reading the clocks, and sending to the addresses of \<open>A\<close>. It follows that
  \<open>P\<close> survives encrypting, sealing and fragmenting a message to an address of \<open>A\<close>, checking a handshake,
  and starting one. What a node does to the TUN device, to the generator and to the outbox are instances.
\<close>

declare map_of_eq_Some_iff [simp del] Some_eq_map_of_iff [simp del]

locale world_closed =
  fixes P :: "world \<Rightarrow> bool" and A :: "SocketAddr set"
  assumes draw: "P w \<Longrightarrow> draws w w' \<Longrightarrow> P w'"
    and instant: "P w \<Longrightarrow> P (snd (instant_now w))"
    and clock: "P w \<Longrightarrow> P (snd (unix_now w))"
    and send: "addr \<in> A \<Longrightarrow> P w \<Longrightarrow> P (snd (send_to pkt addr w))"
begin

lemma loop:
  assumes "\<And>x w. x \<in> set xs \<Longrightarrow> P w \<Longrightarrow> P (f x w)" and "P w"
  shows "P (fold f xs w)"
  using assms by (induction xs arbitrary: w) auto

lemma fill: "P w \<Longrightarrow> P (snd (fill_bytes n w))"
  using draw [of w "snd (fill_bytes n w)"] draws_fill [of n w "fst (fill_bytes n w)"] by simp

lemma number: "P w \<Longrightarrow> P (snd (random_u32 w))"
  by (simp add: random_u32_def split_beta fill)

lemma token_drawn: "P w \<Longrightarrow> P (snd (random_token w))"
  using draw random_token_draws [of w "fst (random_token w)" "snd (random_token w)"] by simp

lemma padding: "P w \<Longrightarrow> P (snd (add_random_padding out w))"
  using draw draws_padding [of out w "fst (add_random_padding out w)" "snd (add_random_padding out w)"] by simp

lemma seconds: "P w \<Longrightarrow> P (snd (unix_time_secs w))"
  by (simp add: unix_time_secs_def clock)

lemma wire: "addr \<in> A \<Longrightarrow> P w \<Longrightarrow> P (send_wire pkt addr w)"
  by (simp add: send_wire_def send)

lemma sealed: "P w \<Longrightarrow> P (snd (seal E k dst sid nk sk pt w))"
  by (simp add: seal_def Let_def split_beta fill)

lemma encrypted:
  "P w \<Longrightarrow> P (snd (encrypt_data_packet E sq dst sid pkt nk sk w))"
  "P w \<Longrightarrow> P (snd (encrypt_disconnect_packet E sq dst sid nk sk w))"
  "P w \<Longrightarrow> P (snd (encrypt_lighthouse_query_packet E sq dst sid target nk sk w))"
  "P w \<Longrightarrow> P (snd (encrypt_lighthouse_response_packet E sq dst sid target pid addr cert relay nk sk w))"
  "P w \<Longrightarrow> P (snd (encrypt_lighthouse_not_found_packet E sq dst sid target nk sk w))"
  "P w \<Longrightarrow> P (snd (encrypt_keepalive_packet E sq dst sid tok nk sk w))"
  "P w \<Longrightarrow> P (snd (encrypt_keepalive_ack_packet E sq dst sid tok nk sk w))"
  by (simp_all add: encrypt_data_packet_def encrypt_disconnect_packet_def encrypt_lighthouse_query_packet_def
      encrypt_lighthouse_response_packet_def encrypt_lighthouse_not_found_packet_def encrypt_keepalive_packet_def
      encrypt_keepalive_ack_packet_def Let_def split_beta padding sealed)

lemma handshake_sealed:
  "P w \<Longrightarrow> P (snd (seal_handshake_with_header E nk pt dst sid w))"
  "P w \<Longrightarrow> P (snd (seal_handshake_to_peer E nk pt dst w))"
  by (simp_all add: seal_handshake_with_header_def seal_handshake_to_peer_def Let_def split_beta fill)

lemma chunks_sent: "addr \<in> A \<Longrightarrow> P w \<Longrightarrow> P (snd (send_chunks E nk addr dst mid tot i cs w))"
proof (induction cs arbitrary: i w)
  case (Cons c cs)
  let ?plain = "KIND_HANDSHAKE_FRAG # u32_to_be_bytes mid @ [word_of_nat i, word_of_nat tot] @ c"
  have "P (snd (send_to p addr (snd (seal_handshake_to_peer E nk ?plain dst w))))" for p
    using Cons.prems by (simp add: handshake_sealed send)
  then show ?case using Cons by (auto simp: Let_def split_beta split: sum.splits prod.splits dest: sym)
qed simp

lemma fragmented: "addr \<in> A \<Longrightarrow> P w \<Longrightarrow> P (snd (send_fragmented_with_id E data addr nk maxd dst mid w))"
  by (auto simp: send_fragmented_with_id_def Let_def split_beta handshake_sealed send chunks_sent split: sum.splits prod.splits)

lemma message_sent:
  "addr \<in> A \<Longrightarrow> P w \<Longrightarrow> P (snd (send_message_with_id E n m addr dst mid w))"
  "addr \<in> A \<Longrightarrow> P w \<Longrightarrow> P (snd (send_message E n m addr dst w))"
proof -
  have *: "snd (send_message_with_id E n m addr dst mid w) = snd (send_fragmented_with_id E m addr (n_network_key n) (n_max_datagram n) dst mid w)" for w mid
    by (simp add: send_message_with_id_def split_beta split: sum.splits)
  then show "addr \<in> A \<Longrightarrow> P w \<Longrightarrow> P (snd (send_message_with_id E n m addr dst mid w))"
    "addr \<in> A \<Longrightarrow> P w \<Longrightarrow> P (snd (send_message E n m addr dst w))"
    by (simp_all add: send_message_def Let_def split_beta fragmented number)
qed

text \<open>Checking a handshake.\<close>

lemma bound: "(\<And>w. P w \<Longrightarrow> P (snd (m w))) \<Longrightarrow> (\<And>a w. P w \<Longrightarrow> P (snd (f a w))) \<Longrightarrow> P w \<Longrightarrow> P (snd (hbind m f w))"
  unfolding hbind_def by (auto split: prod.splits sum.splits) (metis snd_conv)+

lemma verified: "P w \<Longrightarrow> P (snd (Cert_verify E cert ca w))"
  using clock [of w] by (simp add: Cert_verify_def Let_def split_beta)

lemma checked:
  "P w \<Longrightarrow> P (snd (hlift r w))" "P w \<Longrightarrow> P (snd (hguard c e w))"
  "P w \<Longrightarrow> P (snd (validate_timestamp ts w))" "P w \<Longrightarrow> P (snd (verify_peer_cert_and_sig E cert ca m ed ml w))"
  by (auto simp: hlift_def hguard_def validate_timestamp_def verify_peer_cert_and_sig_def Let_def split_beta seconds verified)

lemma parsed: "P w \<Longrightarrow> P (snd (parse_handshake_1 E data ca w))" "P w \<Longrightarrow> P (snd (parse_handshake_2 E data hs1 ca w))"
  unfolding parse_handshake_1_def parse_handshake_2_def Let_def split_beta by (intro bound checked; assumption)+

lemma processed_2: "P w \<Longrightarrow> P (snd (process_handshake_2 E data ini nk ca w))"
  using parsed(2) [of w E _ "hi_msg ini" ca]
  by (auto simp: process_handshake_2_def Let_def split: option.splits prod.splits sum.splits) (metis snd_conv)+

lemma session_id_drawn: "P w \<Longrightarrow> random_session_id w = Some (sid, w') \<Longrightarrow> P w'"
  using random_session_id_draws draw by blast

lemma ephemeral: "P w \<Longrightarrow> P (snd (generate_ephemeral E w))" "P w \<Longrightarrow> P (snd (generate_reusable_ephemeral E w))"
  using ephemeral_shape [of E w] by (auto intro: draw)

lemma created:
  assumes "P w" and "create_handshake_1 E cert sk nk relay w = Some (ini, w')"
  shows "P w' \<and> hi_my_rx_session_id ini \<noteq> 0"
proof -
  let ?w1 = "snd (generate_reusable_ephemeral E w)"
  obtain sid w2 where sid: "random_session_id ?w1 = Some (sid, w2)"
    using assms(2) by (cases "random_session_id ?w1") (auto simp: create_handshake_1_def Let_def split_beta)
  then have "P w2" "sid \<noteq> 0"
    using assms(1) session_id_drawn [OF ephemeral(2)] random_session_id_draws by blast+
  then show ?thesis
    using assms(2) sid by (auto simp: create_handshake_1_def Let_def split_beta seconds fill padding handshake_sealed)
qed

lemma processed_1:
  assumes "P w" and "process_handshake_1 E data cert sk nk ca relay w = Some (r, w')"
  shows "P w'"
proof (cases "open_handshake E nk data")
  case None
  with assms show ?thesis by (simp add: process_handshake_1_def)
next
  case (Some pt)
  obtain p w1 where p: "parse_handshake_1 E pt ca w = (p, w1)" by fastforce
  then have w1: "P w1" using parsed(1) [OF assms(1), of E pt ca] by simp
  show ?thesis
  proof (cases p)
    case (Inl e)
    with assms Some p w1 show ?thesis by (simp add: process_handshake_1_def)
  next
    case (Inr hs1)
    with assms Some p obtain sid w2 where sid: "random_session_id w1 = Some (sid, w2)"
      by (cases "random_session_id w1") (auto simp: process_handshake_1_def)
    then have "P w2" using w1 by (blast intro: session_id_drawn)
    then show ?thesis
      using assms(2) Some p Inr sid
      by (auto simp: process_handshake_1_def Let_def split_beta ephemeral fill seconds padding handshake_sealed split: if_splits)
  qed
qed

lemma started:
  assumes "start_handshake E n addr pid name w = Some (b, n', w')" and "addr \<in> A" and "P w"
  shows "P w'"
proof (cases "list_ex (\<lambda>(_, p). handshake_duplicate addr pid p) (n_pending n)")
  case True
  with assms show ?thesis by (simp add: start_handshake_def)
next
  case False
  with assms(1) obtain ini w1 where c: "create_handshake_1 E (n_cert n) (n_signing_key n) (n_network_key n) (n_am_relay n) w = Some (ini, w1)"
    by (auto simp: start_handshake_def split: bind_splits)
  then have "P w1" using created [OF assms(3)] by blast
  with False assms c show ?thesis
    by (auto simp: start_handshake_def Let_def split_beta message_sent instant split: if_splits)
qed

end

text \<open>Nothing is sent, written or routed: an instance without addresses.\<close>

interpretation silent: world_closed "same_outputs w0" "{}"
  by unfold_locales (auto simp: draws_def same_outputs_def instant_now_def unix_now_def)

end
