(* ===== verification/Node_Effects.thy ===== *)
theory Node_Effects
  imports World_Closed
begin

text \<open>
  What the node's operations do to the world: only \<open>handle_data\<close> writes to the TUN device, and no
  operation silences the random generator. \<open>quiet\<close> states both of two worlds; every operation has one
  rule in \<open>quiet_simps\<close>, by which the rules of its callers are proved by rewriting. Also that the
  operations which draw a session id return while the generator is alive.
\<close>

named_theorems quiet_simps \<open>operations that neither write to the TUN device nor silence the generator\<close>

definition quiet :: "world \<Rightarrow> world \<Rightarrow> bool" where
  "quiet w w' \<longleftrightarrow> tun_out w' = tun_out w \<and> (rng_live w \<longrightarrow> rng_live w')"

lemma quiet_refl [quiet_simps]: "quiet w w"
  by (simp add: quiet_def)

lemma quiet_trans: "quiet a b \<Longrightarrow> quiet b c \<Longrightarrow> quiet a c"
  by (simp add: quiet_def)

section \<open>The building blocks\<close>

interpretation quietly: world_closed "quiet w0" UNIV
  by unfold_locales
    (auto simp: quiet_def draws_def same_outputs_def instant_now_def unix_now_def send_to_def Let_def rng_live_def)

lemmas quiet_fold = quietly.loop
  and quiet_process_1 = quietly.processed_1
  and quiet_create = quietly.created
  and quiet_ephemeral = quietly.ephemeral
  and quiet_parse = quietly.parsed

lemmas quiet_instant [quiet_simps] = quietly.instant
  and quiet_blocks [quiet_simps] = quietly.clock quietly.fill quietly.number quietly.token_drawn quietly.padding
    quietly.send [simplified] quietly.wire [simplified] quietly.encrypted quietly.fragmented [simplified]
    quietly.message_sent [simplified]

lemmas quiet_process_2 [quiet_simps] = quietly.processed_2
  and quiet_verify [quiet_simps] = quietly.verified

lemma quiet_resolve [quiet_simps]: "quiet w0 w \<Longrightarrow> quiet w0 (snd (resolve name w))"
  by (simp add: quiet_def resolve_def rng_live_def)

lemma quiet_log_route [quiet_simps]: "quiet w0 w \<Longrightarrow> quiet w0 (log_route c w)"
  by (simp add: quiet_def log_route_def rng_live_def)

section \<open>Returning\<close>

lemma session_id_live: "rng_live w \<Longrightarrow> \<exists>sid w'. random_session_id w = Some (sid, w')"
  using random_session_id_returns unfolding rng_live_def by blast

lemma create_returns: "rng_live w \<Longrightarrow> create_handshake_1 E cert sk nk relay w \<noteq> None"
proof -
  assume "rng_live w"
  then have "rng_live (snd (generate_reusable_ephemeral E w))"
    using quiet_ephemeral(2) [OF quiet_refl] by (auto simp: quiet_def)
  then obtain sid w' where "random_session_id (snd (generate_reusable_ephemeral E w)) = Some (sid, w')"
    using session_id_live by blast
  then show ?thesis by (simp add: create_handshake_1_def Let_def split_beta)
qed

lemma process_1_returns: "rng_live w \<Longrightarrow> process_handshake_1 E data cert sk nk ca relay w \<noteq> None"
proof (cases "open_handshake E nk data")
  case None
  then show ?thesis by (simp add: process_handshake_1_def)
next
  case (Some pt)
  assume live: "rng_live w"
  obtain p w1 where p: "parse_handshake_1 E pt ca w = (p, w1)" by fastforce
  then have "rng_live w1" using quiet_parse(1) [OF quiet_refl [of w], of E pt ca] live by (simp add: quiet_def)
  then obtain sid w2 where "random_session_id w1 = Some (sid, w2)" using session_id_live by blast
  with Some p show ?thesis by (cases p) (auto simp: process_handshake_1_def Let_def split_beta)
qed

section \<open>The node's operations\<close>

lemma quiet_start:
  assumes "quiet w0 w" and "start_handshake E n addr pid name w = Some (b, n', w')"
  shows "quiet w0 w'"
  by (rule quietly.started [OF assms(2) UNIV_I assms(1)])

lemma start_returns: "rng_live w \<Longrightarrow> start_handshake E n addr pid name w \<noteq> None"
  using create_returns [of w E "n_cert n" "n_signing_key n" "n_network_key n" "n_am_relay n"]
  by (auto simp: start_handshake_def Let_def split_beta)

lemma quiet_log_routes [quiet_simps]: "quiet w0 w \<Longrightarrow> quiet w0 (log_routes E cmd iface rs w)"
  by (auto simp: log_routes_def quiet_simps intro: quiet_fold split: option.splits)

lemma quiet_add_peer [quiet_simps]:
  "quiet w0 w \<Longrightarrow> quiet w0 (snd (snd (add_peer E n pid key cert addr direct relayed relay tx rx ini sim w)))"
  by (simp add: add_peer_def Let_def split_beta quiet_simps)

lemma quiet_remove_peer [quiet_simps]: "quiet w0 w \<Longrightarrow> quiet w0 (snd (remove_peer E n pid w))"
  by (simp add: remove_peer_def quiet_simps split: option.splits)

lemma quiet_refresh [quiet_simps]: "quiet w0 w \<Longrightarrow> quiet w0 (snd (snd (refresh_lighthouse_address n l w)))"
  by (simp add: refresh_lighthouse_address_def Let_def split_beta quiet_simps)

lemma quiet_connect_loop:
  "quiet w0 w \<Longrightarrow> connect_loop E ls n w = Some (n', w') \<Longrightarrow> quiet w0 w'"
proof (induction ls arbitrary: n w)
  case (Cons x ls)
  obtain l c where x: "x = (l, c)" by force
  obtain a n1 w1 where r: "refresh_lighthouse_address n l w = (a, n1, w1)" by (metis prod_cases3)
  then have "quiet w0 w1" using quiet_refresh [OF Cons.prems(1), of n l] by simp
  with Cons r show ?case
    by (auto simp: x split: if_splits option.splits dest: quiet_start)
qed simp

lemma connect_loop_returns: "rng_live w \<Longrightarrow> connect_loop E ls n w \<noteq> None"
proof (induction E ls n w rule: connect_loop.induct)
  case (2 E l c ls n w)
  obtain a n1 w1 where r: "refresh_lighthouse_address n l w = (a, n1, w1)" by (metis prod_cases3)
  then have w1: "quiet w w1" using quiet_refresh [OF quiet_refl [of w], of n l] by simp
  then have "rng_live w1" using 2 by (simp add: quiet_def)
  then obtain b n2 w2 where s: "start_handshake E n1 a None (ls_name l) w1 = Some (b, n2, w2)"
    using start_returns [of w1 E n1 a None "ls_name l"] by auto
  then have "rng_live w2" using quiet_start [OF w1 s] 2 by (simp add: quiet_def)
  with 2 r s show ?case by (cases c) (auto simp del: option.collapse)
qed auto

lemma quiet_query_loop [quiet_simps]: "quiet w0 w \<Longrightarrow> quiet w0 (snd (query_loop E dst pids n w))"
  by (induction pids arbitrary: n w) (auto simp: Let_def split_beta quiet_simps split: option.splits)

lemma quiet_discovery [quiet_simps]: "quiet w0 w \<Longrightarrow> quiet w0 (snd (request_discovery E n dst w))"
  by (simp add: request_discovery_def Let_def split_beta quiet_simps)

lemma quiet_retransmit [quiet_simps]: "quiet w0 w \<Longrightarrow> quiet w0 (snd (retransmit_handshakes E n now w))"
  by (auto simp: retransmit_handshakes_def send_retransmission_def Let_def quiet_simps intro!: quiet_fold)

lemma quiet_keepalive_wire [quiet_simps]: "quiet w0 w \<Longrightarrow> quiet w0 (snd (snd (keepalive_wire E nk pid p tok w)))"
  by (simp add: keepalive_wire_def Let_def split_beta quiet_simps)

lemma quiet_maintain_keepalive [quiet_simps]:
  "quiet w0 w \<Longrightarrow> quiet w0 (snd (snd (snd (maintain_keepalive E n now pid p w))))"
  by (auto simp: maintain_keepalive_def Let_def split_beta quiet_simps split: PeerTick.splits)

lemma quiet_maintain_probe:
  assumes "quiet w0 w" and "maintain_probe E n now pid p w = Some (acts, p', w')"
  shows "quiet w0 w'"
proof -
  have k: "quiet w0 (snd (snd (keepalive_wire E (n_network_key n) pid q t (snd (random_token w)))))" for q t
    using assms(1) by (simp add: quiet_simps)
  from assms show ?thesis
    by (auto simp: maintain_probe_def Let_def split_beta quiet_simps split: option.splits PathProbe.splits) (metis k snd_conv)+
qed

lemma quiet_maintain_loop: "quiet w0 w \<Longrightarrow> maintain_loop E n now ps w = Some (ps', drops, acts, w') \<Longrightarrow> quiet w0 w'"
proof (induction ps arbitrary: w ps' drops acts)
  case (Cons x ps)
  obtain pid p where x: "x = (pid, p)" by force
  obtain r as1 p1 w1 where k: "maintain_keepalive E n now pid p w = (r, as1, p1, w1)" by (metis prod_cases4)
  then have "quiet w0 w1" using quiet_maintain_keepalive [OF Cons.prems(1), of E n now pid p] by simp
  with Cons.prems(2) k show ?case
    by (cases r) (auto simp: x bind_eq_Some_conv intro: Cons.IH quiet_maintain_probe)
qed simp

lemma quiet_action: "quiet w0 (snd s) \<Longrightarrow> quiet w0 (snd (do_action E a s))"
  by (cases a; cases s) (auto simp: quiet_simps)

lemma quiet_maintain:
  assumes w: "quiet w0 w" and m: "maintain_peers E n now w = Some s'"
  shows "quiet w0 (snd s')"
proof -
  have drops: "quiet w0 (snd s) \<Longrightarrow> quiet w0 (snd (fold (\<lambda>x s. remove_peer E (fst s) (fst x) (snd s)) ds s))" for ds :: "(u32 \<times> DropReason) list" and s
    by (induction ds arbitrary: s) (auto simp: split_beta quiet_simps)
  have acts: "quiet w0 (snd s) \<Longrightarrow> quiet w0 (snd (fold (do_action E) as s))" for as s
    by (induction as arbitrary: s) (auto simp: quiet_action)
  obtain ps ds as w1 where l: "maintain_loop E n now (n_peers n) w = Some (ps, ds, as, w1)"
    and s': "s' = fold (do_action E) as (fold (\<lambda>x s. remove_peer E (fst s) (fst x) (snd s)) ds (n\<lparr>n_peers := ps\<rparr>, w1))"
    using m by (auto simp: maintain_peers_def Let_def bind_eq_Some_conv case_prod_unfold)
  show ?thesis unfolding s' by (intro acts drops) (simp add: quiet_maintain_loop [OF w l])
qed

lemma quiet_tick: "quiet w0 w \<Longrightarrow> maintenance_tick E n w = Some s' \<Longrightarrow> quiet w0 (snd s')"
  by (auto simp: maintenance_tick_def Let_def split_beta quiet_simps bind_eq_Some_conv dest!: quiet_maintain [rotated])

section \<open>The receive path\<close>

lemma quiet_relay [quiet_simps]: "quiet w0 w \<Longrightarrow> quiet w0 (relay_datagram n data dst w)"
  by (simp add: relay_datagram_def quiet_simps split: option.splits)

lemma quiet_handshake_1:
  assumes "quiet w0 w" and "handle_handshake_1 E n src pkt w = Some (n', w')"
  shows "quiet w0 w'"
proof -
  let ?w1 = "snd (instant_now w)"
  have w1: "quiet w0 ?w1" using assms(1) by (simp add: quiet_simps)
  show ?thesis
  proof (cases "HandshakeCache_get (n_handshake_cache n) (blake3_hash E pkt) (fst (instant_now w))")
    case (Some e)
    with assms(2) w1 show ?thesis by (auto simp: handle_handshake_1_def Let_def split_beta quiet_simps)
  next
    case None
    with assms(2) obtain r w2 where r:
      "process_handshake_1 E pkt (n_cert n) (n_signing_key n) (n_network_key n) (n_ca_vk n) (n_am_relay n) ?w1 = Some (r, w2)"
      by (cases "process_handshake_1 E pkt (n_cert n) (n_signing_key n) (n_network_key n) (n_ca_vk n) (n_am_relay n) ?w1")
        (auto simp: handle_handshake_1_def Let_def split_beta)
    then have "quiet w0 w2" by (rule quiet_process_1 [OF w1])
    with assms(2) None r show ?thesis
      by (cases r) (auto simp: handle_handshake_1_def Let_def split_beta quiet_simps split: if_splits)
  qed
qed

lemma handshake_1_returns: "rng_live w \<Longrightarrow> handle_handshake_1 E n src pkt w \<noteq> None"
proof -
  assume "rng_live w"
  then have "rng_live (snd (instant_now w))" by (simp add: instant_now_def rng_live_def)
  then obtain r w2 where
    "process_handshake_1 E pkt (n_cert n) (n_signing_key n) (n_network_key n) (n_ca_vk n) (n_am_relay n) (snd (instant_now w)) = Some (r, w2)"
    using process_1_returns by fastforce
  then show ?thesis
    by (cases r) (auto simp: handle_handshake_1_def Let_def split_beta split: option.splits)
qed

lemma quiet_handshake_2 [quiet_simps]: "quiet w0 w \<Longrightarrow> quiet w0 (snd (handle_handshake_2 E n src pkt sid w))"
  using quiet_process_2 [of w0 w E pkt]
  by (auto simp: handle_handshake_2_def Let_def split_beta quiet_simps split: option.splits sum.splits prod.splits)

lemma quiet_answers [quiet_simps]: "quiet w0 w \<Longrightarrow> quiet w0 (snd (snd (lighthouse_answers E n rid target req found w)))"
  by (auto simp: lighthouse_answers_def Let_def split_beta quiet_simps split: option.splits)

lemma quiet_query [quiet_simps]: "quiet w0 w \<Longrightarrow> quiet w0 (snd (handle_lighthouse_query E n rid target w))"
  by (auto simp: handle_lighthouse_query_def Let_def split_beta quiet_simps intro!: quiet_fold split: option.splits)

lemma quiet_response:
  assumes "quiet w0 w" and "handle_lighthouse_response E n target pid addr cert w = Some (n', w')"
  shows "quiet w0 w'"
  using assms quiet_verify [OF assms(1), of E cert "n_ca_vk n"]
  by (auto simp: handle_lighthouse_response_def Let_def split_beta intro: quiet_start split: if_splits option.splits)

lemma response_returns: "rng_live w \<Longrightarrow> handle_lighthouse_response E n target pid addr cert w \<noteq> None"
  using quiet_verify [OF quiet_refl [of w], of E cert "n_ca_vk n"]
    start_returns [of "snd (Cert_verify E cert (n_ca_vk n) w)" E n addr "Some pid" "meta_name (meta (body cert))"]
  by (auto simp: handle_lighthouse_response_def Let_def split_beta quiet_def split: option.splits)

lemma quiet_keepalive [quiet_simps]:
  "quiet w0 w \<Longrightarrow> quiet w0 (snd (answer_keepalive E n pid tok src w))"
  "quiet w0 w \<Longrightarrow> quiet w0 (snd (handle_keepalive_ack n pid tok w))"
  by (auto simp: answer_keepalive_def handle_keepalive_ack_def Let_def split_beta quiet_simps split: option.splits)

lemma quiet_overlay [quiet_simps]: "quiet w0 w \<Longrightarrow> quiet w0 (snd (send_to_overlay E n pkt overlay w))"
  by (auto simp: send_to_overlay_def Let_def split_beta quiet_simps split: option.splits)

lemma quiet_notify [quiet_simps]: "quiet w0 w \<Longrightarrow> quiet w0 (snd (notify_shutdown E n w))"
  by (auto simp: notify_shutdown_def send_disconnect_def Let_def split_beta quiet_simps intro!: quiet_fold)

text \<open>Opening a session packet reads the clock and nothing else.\<close>

lemma open_session_world:
  "open_session_packet E n src pkt header pid w = Some (b, n', w') \<Longrightarrow> w' = snd (instant_now w)"
  by (auto simp: open_session_packet_def Let_def split_beta split: option.splits if_splits)

text \<open>A data packet is the one exception; it appends at most the packet itself.\<close>

lemma handle_data_effect:
  "handle_data E tun n pid pkt w = w \<or>
   tun \<and> accepts_destination E n pkt \<and> (\<exists>p. peer_of n pid = Some p \<and> peer_allows_ip_packet_source E p pkt)
     \<and> handle_data E tun n pid pkt w = tun_write pkt w"
  by (auto simp: handle_data_def split: option.splits)

lemma dispatch_effect:
  assumes "quiet w0 w" and "dispatch E tun src pid b n w = Some (n', w')"
  shows "quiet w0 w' \<or> (\<exists>sq pkt p. b = Data sq pkt \<and> tun \<and> accepts_destination E n pkt \<and> peer_of n pid = Some p
    \<and> peer_allows_ip_packet_source E p pkt \<and> n' = n \<and> w' = tun_write pkt w)"
proof (cases b)
  case (Data sq pkt)
  with assms handle_data_effect [of E tun n pid pkt w] show ?thesis by auto
next
  case (LighthouseResponse sq target found addr cert relay)
  with assms show ?thesis by (auto intro: quiet_response)
next
  case (LighthouseQuery sq target)
  with assms quiet_query [OF assms(1), of E n pid target] show ?thesis by auto
next
  case (Keepalive sq tok)
  with assms quiet_keepalive(1) [OF assms(1), of E n pid tok src] show ?thesis by auto
next
  case (KeepaliveAck sq tok)
  with assms quiet_keepalive(2) [OF assms(1), of n pid tok] show ?thesis by auto
next
  case (Disconnect sq)
  with assms quiet_remove_peer [OF assms(1), of E n pid] show ?thesis by auto
qed (use assms in \<open>auto simp: quiet_simps split: if_splits\<close>)

lemma dispatch_returns: "rng_live w \<Longrightarrow> dispatch E tun src pid b n w \<noteq> None"
  using response_returns by (cases b) auto

lemma rng_live_tun [simp]: "rng_live (tun_write pkt w) = rng_live w"
  by (simp add: rng_live_def tun_write_def)

lemma feed_world: "feed E a src data nk w = (r, a', w') \<Longrightarrow> quiet w0 w \<Longrightarrow> quiet w0 w'"
  by (auto simp: feed_def Let_def split_beta quiet_simps split: option.splits if_splits)

end
