(* ===== verification/Node_Inv.thy ===== *)
theory Node_Inv
  imports Node_Effects
begin

text \<open>
  The invariant of a node's state. Every peer in the table holds a certificate of the CA whose keys
  hash to the peer's id, with exactly the routes that certificate authorizes; every receive session,
  route and lighthouse slot points to a peer that is there; the other tables are well-formed.
  \<open>keeps\<close> relates two states of a node: the configuration is the same and the invariant carries over.
  Every operation has a rule for it in \<open>keeps_simps\<close>.
\<close>

named_theorems static_simps \<open>operations on a peer that keep its identity, keys and session\<close>
named_theorems keeps_simps \<open>operations on a node that keep its configuration and invariant\<close>

declare map_of_eq_Some_iff [simp del] Some_eq_map_of_iff [simp del]

section \<open>The invariant\<close>

text \<open>The part of a peer that is fixed while a session lasts.\<close>

definition peer_static :: "PeerState \<Rightarrow> string \<times> Cert \<times> bytes \<times> bytes \<times> bool \<times> u32 \<times> u32 \<times> IpNetwork list \<times> u32" where
  "peer_static p =
     (ps_name p, ps_cert p, ps_tx_key p, ps_rx_key p, ps_is_relay p, ps_tx_session_id p, ps_rx_session_id p,
      ps_routes p, ps_handshake_initiator_id p)"

definition peer_view :: "(u32, PeerState) hashmap \<Rightarrow> (u32 \<times> string \<times> Cert \<times> bytes \<times> bytes \<times> bool \<times> u32 \<times> u32 \<times> IpNetwork list \<times> u32) list" where
  "peer_view ps = map (\<lambda>(i, p). (i, peer_static p)) ps"

definition node_config :: "Node \<Rightarrow> Node" where
  "node_config n = n\<lparr>n_peers := [], n_pending := [], n_routes := RouteTable_new, n_rx_sessions := [], n_lighthouses := [],
     n_handshake_cache := HandshakeCache_new, n_discovery_pending := []\<rparr>"

definition peer_ok :: "ext \<Rightarrow> Node \<Rightarrow> u32 \<Rightarrow> PeerState \<Rightarrow> bool" where
  "peer_ok E n pid p \<longleftrightarrow>
     issued E (ps_cert p) (n_ca_vk n) \<and> pid = node_id_from_cert E (ps_cert p)
   \<and> ps_routes p = authorized_peer_routes E (ps_cert p)
   \<and> (\<exists>key. ps_tx_key p = derive_traffic_key E key (n_our_id n) pid \<and> ps_rx_key p = derive_traffic_key E key pid (n_our_id n))"

definition sessions_inv :: "ext \<Rightarrow> Node \<Rightarrow> bool" where
  "sessions_inv E n \<longleftrightarrow>
     hm_wf (n_peers n) \<and> hm_wf (n_rx_sessions n) \<and> routes_wf (n_routes n)
   \<and> (\<forall>pid p. peer_of n pid = Some p \<longrightarrow> peer_ok E n pid p)
   \<and> (\<forall>sid pid. map_of (n_rx_sessions n) sid = Some pid \<longrightarrow> (\<exists>p. peer_of n pid = Some p \<and> ps_rx_session_id p = sid))
   \<and> (\<forall>net pid. (net, pid) \<in> set (routes (n_routes n)) \<longrightarrow> pid \<in> dom (peer_of n))
   \<and> (\<forall>l pid. l \<in> set (n_lighthouses n) \<longrightarrow> ls_peer_id l = Some pid \<longrightarrow> pid \<in> dom (peer_of n))"

text \<open>The ephemeral keys of a handshake have the sizes of their types.\<close>

definition initiate_sized :: "HandshakeInitiate \<Rightarrow> bool" where
  "initiate_sized i \<longleftrightarrow> length (hi_eph_x25519_sk i) = 32 \<and> length (hi_eph_mlkem_sk i) = MLKEM_SK_LEN"

definition pending_inv :: "(u32, PendingHandshake) hashmap \<Rightarrow> bool" where
  "pending_inv m \<longleftrightarrow> hm_wf m \<and> (\<forall>sid h. (sid, h) \<in> set m \<longrightarrow>
     hi_my_rx_session_id (ph_initiate h) = sid \<and> sid \<noteq> 0 \<and> initiate_sized (ph_initiate h))"

definition node_inv :: "ext \<Rightarrow> Node \<Rightarrow> bool" where
  "node_inv E n \<longleftrightarrow>
     sessions_inv E n \<and> pending_inv (n_pending n) \<and> hm_wf (n_discovery_pending n) \<and> cache_inv (n_handshake_cache n)"

definition keeps :: "ext \<Rightarrow> Node \<Rightarrow> Node \<Rightarrow> bool" where
  "keeps E n0 n \<longleftrightarrow> node_config n = node_config n0 \<and> (node_inv E n0 \<longrightarrow> node_inv E n)"

lemma keeps_refl [keeps_simps]: "keeps E n n"
  by (simp add: keeps_def)

lemma keeps_trans: "keeps E a b \<Longrightarrow> keeps E b c \<Longrightarrow> keeps E a c"
  by (simp add: keeps_def)

lemma keepsI:
  assumes "keeps E n0 n" and "node_config n' = node_config n" and "node_inv E n \<Longrightarrow> node_inv E n'"
  shows "keeps E n0 n'"
  using assms by (auto simp: keeps_def)

lemma node_config_fields:
  assumes "node_config n' = node_config n"
  shows "n_our_id n' = n_our_id n" "n_ca_vk n' = n_ca_vk n" "n_network_key n' = n_network_key n"
    "n_am_relay n' = n_am_relay n" "n_am_lighthouse n' = n_am_lighthouse n" "n_local_networks n' = n_local_networks n"
    "n_cert n' = n_cert n" "n_signing_key n' = n_signing_key n" "n_max_datagram n' = n_max_datagram n"
    "n_timings n' = n_timings n" "n_iface_name n' = n_iface_name n" "n_running n' = n_running n"
    "n_keepalive_enabled n' = n_keepalive_enabled n"
  using assms by (cases n; cases n'; simp add: node_config_def)+

section \<open>Peers in place\<close>

lemma peer_view_of: "map_of (peer_view ps) = map_option peer_static \<circ> map_of ps"
  by (simp add: peer_view_def map_of_map)

lemma peer_view_keys: "map fst (peer_view ps) = hm_keys ps"
  by (simp add: peer_view_def split_beta comp_def)

lemma peer_view_update:
  assumes "map_of ps pid = Some p" and "peer_static p' = peer_static p"
  shows "peer_view (AList.update pid p' ps) = peer_view ps"
  using assms by (induction ps) (auto simp: peer_view_def split: if_splits)

lemma peer_ok_static: "peer_static p' = peer_static p \<Longrightarrow> peer_ok E n pid p' \<longleftrightarrow> peer_ok E n pid p"
  by (simp add: peer_ok_def peer_static_def)

lemma sessions_inv_view:
  assumes "sessions_inv E n" and "peer_view ps = peer_view (n_peers n)"
  shows "sessions_inv E (n\<lparr>n_peers := ps\<rparr>)"
proof -
  have same: "map_option peer_static (map_of ps i) = map_option peer_static (peer_of n i)" for i
    using arg_cong [OF assms(2), of "\<lambda>v. map_of v i"] by (simp add: peer_view_of)
  then have backward: "\<exists>p. peer_of n i = Some p \<and> peer_static p' = peer_static p" if "map_of ps i = Some p'" for i p'
    using that by (metis (no_types, lifting) map_option_eq_Some option.map(2))
  have forward: "\<exists>p'. map_of ps i = Some p' \<and> peer_static p' = peer_static p" if "peer_of n i = Some p" for i p
    using that same by (metis (no_types, lifting) map_option_eq_Some option.map(2))
  have ok: "peer_ok E (n\<lparr>n_peers := ps\<rparr>) i p = peer_ok E n i p" for i p by (simp add: peer_ok_def)
  have keys: "hm_keys ps = hm_keys (n_peers n)" using assms(2) by (metis peer_view_keys)
  have "\<forall>pid p. map_of ps pid = Some p \<longrightarrow> peer_ok E n pid p"
    using assms(1) backward peer_ok_static by (metis sessions_inv_def)
  moreover have "\<exists>p. map_of ps pid = Some p \<and> ps_rx_session_id p = sid" if s: "map_of (n_rx_sessions n) sid = Some pid" for sid pid
  proof -
    obtain p where p: "peer_of n pid = Some p" "ps_rx_session_id p = sid" using assms(1) s unfolding sessions_inv_def by blast
    then obtain p' where "map_of ps pid = Some p'" "peer_static p' = peer_static p" using forward by blast
    with p show ?thesis by (auto simp: peer_static_def)
  qed
  moreover have "dom (map_of ps) = dom (peer_of n)" using keys by (metis dom_map_of_conv_image_fst list.set_map)
  ultimately show ?thesis using assms(1) keys unfolding sessions_inv_def by (simp add: ok)
qed

lemma keeps_peers:
  assumes "keeps E n0 n" and "peer_view ps = peer_view (n_peers n)"
  shows "keeps E n0 (n\<lparr>n_peers := ps\<rparr>)"
  by (rule keepsI [OF assms(1)]) (use assms(2) in \<open>auto simp: node_config_def node_inv_def intro: sessions_inv_view\<close>)

lemma keeps_put_peer:
  assumes "keeps E n0 n" and "peer_of n pid = Some p" and "peer_static p' = peer_static p"
  shows "keeps E n0 (put_peer pid p' n)"
  unfolding put_peer_def by (rule keeps_peers [OF assms(1) peer_view_update]) (use assms in auto)

lemma static_ops [static_simps]:
  "peer_static (snd (next_seq p)) = peer_static p"
  "peer_static (snd (mark_seen p src now r k)) = peer_static p"
  "peer_static (snd (ack_keepalive p tok now)) = peer_static p"
  "peer_static (snd (tick p now T tok)) = peer_static p"
  by (auto simp: peer_static_def next_seq_def mark_seen_def ack_keepalive_def tick_def Let_def split: option.splits)

lemma probe_static: "take_path_probe p now T tok = Some (r, p') \<Longrightarrow> peer_static p' = peer_static p"
  by (auto simp: peer_static_def take_path_probe_def Let_def split: option.splits bind_splits if_splits)

lemma static_updates [static_simps]:
  "peer_static (p\<lparr>ps_rx_replay := v\<rparr>) = peer_static p"
  "peer_static (p\<lparr>ps_direct_addr := a, ps_next_probe := b\<rparr>) = peer_static p"
  by (simp_all add: peer_static_def)

section \<open>The other tables\<close>

lemma keeps_discovery:
  "keeps E n0 n \<Longrightarrow> (hm_wf (n_discovery_pending n) \<Longrightarrow> hm_wf m) \<Longrightarrow> keeps E n0 (n\<lparr>n_discovery_pending := m\<rparr>)"
  by (erule keepsI) (auto simp: node_config_def node_inv_def sessions_inv_def peer_ok_def)

lemma keeps_cache:
  "keeps E n0 n \<Longrightarrow> (cache_inv (n_handshake_cache n) \<Longrightarrow> cache_inv c) \<Longrightarrow> keeps E n0 (n\<lparr>n_handshake_cache := c\<rparr>)"
  by (erule keepsI) (auto simp: node_config_def node_inv_def sessions_inv_def peer_ok_def)

lemma keeps_pending:
  "keeps E n0 n \<Longrightarrow> (pending_inv (n_pending n) \<Longrightarrow> pending_inv m) \<Longrightarrow> keeps E n0 (n\<lparr>n_pending := m\<rparr>)"
  by (erule keepsI) (auto simp: node_config_def node_inv_def sessions_inv_def peer_ok_def)

lemma keeps_lighthouses:
  assumes "keeps E n0 n"
    and "\<And>l pid. sessions_inv E n \<Longrightarrow> l \<in> set ls \<Longrightarrow> ls_peer_id l = Some pid \<Longrightarrow> pid \<in> dom (peer_of n)"
  shows "keeps E n0 (n\<lparr>n_lighthouses := ls\<rparr>)"
proof (rule keepsI [OF assms(1)])
  assume inv: "node_inv E n"
  then have "\<forall>l pid. l \<in> set ls \<longrightarrow> ls_peer_id l = Some pid \<longrightarrow> pid \<in> dom (peer_of n)"
    using assms(2) by (auto simp: node_inv_def)
  with inv show "node_inv E (n\<lparr>n_lighthouses := ls\<rparr>)"
    unfolding node_inv_def sessions_inv_def by (simp add: peer_ok_def)
qed (simp add: node_config_def)

lemma pending_inv_update:
  "pending_inv m \<Longrightarrow> hi_my_rx_session_id (ph_initiate h) = sid \<Longrightarrow> sid \<noteq> 0 \<Longrightarrow> initiate_sized (ph_initiate h) \<Longrightarrow> pending_inv (AList.update sid h m)"
  using hm_wf_update [of m sid h] unfolding pending_inv_def by (auto dest!: set_update)

lemma pending_inv_delete: "pending_inv m \<Longrightarrow> pending_inv (AList.delete sid m)"
  by (auto simp: pending_inv_def hm_wf_delete dest: set_delete)

section \<open>Adding and removing peers\<close>

lemma set_insert_route: "(net, i) \<in> set (routes (RouteTable_insert t r pid)) \<Longrightarrow> i = pid \<or> (net, i) \<in> set (routes t)"
  by (auto simp: RouteTable_insert_def)

lemma routes_wf_fold: "routes_wf t \<Longrightarrow> routes_wf (fold (\<lambda>r t. RouteTable_insert t r pid) rs t)"
  by (induction rs arbitrary: t) (auto simp: routes_wf_insert)

lemma set_fold_routes:
  "(net, i) \<in> set (routes (fold (\<lambda>r t. RouteTable_insert t r pid) rs t)) \<Longrightarrow> i = pid \<or> (net, i) \<in> set (routes t)"
  by (induction rs arbitrary: t) (auto dest: set_insert_route)

definition without_session :: "PeerState option \<Rightarrow> (u32, u32) hashmap \<Rightarrow> (u32, u32) hashmap" where
  "without_session previous m = (case previous of None \<Rightarrow> m | Some old \<Rightarrow> AList.delete (ps_rx_session_id old) m)"

lemma sessions_inv_add:
  assumes inv: "sessions_inv E n" and p: "peer_ok E n pid p"
  shows "sessions_inv E (n\<lparr>n_peers := AList.update pid p (n_peers n),
    n_rx_sessions := AList.update (ps_rx_session_id p) pid (without_session (peer_of n pid) (n_rx_sessions n)),
    n_routes := fold (\<lambda>r t. RouteTable_insert t r pid) rs (n_routes n)\<rparr>)" (is "sessions_inv E ?n")
proof -
  have ok: "peer_ok E ?n i q = peer_ok E n i q" for i q by (simp add: peer_ok_def)
  have peers: "peer_of ?n = (peer_of n)(pid \<mapsto> p)" by (simp add: update_conv')
  have wf: "hm_wf (n_peers ?n)" "hm_wf (n_rx_sessions ?n)" "routes_wf (n_routes ?n)"
    using inv by (simp_all add: sessions_inv_def hm_wf_update hm_wf_delete routes_wf_fold without_session_def split: option.splits)
  have sess: "\<exists>q. peer_of ?n i = Some q \<and> ps_rx_session_id q = sid" if s: "map_of (n_rx_sessions ?n) sid = Some i" for sid i
  proof (cases "sid = ps_rx_session_id p")
    case True
    with s show ?thesis by (simp add: peers update_conv')
  next
    case False
    with s have old: "map_of (without_session (peer_of n pid) (n_rx_sessions n)) sid = Some i" by (simp add: update_conv')
    then have "map_of (n_rx_sessions n) sid = Some i"
      by (auto simp: without_session_def delete_conv' split: option.splits if_splits)
    then obtain q where q: "peer_of n i = Some q" "ps_rx_session_id q = sid" using inv unfolding sessions_inv_def by blast
    with old have "i \<noteq> pid" by (auto simp: without_session_def delete_conv')
    with q show ?thesis by (simp add: update_conv')
  qed
  have "pid' \<in> dom (peer_of ?n)" if "(net, pid') \<in> set (routes (n_routes ?n))" for net pid'
    using set_fold_routes [of net pid' pid rs "n_routes n"] that inv unfolding peers sessions_inv_def by auto
  moreover have "peer_ok E ?n i q" if "peer_of ?n i = Some q" for i q
    using that inv p unfolding peers ok sessions_inv_def by (auto split: if_splits)
  moreover have "i \<in> dom (peer_of ?n)" if "l \<in> set (n_lighthouses ?n)" "ls_peer_id l = Some i" for l i
    using that inv unfolding peers sessions_inv_def by auto
  ultimately show ?thesis using wf sess unfolding sessions_inv_def by blast
qed

text \<open>What \<open>add_peer\<close> does when it accepts the session.\<close>

definition with_peer :: "ext \<Rightarrow> Node \<Rightarrow> u32 \<Rightarrow> PeerState \<Rightarrow> Node" where
  "with_peer E n pid p =
     bind_lighthouse (ps_addr p) (ps_name p) pid
       (n\<lparr>n_peers := AList.update pid p (n_peers n),
          n_rx_sessions := AList.update (ps_rx_session_id p) pid (without_session (peer_of n pid) (n_rx_sessions n)),
          n_routes := fold (\<lambda>r t. RouteTable_insert t r pid) (ps_routes p) (n_routes n)\<rparr>)"

lemma add_peer_eq:
  "fst (snd (add_peer E n pid key cert addr direct relayed relay tx rx ini sim w)) =
     (if accept_handshake_session (n_our_id n) pid (map_option ps_handshake_initiator_id (peer_of n pid)) ini sim
      then with_peer E n pid (new_peer E n pid key cert addr direct relayed relay tx rx ini (fst (instant_now w)))
      else n)"
  by (simp add: add_peer_def Let_def split_beta put_peer_def without_session_def with_peer_def new_peer_def
      split: option.splits)

lemma keeps_bind:
  assumes "keeps E n0 n" and "pid \<in> dom (peer_of n)"
  shows "keeps E n0 (bind_lighthouse addr name pid n)"
  unfolding bind_lighthouse_def
  by (rule keeps_lighthouses [OF assms(1)]) (use assms(2) in \<open>auto simp: sessions_inv_def split: if_splits\<close>)

lemma keeps_add_peer:
  assumes "keeps E n0 n" and "issued E cert (n_ca_vk n)" and "pid = node_id_from_cert E cert"
  shows "keeps E n0 (fst (snd (add_peer E n pid key cert addr direct relayed relay tx rx ini sim w)))"
proof -
  let ?p = "new_peer E n pid key cert addr direct relayed relay tx rx ini (fst (instant_now w))"
  have "peer_ok E n pid ?p" using assms(2,3) by (auto simp: peer_ok_def new_peer_def Let_def)
  then have "keeps E n0 (n\<lparr>n_peers := AList.update pid ?p (n_peers n),
      n_rx_sessions := AList.update (ps_rx_session_id ?p) pid (without_session (peer_of n pid) (n_rx_sessions n)),
      n_routes := fold (\<lambda>r t. RouteTable_insert t r pid) (ps_routes ?p) (n_routes n)\<rparr>)"
    using sessions_inv_add [of E n pid ?p "ps_routes ?p"]
    by (intro keepsI [OF assms(1)]) (auto simp: node_config_def node_inv_def)
  then have "keeps E n0 (with_peer E n pid ?p)"
    unfolding with_peer_def by (rule keeps_bind) (simp add: update_conv')
  then show ?thesis using assms(1) by (simp add: add_peer_eq)
qed

lemma keeps_remove_peer [keeps_simps]: "keeps E n0 n \<Longrightarrow> keeps E n0 (fst (remove_peer E n pid w))"
proof (cases "peer_of n pid")
  case None
  then show "keeps E n0 n \<Longrightarrow> ?thesis" by (simp add: remove_peer_def)
next
  case (Some p)
  assume k: "keeps E n0 n"
  let ?n = "fst (remove_peer E n pid w)"
  have "sessions_inv E ?n" if inv: "sessions_inv E n"
  proof -
    have peers: "peer_of ?n = (peer_of n)(pid := None)" using Some by (simp add: remove_peer_def delete_conv')
    have ok: "peer_ok E ?n i q = peer_ok E n i q" for i q using Some by (simp add: peer_ok_def remove_peer_def)
    have "hm_wf (n_peers ?n)" "hm_wf (n_rx_sessions ?n)" "routes_wf (n_routes ?n)"
      using inv Some by (simp_all add: remove_peer_def sessions_inv_def hm_wf_delete routes_wf_remove)
    moreover have "\<exists>q. peer_of ?n i = Some q \<and> ps_rx_session_id q = sid" if s: "map_of (n_rx_sessions ?n) sid = Some i" for sid i
    proof -
      from s have "sid \<noteq> ps_rx_session_id p" "map_of (n_rx_sessions n) sid = Some i"
        using Some by (auto simp: remove_peer_def delete_conv' split: if_splits)
      then obtain q where "peer_of n i = Some q" "ps_rx_session_id q = sid" "i \<noteq> pid"
        using inv Some unfolding sessions_inv_def by (metis option.inject)
      then show ?thesis by (simp add: peers)
    qed
    moreover have "i \<in> dom (peer_of ?n)" if "(net, i) \<in> set (routes (n_routes ?n))" for net i
      using that inv Some unfolding peers sessions_inv_def by (auto simp: remove_peer_def RouteTable_remove_peer_def)
    moreover have "i \<in> dom (peer_of ?n)" if "l \<in> set (n_lighthouses ?n)" "ls_peer_id l = Some i" for l i
      using that inv Some unfolding peers sessions_inv_def by (auto simp: remove_peer_def split: if_splits)
    ultimately show ?thesis using inv unfolding sessions_inv_def ok peers by (auto split: if_splits)
  qed
  then show ?thesis
    using Some by (intro keepsI [OF k]) (auto simp: node_inv_def remove_peer_def node_config_def)
qed

section \<open>Every operation keeps the invariant\<close>

lemma keeps_peer_tx: "keeps E n0 n \<Longrightarrow> peer_tx n pid = Some (tx, n') \<Longrightarrow> keeps E n0 n'"
  by (auto simp: peer_tx_def Let_def split_beta static_simps split: option.splits intro: keeps_put_peer)

lemma create_sized: "create_handshake_1 E cert sk nk relay w = Some (ini, w') \<Longrightarrow> initiate_sized ini"
  by (auto simp: create_handshake_1_def generate_reusable_ephemeral_def generate_mlkem_keypair_def fill_bytes_def Let_def split_beta
      initiate_sized_def split: bind_splits)

lemma keeps_start:
  assumes "keeps E n0 n" and "start_handshake E n addr pid name w = Some (b, n', w')"
  shows "keeps E n0 n'"
proof (cases "list_ex (\<lambda>(_, p). handshake_duplicate addr pid p) (n_pending n)")
  case True
  with assms show ?thesis by (simp add: start_handshake_def)
next
  case False
  with assms(2) obtain ini w1 where c: "create_handshake_1 E (n_cert n) (n_signing_key n) (n_network_key n) (n_am_relay n) w = Some (ini, w1)"
    by (auto simp: start_handshake_def split: bind_splits)
  then have "hi_my_rx_session_id ini \<noteq> 0" "initiate_sized ini" using quiet_create [OF quiet_refl] create_sized by blast+
  with False assms c show ?thesis
    by (auto simp: start_handshake_def Let_def split_beta PendingHandshake_new_def split: if_splits
        intro!: keeps_pending pending_inv_update)
qed

lemma slot_bound: "sessions_inv E n \<Longrightarrow> l \<in> set (n_lighthouses n) \<Longrightarrow> ls_peer_id l = Some i \<Longrightarrow> \<exists>p. peer_of n i = Some p"
  unfolding sessions_inv_def by blast

lemma keeps_refresh [keeps_simps]: "keeps E n0 n \<Longrightarrow> keeps E n0 (fst (snd (refresh_lighthouse_address n l w)))"
  by (auto simp: refresh_lighthouse_address_def Let_def split_beta split: if_splits
      intro!: keeps_lighthouses) (blast intro: slot_bound)+

lemma keeps_connect_loop: "keeps E n0 n \<Longrightarrow> connect_loop E ls n w = Some (n', w') \<Longrightarrow> keeps E n0 n'"
proof (induction ls arbitrary: n w)
  case (Cons x ls)
  obtain l c where x: "x = (l, c)" by force
  obtain a n1 w1 where r: "refresh_lighthouse_address n l w = (a, n1, w1)" by (metis prod_cases3)
  then have "keeps E n0 n1" using keeps_refresh [OF Cons.prems(1), of l w] by simp
  with Cons r show ?case
    by (auto simp: x split: if_splits option.splits dest: keeps_start)
qed simp

lemma keeps_query_loop [keeps_simps]: "keeps E n0 n \<Longrightarrow> keeps E n0 (fst (query_loop E dst pids n w))"
  by (induction pids arbitrary: n w) (auto simp: Let_def split_beta dest: keeps_peer_tx split: option.splits)

lemma keeps_request_discovery [keeps_simps]: "keeps E n0 n \<Longrightarrow> keeps E n0 (fst (request_discovery E n dst w))"
  by (auto simp: request_discovery_def Let_def split_beta keeps_simps hm_wf_update intro!: keeps_query_loop keeps_discovery)

lemma retransmit_one_initiate: "ph_initiate (fst (retransmit_one relays now T h)) = ph_initiate h"
  by (auto simp: retransmit_one_def record_attempt_def Let_def split: option.splits)

lemma keeps_retransmit [keeps_simps]: "keeps E n0 n \<Longrightarrow> keeps E n0 (fst (retransmit_handshakes E n now w))"
  by (auto simp: retransmit_handshakes_def Let_def pending_inv_def comp_def split_beta retransmit_one_initiate
      distinct_map_filter intro!: keeps_pending)

lemma keepalive_wire_static [static_simps]: "peer_static (fst (snd (keepalive_wire E nk pid p tok w))) = peer_static p"
  by (simp add: keepalive_wire_def Let_def split_beta static_simps)

lemma maintain_keepalive_static [static_simps]:
  "peer_static (fst (snd (snd (maintain_keepalive E n now pid p w)))) = peer_static p"
  using static_ops(4) [of p now "n_timings n" "fst (random_token w)"]
  by (auto simp: maintain_keepalive_def Let_def split_beta static_simps split: PeerTick.splits)

lemma maintain_probe_static: "maintain_probe E n now pid p w = Some (acts, p', w') \<Longrightarrow> peer_static p' = peer_static p"
  by (auto simp: maintain_probe_def Let_def split_beta split: option.splits PathProbe.splits dest!: probe_static)
    (metis keepalive_wire_static fst_conv)+

lemma maintain_loop_view: "maintain_loop E n now ps w = Some (ps', drops, acts, w') \<Longrightarrow> peer_view ps' = peer_view ps"
proof (induction ps arbitrary: w ps' drops acts)
  case (Cons x ps)
  obtain pid p where x: "x = (pid, p)" by force
  obtain r as1 p1 w1 where k: "maintain_keepalive E n now pid p w = (r, as1, p1, w1)" by (metis prod_cases4)
  then have "peer_static p1 = peer_static p" using maintain_keepalive_static [of E n now pid p w] by simp
  with Cons.prems k show ?case
    by (cases r) (auto simp: x bind_eq_Some_conv peer_view_def dest!: maintain_probe_static Cons.IH)
qed (simp add: peer_view_def)

lemma keeps_action: "keeps E n0 (fst s) \<Longrightarrow> keeps E n0 (fst (do_action E a s))"
  by (cases a; cases s) (auto simp: keeps_simps)

lemma keeps_maintain:
  assumes n: "keeps E n0 n" and m: "maintain_peers E n now w = Some s'"
  shows "keeps E n0 (fst s')"
proof -
  have drops: "keeps E n0 (fst s) \<Longrightarrow> keeps E n0 (fst (fold (\<lambda>x s. remove_peer E (fst s) (fst x) (snd s)) ds s))" for ds :: "(u32 \<times> DropReason) list" and s
    by (induction ds arbitrary: s) (auto simp: keeps_simps)
  have acts: "keeps E n0 (fst s) \<Longrightarrow> keeps E n0 (fst (fold (do_action E) as s))" for as s
    by (induction as arbitrary: s) (auto simp: keeps_action)
  obtain ps ds as w1 where l: "maintain_loop E n now (n_peers n) w = Some (ps, ds, as, w1)"
    and s': "s' = fold (do_action E) as (fold (\<lambda>x s. remove_peer E (fst s) (fst x) (snd s)) ds (n\<lparr>n_peers := ps\<rparr>, w1))"
    using m by (auto simp: maintain_peers_def Let_def bind_eq_Some_conv case_prod_unfold)
  show ?thesis unfolding s' by (intro acts drops) (simp add: keeps_peers [OF n] maintain_loop_view [OF l])
qed

lemma keeps_tick: "keeps E n0 n \<Longrightarrow> maintenance_tick E n w = Some s' \<Longrightarrow> keeps E n0 (fst s')"
  by (auto simp: maintenance_tick_def Let_def split_beta keeps_simps hm_wf_filter cache_inv_cleanup bind_eq_Some_conv
      intro!: keeps_discovery keeps_cache dest!: keeps_maintain [rotated])

section \<open>The receive path keeps the invariant\<close>

lemma keeps_note [keeps_simps]: "keeps E n0 n \<Longrightarrow> keeps E n0 (note_direct_endpoint n pid addr)"
  by (auto simp: note_direct_endpoint_def static_simps split: option.splits intro!: keeps_put_peer)

lemma process_1_issued: "process_handshake_1 E data cert sk nk ca relay w = Some (Inr r, w') \<Longrightarrow> issued E (hr_peer_cert r) ca"
  by (drule process_handshake_1_accepts) (auto simp: authentic_def)

lemma process_2_issued: "process_handshake_2 E data ini nk ca w = (Inr r, w') \<Longrightarrow> issued E (hres_peer_cert r) ca"
  by (drule process_handshake_2_accepts) (auto simp: authentic_def Let_def)

lemma keeps_handshake_1:
  assumes "keeps E n0 n" and "handle_handshake_1 E n src pkt w = Some (n', w')"
  shows "keeps E n0 n'"
proof (cases "HandshakeCache_get (n_handshake_cache n) (blake3_hash E pkt) (fst (instant_now w))")
  case (Some e)
  with assms show ?thesis by (auto simp: handle_handshake_1_def Let_def split_beta keeps_simps)
next
  case None
  let ?w1 = "snd (instant_now w)"
  from None assms(2) obtain r w2 where r:
    "process_handshake_1 E pkt (n_cert n) (n_signing_key n) (n_network_key n) (n_ca_vk n) (n_am_relay n) ?w1 = Some (r, w2)"
    by (cases "process_handshake_1 E pkt (n_cert n) (n_signing_key n) (n_network_key n) (n_ca_vk n) (n_am_relay n) ?w1")
      (auto simp: handle_handshake_1_def Let_def split_beta)
  show ?thesis
  proof (cases r)
    case (Inl e)
    with assms None r show ?thesis by (auto simp: handle_handshake_1_def Let_def split_beta)
  next
    case (Inr resp)
    with r have "issued E (hr_peer_cert resp) (n_ca_vk n)" by (simp add: process_1_issued)
    with assms None r Inr show ?thesis
      by (auto simp: handle_handshake_1_def Let_def split_beta cache_inv_insert split: if_splits
          intro!: keeps_add_peer keeps_cache)
  qed
qed

lemma keeps_handshake_2 [keeps_simps]:
  assumes "keeps E n0 n"
  shows "keeps E n0 (fst (handle_handshake_2 E n src pkt sid w))"
proof (cases "map_of (n_pending n) sid")
  case None
  with assms show ?thesis by (simp add: handle_handshake_2_def)
next
  case (Some h)
  obtain r w1 where r: "process_handshake_2 E pkt (ph_initiate h) (n_network_key n) (n_ca_vk n) w = (r, w1)" by fastforce
  show ?thesis
  proof (cases r)
    case (Inl e)
    with assms Some r show ?thesis by (simp add: handle_handshake_2_def)
  next
    case (Inr res)
    with r have "issued E (hres_peer_cert res) (n_ca_vk n)" by (simp add: process_2_issued)
    with assms Some r Inr show ?thesis
      by (auto simp: handle_handshake_2_def Let_def split_beta pending_inv_delete
          intro!: keeps_add_peer keeps_pending)
  qed
qed

lemma keeps_answers [keeps_simps]:
  assumes "keeps E n0 n" and "peer_of n rid = Some req"
  shows "keeps E n0 (fst (snd (lighthouse_answers E n rid target req found w)))"
proof -
  have n1: "keeps E n0 (put_peer rid (snd (next_seq req)) n)"
    by (rule keeps_put_peer [OF assms]) (simp add: static_simps)
  then show ?thesis
    by (auto simp: lighthouse_answers_def Let_def split_beta static_simps split: option.splits
        intro!: keeps_put_peer [OF n1])
qed

lemma keeps_lighthouse_query [keeps_simps]: "keeps E n0 n \<Longrightarrow> keeps E n0 (fst (handle_lighthouse_query E n rid target w))"
  by (auto simp: handle_lighthouse_query_def Let_def split_beta keeps_simps split: option.splits)

lemma keeps_response:
  assumes "keeps E n0 n" and "handle_lighthouse_response E n target pid addr cert w = Some (n', w')"
  shows "keeps E n0 n'"
  using assms
  by (auto simp: handle_lighthouse_response_def Let_def split_beta static_simps split: if_splits option.splits
      intro: keeps_start keeps_put_peer)

lemma keeps_answer_keepalive [keeps_simps]:
  "keeps E n0 n \<Longrightarrow> keeps E n0 (fst (answer_keepalive E n pid tok src w))"
  by (auto simp: answer_keepalive_def Let_def split_beta split: option.splits dest: keeps_peer_tx)

lemma keeps_keepalive_ack [keeps_simps]:
  "keeps E n0 n \<Longrightarrow> keeps E n0 (fst (handle_keepalive_ack n pid tok w))"
  by (auto simp: handle_keepalive_ack_def Let_def split_beta static_simps split: option.splits intro: keeps_put_peer)

lemma keeps_open_session:
  "keeps E n0 n \<Longrightarrow> open_session_packet E n src pkt header pid w = Some (b, n', w') \<Longrightarrow> keeps E n0 n'"
  by (auto simp: open_session_packet_def Let_def split_beta static_simps split: option.splits if_splits
      intro!: keeps_put_peer)

lemma keeps_dispatch: "keeps E n0 n \<Longrightarrow> dispatch E tun src pid b n w = Some (n', w') \<Longrightarrow> keeps E n0 n'"
  by (cases b)
    (auto dest: keeps_response,
      (metis keeps_remove_peer keeps_lighthouse_query keeps_answer_keepalive keeps_keepalive_ack fst_conv)+)

lemma keeps_session_packet:
  "keeps E n0 n \<Longrightarrow> handle_session_packet E tun n src pkt header w = Some (n', w') \<Longrightarrow> keeps E n0 n'"
  by (auto simp: handle_session_packet_def split: option.splits dest: keeps_open_session keeps_dispatch)

lemma keeps_packet: "keeps E n0 n \<Longrightarrow> handle_packet E tun n src pkt w = Some (n', w') \<Longrightarrow> keeps E n0 n'"
  using keeps_handshake_2 [of E n0 n src pkt _ w]
  by (auto simp: handle_packet_def split: option.splits if_splits dest: keeps_handshake_1 keeps_session_packet) (metis fst_conv)

lemma keeps_reassemble:
  "keeps E n0 n \<Longrightarrow> reassemble_and_handle E tun n a src data w = Some (n', a', w') \<Longrightarrow> keeps E n0 n'"
  by (auto simp: reassemble_and_handle_def Let_def split: prod.splits FeedResult.splits dest: keeps_packet)

lemma keeps_datagram:
  "keeps E n0 n \<Longrightarrow> handle_datagram E tun n a src data w = Some (n', a', w') \<Longrightarrow> keeps E n0 n'"
  by (auto simp: handle_datagram_def split: option.splits if_splits dest: keeps_reassemble)

lemma keeps_overlay [keeps_simps]: "keeps E n0 n \<Longrightarrow> keeps E n0 (fst (send_to_overlay E n pkt overlay w))"
  by (auto simp: send_to_overlay_def Let_def split_beta keeps_simps split: option.splits dest: keeps_peer_tx)

lemma keeps_notify [keeps_simps]: "keeps E n0 n \<Longrightarrow> keeps E n0 (fst (notify_shutdown E n w))"
  by (auto simp: notify_shutdown_def Let_def peer_view_def split_beta comp_def static_simps intro!: keeps_peers)

end
