(* ===== verification/Daemon_Safety.thy ===== *)
theory Daemon_Safety
  imports Daemon Node_Inv
begin

text \<open>
  The invariant of the whole daemon, over every interleaving of its threads' iterations and whatever
  arrives from the network: the node's invariant, the assembler's limits, and that everything ever
  handed to the TUN device was authorized by a certificate of the CA. The daemon is a
  \<open>partial_machine\<close>: while the random generator is alive, only a maintenance tick can fail to return, by a
  panic (\<open>tick_faulty\<close>; \<open>Node_Maintenance\<close> says when).
\<close>

declare map_of_eq_Some_iff [simp del] Some_eq_map_of_iff [simp del]

section \<open>What reaches the TUN device\<close>

text \<open>A packet that some certificate of the CA authorizes as to its source and this node's own
  certificate as to its destination.\<close>

definition authorized_packet :: "ext \<Rightarrow> Node \<Rightarrow> bytes \<Rightarrow> bool" where
  "authorized_packet E n pkt \<longleftrightarrow>
     (\<exists>cert ip. issued E cert (n_ca_vk n) \<and> parse_source_ip pkt = Some ip
        \<and> list_ex (\<lambda>r. net_contains E r ip) (authorized_peer_routes E cert))
   \<and> accepts_destination E n pkt"

lemma accepts_destination_cong:
  "n_local_networks n' = n_local_networks n \<Longrightarrow> accepts_destination E n' = accepts_destination E n"
  by (rule ext) (auto simp: accepts_destination_def split: option.splits)

lemma authorized_packet_cong:
  "n_local_networks n' = n_local_networks n \<Longrightarrow> n_ca_vk n' = n_ca_vk n \<Longrightarrow> authorized_packet E n' = authorized_packet E n"
  by (rule ext) (simp add: authorized_packet_def accepts_destination_cong [of n' n])

lemma peer_packet_authorized:
  "peer_ok E n pid p \<Longrightarrow> peer_allows_ip_packet_source E p pkt \<Longrightarrow> accepts_destination E n pkt \<Longrightarrow> authorized_packet E n pkt"
  by (auto simp: authorized_packet_def peer_ok_def peer_allows_ip_packet_source_def split: option.splits)

text \<open>The one way to the TUN device: a packet of a session, opened with the peer's key, with a fresh
  number, from an authorized source to an accepted destination.\<close>

definition delivers :: "ext \<Rightarrow> Node \<Rightarrow> bytes \<Rightarrow> bytes \<Rightarrow> bool" where
  "delivers E n packet pkt \<longleftrightarrow>
     (\<exists>header sq pid p.
        decrypt_packet E packet (n_network_key n) (ps_rx_key p) = Some (header, Data sq pkt)
      \<and> map_of (n_rx_sessions n) (session_id header) = Some pid \<and> peer_of n pid = Some p
      \<and> fst (accept (ps_rx_replay p) sq)
      \<and> peer_allows_ip_packet_source E p pkt \<and> accepts_destination E n pkt)"

lemma open_session_packet_SomeD:
  assumes "open_session_packet E n src packet header pid w = Some (b, n', w')"
  obtains p p' where "peer_of n pid = Some p" "decrypt_packet E packet (n_network_key n) (ps_rx_key p) = Some (header, b)"
    "fst (accept (ps_rx_replay p) (packet_seq b))" "n' = put_peer pid p' n" "peer_static p' = peer_static p"
    "ps_rx_replay p' = snd (accept (ps_rx_replay p) (packet_seq b))" "w' = snd (instant_now w)"
proof -
  obtain p where p: "peer_of n pid = Some p" using assms by (auto simp: open_session_packet_def split: option.splits)
  have replay: "ps_rx_replay (snd (mark_seen q src now r k)) = ps_rx_replay q" for q now r k
    by (simp add: mark_seen_def Let_def)
  let ?p' = "snd (mark_seen (p\<lparr>ps_rx_replay := snd (accept (ps_rx_replay p) (packet_seq b))\<rparr>) src (fst (instant_now w))
    (ps_addr p \<noteq> src \<and> list_ex (\<lambda>(i, other). i \<noteq> pid \<and> ps_is_relay other \<and> ps_addr other = src) (n_peers n))
    (case b of Keepalive x xa \<Rightarrow> True | _ \<Rightarrow> False))"
  show ?thesis
    by (rule that [of p ?p'])
      (use assms p in \<open>auto simp: open_session_packet_def Let_def split_beta static_simps replay split: option.splits if_splits\<close>)
qed

lemma peer_of_put [simp]: "peer_of (put_peer pid p n) = (peer_of n)(pid \<mapsto> p)"
  by (simp add: put_peer_def update_conv')

lemma put_peer_config [simp]: "node_config (put_peer pid p n) = node_config n"
  by (simp add: put_peer_def node_config_def)

lemma session_packet_effect:
  assumes "handle_session_packet E tun n src packet header w = Some (n', w')"
  shows "quiet w w' \<or> (\<exists>pkt. delivers E n packet pkt \<and> w' = tun_write pkt (snd (instant_now w)))"
proof (cases "map_of (n_rx_sessions n) (session_id header)")
  case None
  with assms show ?thesis by (simp add: handle_session_packet_def quiet_refl)
next
  case (Some pid)
  show ?thesis
  proof (cases "open_session_packet E n src packet header pid w")
    case None
    with assms Some show ?thesis by (simp add: handle_session_packet_def quiet_refl)
  next
    case (Some r)
    obtain b n1 w1 where r: "r = (b, n1, w1)" by (cases r)
    have d: "dispatch E tun src pid b n1 w1 = Some (n', w')"
      using assms \<open>map_of (n_rx_sessions n) (session_id header) = Some pid\<close> Some r by (simp add: handle_session_packet_def)
    from Some r obtain p p' where p: "peer_of n pid = Some p"
      "decrypt_packet E packet (n_network_key n) (ps_rx_key p) = Some (header, b)" "fst (accept (ps_rx_replay p) (packet_seq b))"
      "n1 = put_peer pid p' n" "peer_static p' = peer_static p" "w1 = snd (instant_now w)"
      by (auto elim: open_session_packet_SomeD)
    have w1: "quiet w w1" unfolding p(6) by (rule quiet_instant [OF quiet_refl])
    from dispatch_effect [OF w1 d] show ?thesis
    proof
      assume "\<exists>sq pkt q. b = Data sq pkt \<and> tun \<and> accepts_destination E n1 pkt \<and> peer_of n1 pid = Some q
        \<and> peer_allows_ip_packet_source E q pkt \<and> n' = n1 \<and> w' = tun_write pkt w1"
      then obtain sq pkt q where b: "b = Data sq pkt" "accepts_destination E n1 pkt" "peer_of n1 pid = Some q"
        "peer_allows_ip_packet_source E q pkt" "w' = tun_write pkt w1" by blast
      have "q = p'" using b(3) p(4) by simp
      then have "peer_allows_ip_packet_source E p pkt"
        using b(4) p(5) by (auto simp: peer_allows_ip_packet_source_def peer_static_def split: option.splits)
      moreover have "accepts_destination E n pkt" using b(2) accepts_destination_cong [of n1 n E] p(4) by (simp add: put_peer_def)
      ultimately have "delivers E n packet pkt"
        unfolding delivers_def using p b(1) \<open>map_of (n_rx_sessions n) (session_id header) = Some pid\<close> by auto
      with b(5) p(6) show ?thesis by blast
    qed simp
  qed
qed

lemma packet_effect:
  assumes "handle_packet E tun n src packet w = Some (n', w')"
  shows "quiet w w' \<or> (\<exists>pkt. delivers E n packet pkt \<and> w' = tun_write pkt (snd (instant_now w)))"
proof (cases "network_header E packet (n_network_key n)")
  case None
  with assms show ?thesis by (simp add: handle_packet_def quiet_refl)
next
  case (Some header)
  show ?thesis
    using assms Some session_packet_effect [of E tun n src packet header w n' w']
      quiet_handshake_1 [OF quiet_refl, of E n src packet w n' w'] quiet_handshake_2 [OF quiet_refl [of w], of E n src packet "session_id header"]
      quiet_relay [OF quiet_refl [of w], of n packet "dst_peer_id header"]
    by (auto simp: handle_packet_def split: if_splits)
qed

text \<open>Which packet is handled: the datagram itself, or the message it completes.\<close>

definition handed_on :: "ext \<Rightarrow> Node \<Rightarrow> FragmentAssembler \<Rightarrow> SocketAddr \<Rightarrow> bytes \<Rightarrow> world \<Rightarrow> bytes" where
  "handed_on E n a src data w =
     (case fst (feed E a src data (n_network_key n) w) of Complete message \<Rightarrow> message | _ \<Rightarrow> data)"

lemma datagram_effect:
  assumes "handle_datagram E tun n a src data w = Some (n', a', w')"
  shows "(rng_live w \<longrightarrow> rng_live w') \<and>
    (tun_out w' = tun_out w \<or> (\<exists>pkt. delivers E n (handed_on E n a src data w) pkt \<and> tun_out w' = tun_out w @ [pkt]))"
proof -
  obtain r a1 w1 where f: "feed E a src data (n_network_key n) w = (r, a1, w1)" by (metis prod_cases3)
  have w1: "quiet w w1" using feed_world [OF f quiet_refl] .
  have eff: "(rng_live w \<longrightarrow> rng_live w') \<and> (tun_out w' = tun_out w \<or> (\<exists>pkt. delivers E n packet pkt \<and> tun_out w' = tun_out w @ [pkt]))"
    if "handle_packet E tun n src packet w1 = Some (n', w')" for packet
    using packet_effect [OF that] w1 quiet_instant [OF w1] by (auto simp: quiet_def tun_write_def rng_live_def)
  have "reassemble_and_handle E tun n a src data w = Some (n', a', w') \<or> quiet w w'"
    using assms by (auto simp: handle_datagram_def quiet_simps split: option.splits if_splits)
  then show ?thesis
  proof
    assume re: "reassemble_and_handle E tun n a src data w = Some (n', a', w')"
    show ?thesis
    proof (cases r)
      case (Complete m)
      with re f eff [of m] show ?thesis by (auto simp: reassemble_and_handle_def handed_on_def)
    next
      case Buffered
      with re f w1 show ?thesis by (simp add: reassemble_and_handle_def quiet_def)
    next
      case NotFragment
      with re f eff [of data] show ?thesis by (auto simp: reassemble_and_handle_def handed_on_def)
    qed
  qed (simp add: quiet_def)
qed

lemma delivers_authorized: "node_inv E n \<Longrightarrow> delivers E n packet pkt \<Longrightarrow> authorized_packet E n pkt"
  unfolding delivers_def node_inv_def sessions_inv_def using peer_packet_authorized by blast

lemma packet_returns: "rng_live w \<Longrightarrow> handle_packet E tun n src packet w \<noteq> None"
proof -
  assume live: "rng_live w"
  have "handle_session_packet E tun n src packet header w \<noteq> None" for header
    using live dispatch_returns [of "snd (instant_now w)"] quiet_instant [OF quiet_refl [of w]]
    by (auto simp: handle_session_packet_def quiet_def split: option.splits dest!: open_session_world)
  then show ?thesis using handshake_1_returns [OF live] by (auto simp: handle_packet_def split: option.splits)
qed

lemma datagram_returns: "rng_live w \<Longrightarrow> handle_datagram E tun n a src data w \<noteq> None"
proof -
  assume live: "rng_live w"
  obtain r a1 w1 where f: "feed E a src data (n_network_key n) w = (r, a1, w1)" by (metis prod_cases3)
  have "rng_live w1" using feed_world [OF f quiet_refl] live by (simp add: quiet_def)
  then have "handle_packet E tun n src packet w1 \<noteq> None" for packet by (rule packet_returns)
  then show ?thesis
    using f by (auto simp: handle_datagram_def reassemble_and_handle_def split: option.splits FeedResult.splits)
qed

section \<open>The invariant of the daemon\<close>

text \<open>The configuration a daemon runs with; only a signal changes the two flags masked here.\<close>

definition daemon_config :: "Node \<Rightarrow> Node" where
  "daemon_config n = (node_config n)\<lparr>n_running := True, n_shutdown := False\<rparr>"

lemma daemon_config_fields:
  assumes "daemon_config n' = daemon_config n"
  shows "n_our_id n' = n_our_id n" "n_ca_vk n' = n_ca_vk n" "n_network_key n' = n_network_key n"
    "n_am_relay n' = n_am_relay n" "n_local_networks n' = n_local_networks n"
  using assms by (cases n; cases n'; simp add: node_config_def daemon_config_def)+

lemma daemon_config_keeps: "keeps E n n' \<Longrightarrow> daemon_config n' = daemon_config n"
  by (simp add: keeps_def daemon_config_def)

definition daemon_inv :: "ext \<Rightarrow> Node \<Rightarrow> daemon \<Rightarrow> bool" where
  "daemon_inv E n0 d \<longleftrightarrow>
     daemon_config (d_node d) = daemon_config n0 \<and> node_inv E (d_node d) \<and> asm_inv (d_assembler d)
   \<and> (\<forall>pkt\<in>set (tun_out (d_world d)). authorized_packet E n0 pkt)"

lemma authorized_in_daemon: "daemon_config n = daemon_config n0 \<Longrightarrow> authorized_packet E n = authorized_packet E n0"
  by (rule authorized_packet_cong) (simp_all add: daemon_config_fields [of n n0])

lemma datagram_asm: "asm_inv a \<Longrightarrow> handle_datagram E tun n a src data w = Some (n', a', w') \<Longrightarrow> asm_inv a'"
  using asm_inv_feed [of a E src data "n_network_key n" w]
  by (auto simp: handle_datagram_def reassemble_and_handle_def Let_def split_beta split: option.splits if_splits FeedResult.splits)

lemma received_ok:
  assumes inv: "daemon_inv E n0 d" and h: "handle_received E tun r (d_node d) (d_assembler d) (d_world d) = Some (n, a, w)"
  shows "daemon_inv E n0 (d\<lparr>d_node := n, d_assembler := a, d_world := w\<rparr>) \<and> (rng_live (d_world d) \<longrightarrow> rng_live w)"
proof (cases "\<exists>data src. r = Received data src \<and> take 65535 data \<noteq> []")
  case False
  with h have "n = d_node d \<and> a = d_assembler d \<and> w = d_world d"
    by (auto simp: handle_received_def split: recv_result.splits)
  with inv show ?thesis by (simp add: daemon_inv_def)
next
  case True
  then obtain data src where g: "handle_datagram E tun (d_node d) (d_assembler d) src data (d_world d) = Some (n, a, w)"
    using h by (auto simp: handle_received_def)
  have k: "keeps E (d_node d) n" by (rule keeps_datagram [OF keeps_refl g])
  have "authorized_packet E n0 pkt" if "delivers E (d_node d) packet pkt" for packet pkt
    using delivers_authorized [OF _ that] inv authorized_in_daemon [of "d_node d" n0 E] by (simp add: daemon_inv_def)
  with datagram_effect [OF g] datagram_asm [OF _ g] k daemon_config_keeps [OF k] inv show ?thesis
    by (auto simp: daemon_inv_def keeps_def)
qed

lemma quiet_cleanup [quiet_simps]: "quiet w0 w \<Longrightarrow> quiet w0 (snd (cleanup a w))"
  by (simp add: cleanup_def Let_def split_beta quiet_simps)

lemma periodic_cleanup_ok:
  "asm_inv a \<Longrightarrow> asm_inv (fst (periodic_cleanup a t w))" "quiet w (snd (snd (periodic_cleanup a t w)))"
  by (simp_all add: periodic_cleanup_def Let_def split_beta asm_inv_cleanup quiet_simps)

lemma receive_once_ok:
  assumes inv: "daemon_inv E n0 d"
    and step: "receive_once E tun r (d_node d) (d_assembler d) (d_last_cleanup d) (d_world d) = Some (n, a, t, w)"
  shows "daemon_inv E n0 (d\<lparr>d_node := n, d_assembler := a, d_last_cleanup := t, d_world := w\<rparr>) \<and> (rng_live (d_world d) \<longrightarrow> rng_live w)"
proof -
  obtain a1 w1 where h: "handle_received E tun r (d_node d) (d_assembler d) (d_world d) = Some (n, a1, w1)"
    and c: "periodic_cleanup a1 (d_last_cleanup d) w1 = (a, t, w)"
    using step by (auto simp: receive_once_def)
  have "asm_inv a1 \<Longrightarrow> asm_inv a" "quiet w1 w"
    using periodic_cleanup_ok(1) [of a1 "d_last_cleanup d" w1] periodic_cleanup_ok(2) [of w1 a1 "d_last_cleanup d"] c
    by simp_all
  with received_ok [OF inv h] show ?thesis by (simp add: daemon_inv_def quiet_def)
qed

lemma connect_ok:
  assumes "connect_lighthouses E n w = Some (n', w')"
  shows "keeps E n n' \<and> quiet w w'"
  using assms keeps_connect_loop [OF keeps_refl] quiet_connect_loop [OF quiet_refl]
  by (auto simp: connect_lighthouses_def Let_def)

lemma signal_keeps: "node_inv E (n\<lparr>n_running := False, n_shutdown := True\<rparr>) = node_inv E n"
    "daemon_config (n\<lparr>n_running := False, n_shutdown := True\<rparr>) = daemon_config n"
  by (simp_all add: node_inv_def sessions_inv_def peer_ok_def daemon_config_def node_config_def)

lemma daemon_inv_update:
  assumes "daemon_inv E n0 d" and "keeps E (d_node d) (fst s)" and "quiet (d_world d) (snd s)"
    and "d_node d' = fst s" and "d_world d' = snd s" and "d_assembler d' = d_assembler d"
  shows "daemon_inv E n0 d' \<and> (rng_live (d_world d) \<longrightarrow> rng_live (d_world d'))"
  using assms daemon_config_keeps [OF assms(2)] by (auto simp: daemon_inv_def keeps_def quiet_def)

lemma daemon_step_ok:
  assumes inv: "daemon_inv E n0 d" and step: "daemon_step E tun overlay e d = Some d'"
  shows "daemon_inv E n0 d' \<and> (rng_live (d_world d) \<longrightarrow> rng_live (d_world d'))"
proof (cases e)
  case (EvReceive r)
  with step inv receive_once_ok [OF inv, of tun r] show ?thesis by (auto split: if_splits)
next
  case (EvTun r)
  let ?s = "case r of TunPacket pkt \<Rightarrow> if take 65535 pkt \<noteq> [] then send_to_overlay E (d_node d) (take 65535 pkt) overlay (d_world d)
      else (d_node d, d_world d) | _ \<Rightarrow> (d_node d, d_world d)"
  have "keeps E (d_node d) (fst ?s)" "quiet (d_world d) (snd ?s)"
    by (auto simp: keeps_simps quiet_simps split: tun_read.splits)
  moreover have "d' = d \<or> d_node d' = fst ?s \<and> d_world d' = snd ?s \<and> d_assembler d' = d_assembler d"
    using EvTun step by (auto simp: send_once_def Let_def split_beta split: if_splits tun_read.splits)
  ultimately show ?thesis using daemon_inv_update [OF inv] inv by blast
next
  case EvPunch
  show ?thesis
  proof (cases "d_exit d \<noteq> None \<or> \<not> n_running (d_node d)")
    case True
    with EvPunch step inv show ?thesis by auto
  next
    case False
    with EvPunch step obtain n w where c: "connect_lighthouses E (d_node d) (d_world d) = Some (n, w)"
      and d': "d' = d\<lparr>d_node := n, d_world := w\<rparr>" by (auto split: if_splits)
    show ?thesis using daemon_inv_update [OF inv, of "(n, w)" d'] connect_ok [OF c] d' by simp
  qed
next
  case EvMaintain
  show ?thesis
  proof (cases "d_exit d \<noteq> None \<or> \<not> n_running (d_node d)")
    case True
    with EvMaintain step inv show ?thesis by auto
  next
    case False
    with EvMaintain step obtain n w where t: "maintenance_tick E (d_node d) (d_world d) = Some (n, w)"
      and d': "d' = d\<lparr>d_node := n, d_world := w\<rparr>" by (auto split: if_splits)
    show ?thesis using daemon_inv_update [OF inv, of "(n, w)" d'] keeps_tick [OF keeps_refl t] quiet_tick [OF quiet_refl t] d' by simp
  qed
next
  case EvSignal
  with step inv show ?thesis
    by (auto simp: on_signal_def Let_def daemon_inv_def signal_keeps split: if_splits)
next
  case EvNotify
  let ?s = "notify_shutdown E (d_node d) (d_world d)"
  have "d' = d \<or> d_node d' = fst ?s \<and> d_world d' = snd ?s \<and> d_assembler d' = d_assembler d"
    using EvNotify step by (auto simp: split_beta split: if_splits)
  with daemon_inv_update [OF inv, of ?s d'] inv show ?thesis by (auto simp: keeps_simps quiet_simps)
qed

text \<open>The one iteration that does not return while the generator is alive: a maintenance tick that panics.\<close>

fun tick_faulty :: "ext \<Rightarrow> daemon_event \<Rightarrow> daemon \<Rightarrow> bool" where
  "tick_faulty E EvMaintain d \<longleftrightarrow> d_exit d = None \<and> n_running (d_node d) \<and> maintenance_tick E (d_node d) (d_world d) = None"
| "tick_faulty E _ d \<longleftrightarrow> False"

lemma daemon_step_returns:
  assumes "rng_live (d_world d)"
  shows "daemon_step E tun overlay e d = None \<longleftrightarrow> tick_faulty E e d"
proof (cases e)
  case (EvReceive r)
  have "handle_received E tun r (d_node d) (d_assembler d) (d_world d) \<noteq> None"
    using datagram_returns [OF assms] by (auto simp: handle_received_def Let_def split: recv_result.splits)
  with EvReceive show ?thesis by (auto simp: receive_once_def) (metis prod_cases3)
next
  case EvPunch
  with connect_loop_returns [OF assms] show ?thesis by (auto simp: connect_lighthouses_def Let_def)
next
  case EvSignal
  then show ?thesis by (auto simp: on_signal_def Let_def split: sum.splits)
qed (auto simp: split_beta)

interpretation daemon: partial_machine "daemon_step E tun overlay" "daemon_inv E n0" "\<lambda>d. rng_live (d_world d)" "tick_faulty E"
  by unfold_locales (use daemon_step_ok in blast, use daemon_step_ok in blast, rule daemon_step_returns)

section \<open>A daemon that started\<close>

lemma resolve_lighthouses_ok:
  "quiet w0 w \<Longrightarrow> quiet w0 (snd (resolve_lighthouses ls w))"
  "fst (resolve_lighthouses ls w) = Some slots \<Longrightarrow> l \<in> set slots \<Longrightarrow> ls_peer_id l = None"
proof -
  show "quiet w0 (snd (resolve_lighthouses ls w))" if "quiet w0 w"
    using that
  proof (induction ls arbitrary: w)
    case (Cons l ls)
    have "quiet w0 (snd (resolve_socket_addr (lc_address l) w))"
      using Cons.prems by (simp add: resolve_socket_addr_def quiet_simps)
    then show ?case using Cons.IH by (auto simp: Let_def split_beta quiet_simps split: option.splits prod.splits)
  qed simp
  show "ls_peer_id l = None" if "fst (resolve_lighthouses ls w) = Some slots" "l \<in> set slots"
    using that by (induction ls arbitrary: w slots) (auto simp: Let_def split_beta split: option.splits prod.splits)
qed

lemma quiet_interface [quiet_simps]: "quiet w0 w \<Longrightarrow> quiet w0 (snd (bring_up_interface E os cfg cert w))"
  by (auto simp: bring_up_interface_def Let_def split_beta quiet_simps split: option.splits)

lemma start_node_ok:
  assumes "start_node E os cfg ca cert key w = (Inr (n, overlay), w')"
  obtains network_key listen slots where
    "n = new_node E cfg (verify_key ca) cert (signing_secret_key key) network_key listen slots"
    "\<forall>l\<in>set slots. ls_peer_id l = None" "quiet w w'" "issued E cert (verify_key ca)"
    "\<exists>secret. network_key = derive_network_key E secret"
proof -
  let ?w1 = "snd (Cert_verify E cert (verify_key ca) w)"
  have v: "fst (Cert_verify E cert (verify_key ca) w)"
    using assms by (auto simp: start_node_def Let_def split_beta split: sum.splits if_splits)
  let ?w2 = "snd (bring_up_interface E os cfg cert ?w1)"
  let ?r = "resolve_lighthouses (cfg_lighthouses cfg) ?w2"
  obtain secret listen slots where s: "fst ?r = Some slots" "w' = snd ?r"
    "n = new_node E cfg (verify_key ca) cert (signing_secret_key key) (derive_network_key E secret) listen slots"
    using assms by (auto simp: start_node_def Let_def split_beta split: sum.splits if_splits prod.splits option.splits)
  have "quiet w w'" unfolding s(2) by (intro resolve_lighthouses_ok(1)) (simp add: quiet_simps)
  then show ?thesis using that [OF s(3)] resolve_lighthouses_ok(2) [OF s(1)] v by (auto simp: verify_iff_issued)
qed

lemma new_node_inv:
  assumes "\<forall>l\<in>set slots. ls_peer_id l = None"
  shows "node_inv E (new_node E cfg ca cert sk nk listen slots)"
  using assms by (auto simp: node_inv_def sessions_inv_def pending_inv_def new_node_def RouteTable_new_def routes_wf_def
      HandshakeCache_new_def cache_inv_def)

lemma daemon_inv_start:
  assumes "start_node E os cfg ca cert key w = (Inr (n, overlay), w')" and "tun_out w = []"
  shows "daemon_inv E n (daemon_init n w') \<and> (rng_live w \<longrightarrow> rng_live (d_world (daemon_init n w')))"
proof (rule start_node_ok [OF assms(1)])
  fix nk listen slots
  assume n: "n = new_node E cfg (verify_key ca) cert (signing_secret_key key) nk listen slots"
    and slots: "\<forall>l\<in>set slots. ls_peer_id l = None" and q: "quiet w w'"
  have "quiet w (snd (instant_now w'))" using q by (rule quiet_instant)
  then show ?thesis
    using new_node_inv [OF slots] assms(2) asm_inv_new
    by (simp add: n daemon_inv_def daemon_init_def Let_def split_beta quiet_def)
qed

lemma started_daemon:
  assumes "start_node E os cfg ca cert key w0 = (Inr (n0, overlay), w1)" and "tun_out w0 = []"
    and "daemon_run E tun overlay es (daemon_init n0 w1) = Some d"
  shows "daemon_inv E n0 d" "n_ca_vk n0 = verify_key ca" "n_local_networks n0 = authorized_peer_routes E cert"
    "n_our_id n0 = node_id_from_cert E cert" "n_ca_vk (d_node d) = verify_key ca" "n_our_id (d_node d) = node_id_from_cert E cert"
proof -
  show inv: "daemon_inv E n0 d"
    using daemon.inv_run [OF conjunct1 [OF daemon_inv_start [OF assms(1,2)]]] assms(3) unfolding daemon_run_def .
  show n0: "n_ca_vk n0 = verify_key ca" "n_local_networks n0 = authorized_peer_routes E cert" "n_our_id n0 = node_id_from_cert E cert"
    by (rule start_node_ok [OF assms(1)], simp add: new_node_def)+
  show "n_ca_vk (d_node d) = verify_key ca" "n_our_id (d_node d) = node_id_from_cert E cert"
    using inv daemon_config_fields [of "d_node d" n0] n0 by (simp_all add: daemon_inv_def)
qed

text \<open>A daemon to evaluate the properties on: no interface, no lighthouses, the identity of \<open>demo_cert\<close>.\<close>

definition demo_daemon_config :: AppConfig where
  "demo_daemon_config = demo_config\<lparr>cfg_lighthouses := [], interface := None, cfg_network_secret := replicate 64 CHR ''0''\<rparr>"

definition demo_os :: os_answers where
  "demo_os = \<lparr>os_privileged = True, os_tun_created = True, os_ip_set = True, os_nonblock = True, os_listen = Some default_listen,
     os_handler_set = True\<rparr>"

definition demo_ca_cert :: CaCert where
  "demo_ca_cert = \<lparr>ca_meta = meta (body demo_cert), verify_key = demo_ca\<rparr>"

lemma demo_secret: "\<exists>bs. network_secret demo_ext demo_daemon_config = Inr bs"
proof -
  have "demo_unhex (replicate (2 * k) CHR ''0'') = Some (replicate k 0)" for k
    by (induction k) (auto simp: to_digit_def)
  from this [of 32] show ?thesis by (simp add: network_secret_def demo_daemon_config_def demo_ext_def)
qed

lemma demo_start:
  "\<exists>nk. start_node demo_ext demo_os demo_daemon_config demo_ca_cert demo_cert \<lparr>signing_secret_key = demo_sk\<rparr> demo_world =
    (Inr (new_node demo_ext demo_daemon_config demo_ca demo_cert demo_sk nk default_listen [], []), demo_world)"
proof -
  obtain bs where bs: "network_secret demo_ext demo_daemon_config = Inr bs" using demo_secret by blast
  have v: "validate demo_daemon_config = Inr ()"
    using demo_config_valid by (simp add: validate_iff demo_daemon_config_def demo_config_def)
  have c: "fst (Cert_verify demo_ext demo_cert demo_ca demo_world)" "snd (Cert_verify demo_ext demo_cert demo_ca demo_world) = demo_world"
    by (simp add: verify_iff_issued demo_identity demo_validity) (simp add: Cert_verify_def unix_now_def demo_world_def Let_def)
  have k: "nsk_ed25519_public demo_ext demo_sk = ed25519_pk (keys (body demo_cert))"
    using demo_identity(2) by (simp add: holds_key_def cert_vk_def hybrid_vk_of_def nsk_ed25519_public_def)
  show ?thesis
    using bs v c k
    by (intro exI [of _ "derive_network_key demo_ext bs"],
        simp add: start_node_def Let_def split_beta demo_ca_cert_def demo_os_def bring_up_interface_def)
      (simp add: demo_daemon_config_def)
qed

end
