(* ===== verification/Delivery.thy ===== *)
theory Delivery
  imports Daemon_Safety
begin

text \<open>
  Two nodes together: a handshake between them leaves matching sessions at both ends, and a packet
  routed into such a session comes out at the other end's TUN device, once.
\<close>

declare map_of_eq_Some_iff [simp del] Some_eq_map_of_iff [simp del]

unbundle bit_operations_syntax

section \<open>Session datagrams\<close>

lemma feed_whole:
  assumes "network_header E data nk = Some h" and "kind h \<noteq> KIND_HANDSHAKE_FRAG"
  shows "feed E a src data nk w = (NotFragment, a, w)"
proof -
  have "plain \<noteq> [] \<longrightarrow> plain ! 0 \<noteq> KIND_HANDSHAKE_FRAG" if o: "open_handshake E nk data = Some plain" for plain
  proof -
    obtain pkt where "deserialize_packet data = Some pkt" "unmask_packet_header E pkt nk = Some h"
      using assms(1) by (auto simp: network_header_deserialize bind_eq_Some_conv)
    with o assms(2) show ?thesis
      by (auto simp: open_handshake_def bind_eq_Some_conv split: if_splits list.splits)
  qed
  then show ?thesis by (auto simp: feed_def split: option.splits)
qed

lemma body_kind_session: "body_kind b \<noteq> KIND_HANDSHAKE_FRAG" "body_kind b \<noteq> KIND_HANDSHAKE_1" "body_kind b \<noteq> KIND_HANDSHAKE_2"
  by (cases b; simp add: kind_defs)+

text \<open>The datagram of a body that was encrypted for this node in one of its sessions goes through to
  the session, whatever the assembler holds.\<close>

lemma session_datagram:
  assumes laws: "blake3_sized E" "aead_sized E" "aead_correct E" and b: "body_ok E b"
    and enc: "encrypt_body E (n_our_id n) sid b (n_network_key n) key w0 = (pkt, w0')"
    and sess: "map_of (n_rx_sessions n) sid = Some pid" "peer_of n pid = Some p" "ps_rx_key p = key"
  shows "handle_datagram E tun n a src (serialize_packet pkt) w =
    (if fst (accept (ps_rx_replay p) (packet_seq b))
     then map_option (\<lambda>(n, w). (n, a, w))
       (dispatch E tun src pid b
         (put_peer pid (snd (mark_seen (p\<lparr>ps_rx_replay := snd (accept (ps_rx_replay p) (packet_seq b))\<rparr>) src (fst (instant_now w))
           (ps_addr p \<noteq> src \<and> list_ex (\<lambda>(i, other). i \<noteq> pid \<and> ps_is_relay other \<and> ps_addr other = src) (n_peers n))
           (case b of Keepalive _ _ \<Rightarrow> True | _ \<Rightarrow> False))) n) (snd (instant_now w)))
     else Some (n, a, w))"
proof -
  let ?h = "\<lparr>kind = body_kind b, frag_index = 0, frag_total = 0, dst_peer_id = n_our_id n, session_id = sid\<rparr>"
  have d: "decrypt_packet E (serialize_packet pkt) (n_network_key n) key = Some (?h, b)"
    using decrypt_body [OF laws b enc] .
  then have h: "network_header E (serialize_packet pkt) (n_network_key n) = Some ?h" using decrypt_packet_SomeD by blast
  have "feed E a src (serialize_packet pkt) (n_network_key n) w = (NotFragment, a, w)"
    by (rule feed_whole [OF h]) (simp add: body_kind_session)
  then have "handle_datagram E tun n a src (serialize_packet pkt) w =
      map_option (\<lambda>(n, w). (n, a, w)) (handle_session_packet E tun n src (serialize_packet pkt) ?h w)"
    by (simp add: handle_datagram_def h for_other_def reassemble_and_handle_def handle_packet_def body_kind_session)
  moreover have "open_session_packet E n src (serialize_packet pkt) ?h pid w =
      (if fst (accept (ps_rx_replay p) (packet_seq b))
       then Some (b, put_peer pid (snd (mark_seen (p\<lparr>ps_rx_replay := snd (accept (ps_rx_replay p) (packet_seq b))\<rparr>) src (fst (instant_now w))
           (ps_addr p \<noteq> src \<and> list_ex (\<lambda>(i, other). i \<noteq> pid \<and> ps_is_relay other \<and> ps_addr other = src) (n_peers n))
           (case b of Keepalive _ _ \<Rightarrow> True | _ \<Rightarrow> False))) n, snd (instant_now w))
       else None)"
    using sess d by (simp add: open_session_packet_def Let_def split_beta)
  ultimately show ?thesis using sess(1) by (simp add: handle_session_packet_def)
qed

text \<open>A number that was just accepted is refused from then on.\<close>

lemma accept_again: "fst (accept rw sq) \<Longrightarrow> accept (snd (accept rw sq)) sq = (False, snd (accept rw sq))"
proof -
  assume ok: "fst (accept rw sq)"
  have absorb: "(x OR y) AND y = y" for x y :: u64
    by (rule bit_eqI) (auto simp: bit_simps)
  have one: "(x OR 1) AND 1 \<noteq> (0 :: u64)" for x using absorb [of x 1] by simp
  consider "\<not> initialized rw" | "initialized rw" "sq > highest rw" | "initialized rw" "\<not> sq > highest rw" by blast
  then show ?thesis
  proof cases
    case 3
    let ?bt = "push_bit (unat (highest rw - sq)) (1 :: u64)"
    have small: "highest rw - sq < REPLAY_WINDOW_BITS" and free: "seen rw AND ?bt = 0"
      using ok 3 by (auto simp: accept_def Let_def not_le split: if_splits)
    have "unat (highest rw - sq) < 64" using small by (simp add: REPLAY_WINDOW_BITS_def word_less_nat_alt)
    then have "?bt \<noteq> 0" by (simp add: push_bit_eq_0_iff)
    then show ?thesis using 3 ok small free by (simp add: accept_def Let_def absorb not_le)
  qed (use one in \<open>auto simp: accept_def Let_def REPLAY_WINDOW_BITS_def\<close>)
qed

section \<open>Delivery\<close>

text \<open>What \<open>nA\<close> needs to know of \<open>nB\<close>, and \<open>nB\<close> of \<open>nA\<close>, for packets to flow from \<open>nA\<close> to \<open>nB\<close>.\<close>

definition can_send :: "Node \<Rightarrow> PeerState \<Rightarrow> Node \<Rightarrow> PeerState \<Rightarrow> bool" where
  "can_send nA pa nB pb \<longleftrightarrow>
     n_network_key nB = n_network_key nA
   \<and> peer_of nA (n_our_id nB) = Some pa \<and> peer_of nB (n_our_id nA) = Some pb
   \<and> ps_rx_key pb = ps_tx_key pa \<and> ps_rx_session_id pb = ps_tx_session_id pa
   \<and> map_of (n_rx_sessions nB) (ps_rx_session_id pb) = Some (n_our_id nA)"

lemma encrypt_data_send_ok: "send_ok (snd (encrypt_data_packet E sq dst sid pkt nk sk w)) = send_ok w"
    "outbox (snd (encrypt_data_packet E sq dst sid pkt nk sk w)) = outbox w"
proof -
  have pad: "draws w (snd (add_random_padding out w))" for out w
    using draws_padding [of out w "fst (add_random_padding out w)" "snd (add_random_padding out w)"] by simp
  have fill: "draws w (snd (fill_bytes n w))" for n w
    using draws_fill [of n w "fst (fill_bytes n w)" "snd (fill_bytes n w)"] by simp
  have "draws w (snd (encrypt_data_packet E sq dst sid pkt nk sk w))"
    unfolding encrypt_data_packet_def seal_def Let_def split_beta snd_conv
    by (rule draws_trans [OF draws_trans [OF pad fill] fill])
  then show "send_ok (snd (encrypt_data_packet E sq dst sid pkt nk sk w)) = send_ok w"
    "outbox (snd (encrypt_data_packet E sq dst sid pkt nk sk w)) = outbox w"
    by (simp_all add: draws_def same_outputs_def)
qed

lemma overlay_sends:
  assumes "parse_dest_ip pkt = Some dst" "\<not> is_multicast dst" "\<not> is_link_local dst" "\<not> is_overlay_broadcast E dst overlay"
    and "RouteTable_lookup E (n_routes n) dst = Some pid" and "peer_of n pid = Some p" and "send_ok w 0"
    and "encrypt_data_packet E (ps_tx_seq p + 1) pid (ps_tx_session_id p) pkt (n_network_key n) (ps_tx_key p) w = (dp, w1)"
  shows "\<exists>w'. send_to_overlay E n pkt overlay w = (put_peer pid (p\<lparr>ps_tx_seq := ps_tx_seq p + 1\<rparr>) n, w')
    \<and> outbox w' = outbox w @ [(serialize_packet dp, ps_addr p)]"
proof -
  have w1: "send_ok w1 0" "outbox w1 = outbox w"
    using encrypt_data_send_ok [of E "ps_tx_seq p + 1" pid "ps_tx_session_id p" pkt "n_network_key n" "ps_tx_key p" w] assms(7,8)
    by simp_all
  show ?thesis
    using assms(1-6,8) w1
    by (simp add: send_to_overlay_def peer_tx_def next_seq_def Let_def send_wire_def outbox_send_to put_peer_def)
qed

lemma data_received:
  assumes laws: "blake3_sized E" "aead_sized E" "aead_correct E" and len: "length pkt < 2 ^ 32"
    and enc: "encrypt_data_packet E sq (n_our_id n) sid pkt (n_network_key n) key w0 = (dp, w0')"
    and sess: "map_of (n_rx_sessions n) sid = Some pid" "peer_of n pid = Some p" "ps_rx_key p = key"
    and fresh: "fst (accept (ps_rx_replay p) sq)"
    and ok: "peer_allows_ip_packet_source E p pkt" "accepts_destination E n pkt"
  shows "\<exists>n' w'. handle_datagram E True n a src (serialize_packet dp) w = Some (n', a, w')
    \<and> tun_out w' = tun_out w @ [pkt] \<and> outbox w' = outbox w
    \<and> (\<forall>a2 src2 w2. handle_datagram E True n' a2 src2 (serialize_packet dp) w2 = Some (n', a2, w2))
    \<and> peer_of n' pid \<noteq> None"
proof -
  let ?b = "Data sq pkt"
  have b: "body_ok E ?b" using len by simp
  have enc': "encrypt_body E (n_our_id n) sid ?b (n_network_key n) key w0 = (dp, w0')" using enc by (simp add: encrypt_body_def)
  define p' where "p' = snd (mark_seen (p\<lparr>ps_rx_replay := snd (accept (ps_rx_replay p) sq)\<rparr>) src (fst (instant_now w))
    (ps_addr p \<noteq> src \<and> list_ex (\<lambda>(i, other). i \<noteq> pid \<and> ps_is_relay other \<and> ps_addr other = src) (n_peers n)) False)"
  let ?n = "put_peer pid p' n"
  have st: "peer_static p' = peer_static p" by (simp add: p'_def static_simps)
  have replay: "ps_rx_replay p' = snd (accept (ps_rx_replay p) sq)" by (simp add: p'_def mark_seen_def Let_def)
  have same: "n_our_id ?n = n_our_id n" "n_network_key ?n = n_network_key n" "n_rx_sessions ?n = n_rx_sessions n"
    by (simp_all add: put_peer_def)
  have allow: "peer_allows_ip_packet_source E p' pkt" "accepts_destination E ?n pkt"
    using ok st accepts_destination_cong [of ?n n E]
    by (auto simp: peer_allows_ip_packet_source_def peer_static_def put_peer_def split: option.splits)
  have first: "handle_datagram E True n a src (serialize_packet dp) w = Some (?n, a, tun_write pkt (snd (instant_now w)))"
    using session_datagram [OF laws b enc' sess, of True a src w] fresh allow by (simp add: p'_def handle_data_def)
  have again: "handle_datagram E True ?n a2 src2 (serialize_packet dp) w2 = Some (?n, a2, w2)" for a2 src2 w2
    using session_datagram [OF laws b, of ?n sid key w0 dp w0' pid p' True a2 src2 w2] enc' sess st replay
      accept_again [OF fresh] same by (simp add: peer_static_def)
  show ?thesis
    using first again
    by (intro exI [of _ ?n] exI [of _ "tun_write pkt (snd (instant_now w))"]) (simp add: tun_write_def instant_now_def)
qed

section \<open>Establishing a session\<close>

lemma with_peer_fields:
  "peer_of (with_peer E n pid p) = (peer_of n)(pid \<mapsto> p)"
  "map_of (n_rx_sessions (with_peer E n pid p)) (ps_rx_session_id p) = Some pid"
  "n_network_key (with_peer E n pid p) = n_network_key n" "n_our_id (with_peer E n pid p) = n_our_id n"
  "n_pending (with_peer E n pid p) = n_pending n" "n_handshake_cache (with_peer E n pid p) = n_handshake_cache n"
  by (simp_all add: with_peer_def bind_lighthouse_def update_conv')

lemma new_peer_fields:
  "ps_cert (new_peer E n pid key cert addr direct relayed relay tx rx ini now) = cert"
  "ps_tx_key (new_peer E n pid key cert addr direct relayed relay tx rx ini now) = derive_traffic_key E key (n_our_id n) pid"
  "ps_rx_key (new_peer E n pid key cert addr direct relayed relay tx rx ini now) = derive_traffic_key E key pid (n_our_id n)"
  "ps_tx_session_id (new_peer E n pid key cert addr direct relayed relay tx rx ini now) = tx"
  "ps_rx_session_id (new_peer E n pid key cert addr direct relayed relay tx rx ini now) = rx"
  "ps_rx_replay (new_peer E n pid key cert addr direct relayed relay tx rx ini now) = ReplayWindow_new"
  "ps_tx_seq (new_peer E n pid key cert addr direct relayed relay tx rx ini now) = 0"
  "ps_routes (new_peer E n pid key cert addr direct relayed relay tx rx ini now) = authorized_peer_routes E cert"
  by (simp_all add: new_peer_def Let_def)

text \<open>A peer that has just been added by a handshake.\<close>

definition fresh_peer :: "ext \<Rightarrow> Node \<Rightarrow> u32 \<Rightarrow> Cert \<Rightarrow> bytes \<Rightarrow> u32 \<Rightarrow> u32 \<Rightarrow> PeerState \<Rightarrow> bool" where
  "fresh_peer E n pid cert key tx rx p \<longleftrightarrow>
     ps_cert p = cert \<and> ps_routes p = authorized_peer_routes E cert \<and> ps_tx_session_id p = tx \<and> ps_rx_session_id p = rx
   \<and> ps_tx_key p = derive_traffic_key E key (n_our_id n) pid \<and> ps_rx_key p = derive_traffic_key E key pid (n_our_id n)
   \<and> ps_rx_replay p = ReplayWindow_new \<and> ps_tx_seq p = 0"

lemma fresh_peer_new: "fresh_peer E n pid cert key tx rx (new_peer E n pid key cert addr direct relayed relay tx rx ini now)"
  by (simp add: fresh_peer_def new_peer_fields)

lemma accept_first: "accept_handshake_session a b None ini sim"
  by (simp add: accept_handshake_session_def)

lemma handshake_1_adds:
  assumes "HandshakeCache_get (n_handshake_cache n) (blake3_hash E m) (fst (instant_now w)) = None"
    and "process_handshake_1 E m (n_cert n) (n_signing_key n) (n_network_key n) (n_ca_vk n) (n_am_relay n) (snd (instant_now w))
      = Some (Inr resp, w1)"
    and "pid = node_id_from_cert E (hr_peer_cert resp)" "pid \<noteq> n_our_id n" "peer_of n pid = None"
  shows "\<exists>p w'. handle_handshake_1 E n src m w =
      Some (with_peer E (n\<lparr>n_handshake_cache := HandshakeCache_insert (n_handshake_cache n) (blake3_hash E m) (hr_msg resp) pid
        (fst (instant_now w))\<rparr>) pid p, w')
    \<and> fresh_peer E n pid (hr_peer_cert resp) (hr_session_key resp) (hr_peer_rx_session_id resp) (hr_my_rx_session_id resp) p"
proof -
  let ?n = "n\<lparr>n_handshake_cache := HandshakeCache_insert (n_handshake_cache n) (blake3_hash E m) (hr_msg resp) pid (fst (instant_now w))\<rparr>"
  have "\<exists>p w'. handle_handshake_1 E n src m w = Some (with_peer E ?n pid p, w')
      \<and> fresh_peer E ?n pid (hr_peer_cert resp) (hr_session_key resp) (hr_peer_rx_session_id resp) (hr_my_rx_session_id resp) p"
    using assms
    by (auto simp: handle_handshake_1_def Let_def split_beta add_peer_eq accept_first intro!: exI fresh_peer_new)
  then show ?thesis by (simp add: fresh_peer_def)
qed

lemma handshake_2_adds:
  assumes "map_of (n_pending n) sid = Some h"
    and "process_handshake_2 E m (ph_initiate h) (n_network_key n) (n_ca_vk n) w = (Inr res, w1)"
    and "pid = node_id_from_cert E (hres_peer_cert res)" "pred_option ((=) pid) (ph_peer_id h)" "peer_of n pid = None"
  shows "\<exists>p. fst (handle_handshake_2 E n src m sid w) = with_peer E (n\<lparr>n_pending := AList.delete sid (n_pending n)\<rparr>) pid p
    \<and> fresh_peer E n pid (hres_peer_cert res) (hres_session_key res) (hres_peer_rx_session_id res) (hres_my_rx_session_id res) p"
proof -
  let ?n = "n\<lparr>n_pending := AList.delete sid (n_pending n)\<rparr>"
  have "\<exists>p. fst (handle_handshake_2 E n src m sid w) = with_peer E ?n pid p
      \<and> fresh_peer E ?n pid (hres_peer_cert res) (hres_session_key res) (hres_peer_rx_session_id res) (hres_my_rx_session_id res) p"
    using assms
    by (auto simp: handle_handshake_2_def Let_def split_beta add_peer_eq accept_first option.pred_set intro!: exI fresh_peer_new
        split: option.splits)
  then show ?thesis by (simp add: fresh_peer_def)
qed

section \<open>Two concrete nodes\<close>

definition demo_packet :: bytes where
  "demo_packet = [0x45, 0, 0, 20, 0, 0, 0, 0, 64, 17, 0, 0, 10, 0, 0, 2, 10, 0, 0, 3]"

lemma demo_packet_ip: "parse_dest_ip demo_packet = Some (V4 0x0A000003)" "parse_source_ip demo_packet = Some (V4 0x0A000002)"
  by (simp_all add: parse_dest_ip_def parse_source_ip_def demo_packet_def u32_from_be_bytes_def be_value_def)

lemma demo_dst_ordinary: "\<not> is_multicast (V4 0x0A000003)" "\<not> is_link_local (V4 0x0A000003)"
  by code_simp+

lemma demo_ids: "node_id_from_cert demo_ext demo_cert = 0x02000000" "node_id_from_cert demo_ext demo_cert2 = 0x03000000"
proof -
  have l: "length (as_bytes ''liteway-node-id-v1'') = 18" by (simp add: as_bytes_def)
  have f: "take 4 (fit 32 (fit 32 [k] @ r)) = [k, 0, 0, 0]" for k r by (simp add: fit_def numeral_eq_Suc)
  have "u32_from_be_bytes [2, 0, 0, 0] = 0x02000000" "u32_from_be_bytes [3, 0, 0, 0] = 0x03000000"
    by (simp_all add: u32_from_be_bytes_def be_value_def)
  with l f show "node_id_from_cert demo_ext demo_cert = 0x02000000" "node_id_from_cert demo_ext demo_cert2 = 0x03000000"
    by (simp_all add: node_id_from_cert_def demo_ext_def demo_cert_def demo_cert2_def demo_body_def demo_body2_def Let_def)
qed

definition demo_sk2 :: NodeSigningSecretKey where
  "demo_sk2 = \<lparr>nsk_ed25519 = [3], nsk_ml_dsa_seed = [3]\<rparr>"

lemma demo_identity2: "issued demo_ext demo_cert2 demo_ca" "holds_key demo_ext demo_cert2 demo_sk2"
    "in_validity demo_ext demo_cert2 (unix demo_world i)"
  by (simp_all add: issued_def holds_key_def cert_vk_def hybrid_vk_of_def hybrid_verify_def demo_ext_def
      demo_cert2_def demo_body2_def demo_ca_def demo_sk2_def in_validity_def demo_world_def)

definition demo_node :: "Cert \<Rightarrow> NodeSigningSecretKey \<Rightarrow> Node" where
  "demo_node cert sk = new_node demo_ext demo_daemon_config demo_ca cert sk [1] default_listen []"

lemma demo_routes:
  "IpNetwork (V4 0x0A000002) 32 \<in> set (authorized_peer_routes demo_ext demo_cert)"
  "IpNetwork (V4 0x0A000003) 32 \<in> set (authorized_peer_routes demo_ext demo_cert2)"
proof -
  have e: "net_parse demo_ext = demo_net_parse" "net_new demo_ext = demo_net_new" by (simp_all add: demo_ext_def)
  then have "demo_net_parse ''10.0.0.2/24'' = Some (IpNetwork (V4 0x0A000002) 24)" using demo_net_parse_host by simp
  moreover have "demo_net_parse ''10.0.0.3/24'' = Some (IpNetwork (V4 0x0A000003) 24)"
    by (simp add: demo_net_parse_def IpAddr_parse_def parse_with_def read_ip_addr_def read_ipv4_addr_def
        read_octet_def read_separator_def read_number_def to_digit_def demo_net_new_def Let_def)
  ultimately show "IpNetwork (V4 0x0A000002) 32 \<in> set (authorized_peer_routes demo_ext demo_cert)"
    "IpNetwork (V4 0x0A000003) 32 \<in> set (authorized_peer_routes demo_ext demo_cert2)"
    using e by (simp_all add: authorized_set host_route_def demo_net_new_def demo_cert_def demo_body_def demo_cert2_def demo_body2_def)
qed

text \<open>The two nodes with a session between them.\<close>

definition demo_to_B :: PeerState where
  "demo_to_B = demo_peer\<lparr>ps_tx_key := [5], ps_tx_session_id := 9\<rparr>"

definition demo_from_A :: PeerState where
  "demo_from_A = demo_peer\<lparr>ps_rx_key := [5], ps_rx_session_id := 9, ps_routes := [IpNetwork (V4 0x0A000002) 32]\<rparr>"

definition demo_A :: Node where
  "demo_A = (demo_node demo_cert demo_sk)\<lparr>n_peers := [(0x03000000, demo_to_B)],
     n_routes := RouteTable_insert RouteTable_new (IpNetwork (V4 0x0A000003) 32) 0x03000000\<rparr>"

definition demo_B :: Node where
  "demo_B = (demo_node demo_cert2 demo_sk2)\<lparr>n_peers := [(0x02000000, demo_from_A)], n_rx_sessions := [(9, 0x02000000)],
     n_local_networks := [IpNetwork (V4 0x0A000003) 32]\<rparr>"

lemma demo_node_ids: "n_our_id (demo_node demo_cert sk) = 0x02000000" "n_our_id (demo_node demo_cert2 sk) = 0x03000000"
  by (simp_all add: demo_node_def new_node_def demo_ids)

lemma demo_can_send: "can_send demo_A demo_to_B demo_B demo_from_A"
  by (simp add: can_send_def demo_A_def demo_B_def demo_node_ids demo_to_B_def demo_from_A_def)
    (simp add: demo_node_def new_node_def)

section \<open>Properties\<close>

text \<open>C2. End to end, exactly once. If two nodes hold matching sessions and the sender's routing table
  maps the packet's destination to the receiver, then the packet read from the sender's TUN device
  leaves as one datagram to the peer's current address; whenever and from whatever address that
  datagram reaches the receiver (and whatever fragments it is assembling), and the source is one the
  sender's certificate authorizes and the destination one the receiver accepts, the very same packet
  is written to the receiver's TUN device; and any further copy of the datagram changes nothing.\<close>

theorem data_delivered_once:
  assumes "blake3_sized E" "aead_sized E" "aead_correct E" and "length pkt < 2 ^ 32"
    and "can_send nA pa nB pb"
    and "parse_dest_ip pkt = Some dst" "\<not> is_multicast dst" "\<not> is_link_local dst" "\<not> is_overlay_broadcast E dst overlay"
    and "RouteTable_lookup E (n_routes nA) dst = Some (n_our_id nB)" and "send_ok wA 0"
    and "fst (accept (ps_rx_replay pb) (ps_tx_seq pa + 1))"
    and "peer_allows_ip_packet_source E pb pkt" and "accepts_destination E nB pkt"
  shows "\<exists>nA' wA' datagram. send_to_overlay E nA pkt overlay wA = (nA', wA')
    \<and> outbox wA' = outbox wA @ [(datagram, ps_addr pa)]
    \<and> (\<forall>a src wB. \<exists>nB' wB'. handle_datagram E True nB a src datagram wB = Some (nB', a, wB')
         \<and> tun_out wB' = tun_out wB @ [pkt] \<and> outbox wB' = outbox wB
         \<and> (\<forall>a2 src2 w2. handle_datagram E True nB' a2 src2 datagram w2 = Some (nB', a2, w2)))"
proof -
  obtain dp w1 where enc: "encrypt_data_packet E (ps_tx_seq pa + 1) (n_our_id nB) (ps_tx_session_id pa) pkt
    (n_network_key nA) (ps_tx_key pa) wA = (dp, w1)" by fastforce
  note m = assms(5) [unfolded can_send_def]
  obtain wA' where send: "send_to_overlay E nA pkt overlay wA = (put_peer (n_our_id nB) (pa\<lparr>ps_tx_seq := ps_tx_seq pa + 1\<rparr>) nA, wA')"
    and out: "outbox wA' = outbox wA @ [(serialize_packet dp, ps_addr pa)]"
    using overlay_sends [OF assms(6-10) _ assms(11) enc] m by blast
  have encB: "encrypt_data_packet E (ps_tx_seq pa + 1) (n_our_id nB) (ps_tx_session_id pa) pkt
      (n_network_key nB) (ps_tx_key pa) wA = (dp, w1)" using enc m by simp
  have sess: "map_of (n_rx_sessions nB) (ps_tx_session_id pa) = Some (n_our_id nA)"
    "peer_of nB (n_our_id nA) = Some pb" "ps_rx_key pb = ps_tx_key pa" using m by auto
  have recv: "\<exists>n' w'. handle_datagram E True nB a src (serialize_packet dp) w = Some (n', a, w')
      \<and> tun_out w' = tun_out w @ [pkt] \<and> outbox w' = outbox w
      \<and> (\<forall>a2 src2 w2. handle_datagram E True n' a2 src2 (serialize_packet dp) w2 = Some (n', a2, w2))" for a src w
    using data_received [OF assms(1-4) encB sess assms(12-14), of a src w] by blast
  from send out recv show ?thesis by blast
qed

theorem data_delivered_once_witness:
  "\<exists>nA' wA' datagram nB' wB'. send_to_overlay demo_ext demo_A demo_packet [] demo_world = (nA', wA')
    \<and> outbox wA' = [(datagram, SocketAddrV4 1 2)]
    \<and> handle_datagram demo_ext True demo_B FragmentAssembler_new default_listen datagram demo_world = Some (nB', FragmentAssembler_new, wB')
    \<and> tun_out wB' = [demo_packet]
    \<and> handle_datagram demo_ext True nB' FragmentAssembler_new default_listen datagram wB' = Some (nB', FragmentAssembler_new, wB')"
proof -
  have len: "length demo_packet < 2 ^ 32" by (simp add: demo_packet_def)
  have r: "RouteTable_lookup demo_ext (n_routes demo_A) (V4 0x0A000003) = Some (n_our_id demo_B)"
    by (simp add: demo_A_def demo_B_def demo_node_ids RouteTable_lookup_def RouteTable_insert_def RouteTable_new_def demo_net_contains)
  have ok: "fst (accept (ps_rx_replay demo_from_A) (ps_tx_seq demo_to_B + 1))"
    by (simp add: demo_from_A_def demo_peer_def accept_def ReplayWindow_new_def)
  have allow: "peer_allows_ip_packet_source demo_ext demo_from_A demo_packet" "accepts_destination demo_ext demo_B demo_packet"
    by (simp_all add: peer_allows_ip_packet_source_def accepts_destination_def demo_packet_ip demo_from_A_def demo_B_def demo_net_contains)
  have s: "send_ok demo_world 0" "\<not> is_overlay_broadcast demo_ext (V4 0x0A000003) []" "outbox demo_world = []" "tun_out demo_world = []"
    by (simp_all add: demo_world_def is_overlay_broadcast_def)
  have a: "ps_addr demo_to_B = SocketAddrV4 1 2" by (simp add: demo_to_B_def demo_peer_def)
  from data_delivered_once [OF demo_blake3 demo_aead(2) demo_aead(1) len demo_can_send demo_packet_ip(1) demo_dst_ordinary s(2) r s(1) ok allow]
  obtain nA' wA' datagram where snd: "send_to_overlay demo_ext demo_A demo_packet [] demo_world = (nA', wA')"
      "outbox wA' = outbox demo_world @ [(datagram, ps_addr demo_to_B)]"
    and rcv: "\<forall>a src wB. \<exists>nB' wB'. handle_datagram demo_ext True demo_B a src datagram wB = Some (nB', a, wB')
         \<and> tun_out wB' = tun_out wB @ [demo_packet] \<and> outbox wB' = outbox wB
         \<and> (\<forall>a2 src2 w2. handle_datagram demo_ext True nB' a2 src2 datagram w2 = Some (nB', a2, w2))"
    by blast
  from rcv obtain nB' wB' where "handle_datagram demo_ext True demo_B FragmentAssembler_new default_listen datagram demo_world = Some (nB', FragmentAssembler_new, wB')"
    "tun_out wB' = tun_out demo_world @ [demo_packet]"
    "\<forall>a2 src2 w2. handle_datagram demo_ext True nB' a2 src2 datagram w2 = Some (nB', a2, w2)" by meson
  with snd show ?thesis
    by (intro exI [of _ nA'] exI [of _ wA'] exI [of _ datagram] exI [of _ nB'] exI [of _ wB']) (simp add: s a)
qed

end
