(* ===== verification/Mesh.thy ===== *)
theory Mesh
  imports Delivery
begin

text \<open>
  Three conversations between nodes: a packet that reaches its destination through a relay, a keepalive
  and its acknowledgement, and the farewell of a node that shuts down.
\<close>

declare map_of_eq_Some_iff [simp del] Some_eq_map_of_iff [simp del]

section \<open>A relay in the middle\<close>

lemma body_header:
  assumes "blake3_sized E" "aead_sized E" "aead_correct E" "body_ok E b" and "encrypt_body E dst sid b nk key w0 = (pkt, w0')"
  shows "network_header E (serialize_packet pkt) nk = Some \<lparr>kind = body_kind b, frag_index = 0, frag_total = 0, dst_peer_id = dst, session_id = sid\<rparr>"
  using decrypt_body [OF assms] decrypt_packet_SomeD by blast

lemma body_relayed:
  assumes "blake3_sized E" "aead_sized E" "aead_correct E" "body_ok E b" and "encrypt_body E dst sid b (n_network_key n) key w0 = (pkt, w0')"
    and "dst \<noteq> 0" "dst \<noteq> n_our_id n" "n_am_relay n" "peer_of n dst = Some q" "send_ok w 0"
  shows "\<exists>w'. handle_datagram E tun n a src (serialize_packet pkt) w = Some (n, a, w')
    \<and> outbox w' = outbox w @ [(serialize_packet pkt, ps_addr q)] \<and> tun_out w' = tun_out w"
  using body_header [OF assms(1-5)] assms(6-)
  by (simp add: handle_datagram_def for_other_def relay_datagram_def send_wire_def send_to_def Let_def)

section \<open>Keepalives\<close>

lemma encrypt_body_draws: "draws w (snd (encrypt_body E dst sid b nk key w))"
proof -
  obtain padded w1 where p: "add_random_padding (body_bytes E b) w = (padded, w1)"
    "seal E (body_kind b) dst sid nk key padded w1 = encrypt_body E dst sid b nk key w"
    using encrypt_body_seal [of E dst sid b nk key w] by (metis prod.collapse)
  have fill: "draws w (snd (fill_bytes k w))" for k w
    using draws_fill [of k w "fst (fill_bytes k w)" "snd (fill_bytes k w)"] by simp
  have "draws w1 (snd (seal E (body_kind b) dst sid nk key padded w1))"
    unfolding seal_def Let_def split_beta snd_conv by (rule draws_trans [OF fill fill])
  with draws_padding [OF p(1)] show ?thesis unfolding p(2) by (rule draws_trans)
qed

lemma mark_seen_fields:
  "ps_tx_seq (snd (mark_seen p src now r k)) = ps_tx_seq p" "ps_keepalive (snd (mark_seen p src now r k)) = ps_keepalive p"
  by (simp_all add: mark_seen_def Let_def)

text \<open>A keepalive that arrives is answered to the address it came from.\<close>

lemma keepalive_received:
  assumes laws: "blake3_sized E" "aead_sized E" "aead_correct E"
    and enc: "encrypt_keepalive_packet E sq (n_our_id n) sid tok (n_network_key n) key w0 = (kp, w0')"
    and sess: "map_of (n_rx_sessions n) sid = Some pid" "peer_of n pid = Some p" "ps_rx_key p = key"
    and fresh: "fst (accept (ps_rx_replay p) sq)" and ok: "send_ok w 0"
  shows "\<exists>n' w' w1 w1' ap. handle_datagram E tun n a src (serialize_packet kp) w = Some (n', a, w')
    \<and> encrypt_keepalive_ack_packet E (ps_tx_seq p + 1) pid (ps_tx_session_id p) tok (n_network_key n) (ps_tx_key p) w1 = (ap, w1')
    \<and> outbox w' = outbox w @ [(serialize_packet ap, src)]"
proof -
  define p' where "p' = snd (mark_seen (p\<lparr>ps_rx_replay := snd (accept (ps_rx_replay p) sq)\<rparr>) src (fst (instant_now w))
    (ps_addr p \<noteq> src \<and> list_ex (\<lambda>(i, other). i \<noteq> pid \<and> ps_is_relay other \<and> ps_addr other = src) (n_peers n)) True)"
  let ?w1 = "snd (instant_now w)"
  have p': "peer_static p' = peer_static p" "ps_tx_seq p' = ps_tx_seq p" by (simp_all add: p'_def static_simps mark_seen_fields)
  obtain ap w1' where ap: "encrypt_keepalive_ack_packet E (ps_tx_seq p + 1) pid (ps_tx_session_id p) tok (n_network_key n) (ps_tx_key p) ?w1 = (ap, w1')"
    by fastforce
  have "draws ?w1 w1'" using encrypt_body_draws [of ?w1 E pid "ps_tx_session_id p" "KeepaliveAck (ps_tx_seq p + 1) tok" "n_network_key n" "ps_tx_key p"] ap
    by (simp add: encrypt_body_def)
  then have w1': "send_ok w1' 0" "outbox w1' = outbox w" using ok by (simp_all add: draws_def same_outputs_def instant_now_def)
  have "handle_datagram E tun n a src (serialize_packet kp) w =
      map_option (\<lambda>(n, w). (n, a, w)) (Some (answer_keepalive E (put_peer pid p' n) pid tok src ?w1))"
    using session_datagram [OF laws _ _ sess, of "Keepalive sq tok" w0 kp w0' tun a src w] enc fresh
    by (simp add: encrypt_body_def p'_def)
  moreover have "outbox (snd (answer_keepalive E (put_peer pid p' n) pid tok src ?w1)) = outbox w @ [(serialize_packet ap, src)]"
    using ap p' w1' by (simp add: answer_keepalive_def peer_tx_def next_seq_def Let_def split_beta put_peer_def update_conv' peer_static_def
        send_wire_def outbox_send_to)
  ultimately show ?thesis using ap by (cases "answer_keepalive E (put_peer pid p' n) pid tok src ?w1") auto
qed

text \<open>An acknowledgement that arrives clears the keepalive it answers.\<close>

lemma ack_received:
  assumes laws: "blake3_sized E" "aead_sized E" "aead_correct E"
    and enc: "encrypt_keepalive_ack_packet E sq (n_our_id n) sid tok (n_network_key n) key w0 = (kp, w0')"
    and sess: "map_of (n_rx_sessions n) sid = Some pid" "peer_of n pid = Some p" "ps_rx_key p = key"
    and fresh: "fst (accept (ps_rx_replay p) sq)" and k: "ps_keepalive p = Some k" "kp_token k = tok"
  shows "\<exists>n' w' p'. handle_datagram E tun n a src (serialize_packet kp) w = Some (n', a, w')
    \<and> peer_of n' pid = Some p' \<and> ps_keepalive p' = None \<and> ps_last_ack p' = mono w 1 \<and> outbox w' = outbox w"
proof -
  define p' where "p' = snd (mark_seen (p\<lparr>ps_rx_replay := snd (accept (ps_rx_replay p) sq)\<rparr>) src (fst (instant_now w))
    (ps_addr p \<noteq> src \<and> list_ex (\<lambda>(i, other). i \<noteq> pid \<and> ps_is_relay other \<and> ps_addr other = src) (n_peers n)) False)"
  let ?w1 = "snd (instant_now w)"
  have k': "ps_keepalive p' = Some k" using k by (simp add: p'_def mark_seen_fields)
  have "handle_datagram E tun n a src (serialize_packet kp) w =
      map_option (\<lambda>(n, w). (n, a, w)) (Some (handle_keepalive_ack (put_peer pid p' n) pid tok ?w1))"
    using session_datagram [OF laws _ _ sess, of "KeepaliveAck sq tok" w0 kp w0' tun a src w] enc fresh
    by (simp add: encrypt_body_def p'_def)
  then show ?thesis
    using k' k(2) by (simp add: handle_keepalive_ack_def ack_keepalive_def Let_def split_beta instant_now_def)
qed

section \<open>Farewell\<close>

lemma disconnect_received:
  assumes laws: "blake3_sized E" "aead_sized E" "aead_correct E"
    and enc: "encrypt_disconnect_packet E sq (n_our_id n) sid (n_network_key n) key w0 = (kp, w0')"
    and sess: "map_of (n_rx_sessions n) sid = Some pid" "peer_of n pid = Some p" "ps_rx_key p = key"
    and fresh: "fst (accept (ps_rx_replay p) sq)"
  shows "\<exists>n' w'. handle_datagram E tun n a src (serialize_packet kp) w = Some (n', a, w') \<and> peer_of n' pid = None"
proof -
  have "\<exists>q. handle_datagram E tun n a src (serialize_packet kp) w =
      map_option (\<lambda>(n, w). (n, a, w)) (Some (remove_peer E (put_peer pid q n) pid (snd (instant_now w))))"
    using session_datagram [OF laws _ _ sess, of "Disconnect sq" w0 kp w0' tun a src w] enc fresh
    by (auto simp: encrypt_body_def)
  then show ?thesis by (auto simp: remove_peer_def delete_conv')
qed

text \<open>The datagrams of the farewells, one per target, in order.\<close>

lemma disconnects_sent:
  assumes "\<forall>k. send_ok w k"
  shows "\<exists>ds. outbox (fold (send_disconnect E nk) tgts w) = outbox w @ zip ds (map (tx_addr \<circ> snd) tgts)
    \<and> list_all2 (\<lambda>d (pid, tx). \<exists>w0 kp w0'. encrypt_disconnect_packet E (tx_seq tx) pid (tx_session_id tx) nk (tx_key tx) w0 = (kp, w0')
        \<and> d = serialize_packet kp) ds tgts"
  using assms
proof (induction tgts arbitrary: w)
  case (Cons t tgts)
  obtain pid tx where t: "t = (pid, tx)" by force
  obtain kp w1 where e: "encrypt_disconnect_packet E (tx_seq tx) pid (tx_session_id tx) nk (tx_key tx) w = (kp, w1)" by fastforce
  have "draws w w1" using encrypt_body_draws [of w E pid "tx_session_id tx" "Disconnect (tx_seq tx)" nk "tx_key tx"] e by (simp add: encrypt_body_def)
  then have w1: "\<forall>k. send_ok w1 k" "outbox w1 = outbox w" using Cons.prems by (simp_all add: draws_def same_outputs_def)
  let ?w2 = "send_disconnect E nk t w"
  have w2: "\<forall>k. send_ok ?w2 k" "outbox ?w2 = outbox w @ [(serialize_packet kp, tx_addr tx)]"
    using w1 by (simp_all add: t send_disconnect_def e send_wire_def send_to_def Let_def)
  from Cons.IH [OF w2(1)] obtain ds where ds: "outbox (fold (send_disconnect E nk) tgts ?w2) = outbox ?w2 @ zip ds (map (tx_addr \<circ> snd) tgts)"
    "list_all2 (\<lambda>d (pid, tx). \<exists>w0 kp w0'. encrypt_disconnect_packet E (tx_seq tx) pid (tx_session_id tx) nk (tx_key tx) w0 = (kp, w0')
        \<and> d = serialize_packet kp) ds tgts" by blast
  with w2 e t show ?case by (intro exI [of _ "serialize_packet kp # ds"]) (auto simp: comp_def)
qed simp


text \<open>A relay that knows \<open>demo_B\<close>, and two nodes with a session in both directions.\<close>

definition demo_R :: Node where
  "demo_R = (demo_node demo_cert demo_sk)\<lparr>n_our_id := 5, n_am_relay := True, n_peers := [(0x03000000, demo_peer)]\<rparr>"

definition demo_left_peer :: PeerState where
  "demo_left_peer = demo_peer\<lparr>ps_tx_key := [5], ps_rx_key := [6], ps_tx_session_id := 9, ps_rx_session_id := 8,
     ps_keepalive := Some \<lparr>kp_token = 77, kp_first_sent_at = 0, kp_last_sent_at = 0\<rparr>\<rparr>"

definition demo_right_peer :: PeerState where
  "demo_right_peer = demo_peer\<lparr>ps_tx_key := [6], ps_rx_key := [5], ps_tx_session_id := 8, ps_rx_session_id := 9\<rparr>"

definition demo_left :: Node where
  "demo_left = (demo_node demo_cert demo_sk)\<lparr>n_peers := [(0x03000000, demo_left_peer)], n_rx_sessions := [(8, 0x03000000)]\<rparr>"

definition demo_right :: Node where
  "demo_right = (demo_node demo_cert2 demo_sk2)\<lparr>n_peers := [(0x02000000, demo_right_peer)], n_rx_sessions := [(9, 0x02000000)]\<rparr>"

lemma demo_both: "can_send demo_left demo_left_peer demo_right demo_right_peer" "can_send demo_right demo_right_peer demo_left demo_left_peer"
  by (simp_all add: can_send_def demo_left_def demo_right_def demo_node_ids demo_left_peer_def demo_right_peer_def)
    (simp_all add: demo_node_def new_node_def)

section \<open>Properties\<close>

text \<open>C13. Delivery through a relay. When the sender's session with the destination currently runs over a
  relay, the packet read from the sender's TUN device leaves as one datagram to the relay's address;
  the relay (which knows the destination and shares the network key, but not the session key) passes
  exactly those bytes on to the destination's address, keeps its own state and writes nothing to its
  TUN device; and the destination writes exactly the sender's packet to its TUN device and ignores
  every further copy.\<close>

theorem relayed_delivery:
  assumes "blake3_sized E" "aead_sized E" "aead_correct E" and "length pkt < 2 ^ 32"
    and "can_send nA pa nB pb"
    and "parse_dest_ip pkt = Some dst" "\<not> is_multicast dst" "\<not> is_link_local dst" "\<not> is_overlay_broadcast E dst overlay"
    and "RouteTable_lookup E (n_routes nA) dst = Some (n_our_id nB)" and "send_ok wA 0"
    and "n_network_key nR = n_network_key nA" "n_am_relay nR" "n_our_id nB \<noteq> n_our_id nR" "n_our_id nB \<noteq> 0"
    and "peer_of nR (n_our_id nB) = Some q" and "send_ok wR 0"
    and "fst (accept (ps_rx_replay pb) (ps_tx_seq pa + 1))"
    and "peer_allows_ip_packet_source E pb pkt" and "accepts_destination E nB pkt"
  shows "\<exists>nA' wA' datagram wR' nB' wB'. send_to_overlay E nA pkt overlay wA = (nA', wA')
    \<and> outbox wA' = outbox wA @ [(datagram, ps_addr pa)]
    \<and> handle_datagram E tunR nR aR srcA datagram wR = Some (nR, aR, wR')
    \<and> outbox wR' = outbox wR @ [(datagram, ps_addr q)] \<and> tun_out wR' = tun_out wR
    \<and> handle_datagram E True nB aB (ps_addr pa) datagram wB = Some (nB', aB, wB')
    \<and> tun_out wB' = tun_out wB @ [pkt]
    \<and> (\<forall>a src w. handle_datagram E True nB' a src datagram w = Some (nB', a, w))"
proof -
  obtain dp w1 where enc: "encrypt_data_packet E (ps_tx_seq pa + 1) (n_our_id nB) (ps_tx_session_id pa) pkt
    (n_network_key nA) (ps_tx_key pa) wA = (dp, w1)" by fastforce
  note m = assms(5) [unfolded can_send_def]
  obtain wA' where send: "send_to_overlay E nA pkt overlay wA = (put_peer (n_our_id nB) (pa\<lparr>ps_tx_seq := ps_tx_seq pa + 1\<rparr>) nA, wA')"
    "outbox wA' = outbox wA @ [(serialize_packet dp, ps_addr pa)]"
    using overlay_sends [OF assms(6-10) _ assms(11) enc] m by blast
  obtain wR' where relay: "handle_datagram E tunR nR aR srcA (serialize_packet dp) wR = Some (nR, aR, wR')"
    "outbox wR' = outbox wR @ [(serialize_packet dp, ps_addr q)]" "tun_out wR' = tun_out wR"
    using body_relayed [OF assms(1-3), of "Data (ps_tx_seq pa + 1) pkt" "n_our_id nB" "ps_tx_session_id pa" nR "ps_tx_key pa" wA dp w1 q wR tunR aR srcA]
      enc assms(4,12-17) by (auto simp: encrypt_body_def)
  have encB: "encrypt_data_packet E (ps_tx_seq pa + 1) (n_our_id nB) (ps_tx_session_id pa) pkt (n_network_key nB) (ps_tx_key pa) wA = (dp, w1)"
    using enc m by simp
  have sess: "map_of (n_rx_sessions nB) (ps_tx_session_id pa) = Some (n_our_id nA)"
    "peer_of nB (n_our_id nA) = Some pb" "ps_rx_key pb = ps_tx_key pa" using m by auto
  obtain nB' wB' where "handle_datagram E True nB aB (ps_addr pa) (serialize_packet dp) wB = Some (nB', aB, wB')"
    "tun_out wB' = tun_out wB @ [pkt]" "\<forall>a src w. handle_datagram E True nB' a src (serialize_packet dp) w = Some (nB', a, w)"
    using data_received [OF assms(1-4) encB sess assms(18-20), of aB "ps_addr pa" wB] by blast
  with send relay show ?thesis by blast
qed

theorem relayed_delivery_witness:
  "\<exists>nA' wA' datagram wR' nB' wB'. send_to_overlay demo_ext demo_A demo_packet [] demo_world = (nA', wA')
    \<and> outbox wA' = outbox demo_world @ [(datagram, ps_addr demo_to_B)]
    \<and> handle_datagram demo_ext False demo_R FragmentAssembler_new default_listen datagram demo_world = Some (demo_R, FragmentAssembler_new, wR')
    \<and> handle_datagram demo_ext True demo_B FragmentAssembler_new (ps_addr demo_to_B) datagram demo_world = Some (nB', FragmentAssembler_new, wB')
    \<and> tun_out wB' = tun_out demo_world @ [demo_packet]"
proof -
  have len: "length demo_packet < 2 ^ 32" by (simp add: demo_packet_def)
  have r: "RouteTable_lookup demo_ext (n_routes demo_A) (V4 0x0A000003) = Some (n_our_id demo_B)"
    by (simp add: demo_A_def demo_B_def demo_node_ids RouteTable_lookup_def RouteTable_insert_def RouteTable_new_def demo_net_contains)
  have ok: "fst (accept (ps_rx_replay demo_from_A) (ps_tx_seq demo_to_B + 1))"
    by (simp add: demo_from_A_def demo_peer_def accept_def ReplayWindow_new_def)
  have allow: "peer_allows_ip_packet_source demo_ext demo_from_A demo_packet" "accepts_destination demo_ext demo_B demo_packet"
    by (simp_all add: peer_allows_ip_packet_source_def accepts_destination_def demo_packet_ip demo_from_A_def demo_B_def demo_net_contains)
  have s: "send_ok demo_world 0" "\<not> is_overlay_broadcast demo_ext (V4 0x0A000003) []"
    by (simp_all add: demo_world_def is_overlay_broadcast_def)
  have id: "n_our_id demo_B = 0x03000000" by (simp add: demo_B_def demo_node_ids)
  have R: "n_network_key demo_R = n_network_key demo_A" "n_am_relay demo_R" "n_our_id demo_B \<noteq> n_our_id demo_R" "n_our_id demo_B \<noteq> 0"
    "peer_of demo_R (n_our_id demo_B) = Some demo_peer"
    unfolding id by (simp_all add: demo_R_def demo_A_def demo_node_def new_node_def)
  from relayed_delivery [OF demo_blake3 demo_aead(2) demo_aead(1) len demo_can_send demo_packet_ip(1) demo_dst_ordinary s(2) r s(1) R s(1) ok allow,
      of False FragmentAssembler_new default_listen FragmentAssembler_new demo_world]
  show ?thesis by blast
qed

text \<open>C21. Keepalives keep a session alive. A keepalive that one end sends in a session both ends share is
  answered by the other end, to the address the keepalive came from, with one datagram; when that
  answer comes back, the keepalive is no longer outstanding and its time is recorded, so that the peer
  is not dropped for it.\<close>

theorem keepalive_acknowledged:
  assumes "blake3_sized E" "aead_sized E" "aead_correct E"
    and "can_send nA pa nB pb" "can_send nB pb nA pa"
    and "ps_keepalive pa = Some k" and "keepalive_wire E (n_network_key nA) (n_our_id nB) pa (kp_token k) wA = (wire, pa', wA')"
    and "fst (accept (ps_rx_replay pb) (ps_tx_seq pa + 1))" "fst (accept (ps_rx_replay pa) (ps_tx_seq pb + 1))" and "send_ok wB 0"
  shows "\<exists>nB' wB' ack. handle_datagram E tunB nB aB src wire wB = Some (nB', aB, wB')
    \<and> outbox wB' = outbox wB @ [(ack, src)]
    \<and> (\<forall>a srcB w. \<exists>nA' w' p. handle_datagram E tunA (put_peer (n_our_id nB) pa' nA) a srcB ack w = Some (nA', a, w')
        \<and> peer_of nA' (n_our_id nB) = Some p \<and> ps_keepalive p = None \<and> ps_last_ack p = mono w 1 \<and> outbox w' = outbox w)"
proof -
  obtain kp w1 where enc: "encrypt_keepalive_packet E (ps_tx_seq pa + 1) (n_our_id nB) (ps_tx_session_id pa) (kp_token k) (n_network_key nA) (ps_tx_key pa) wA = (kp, w1)"
    and wire: "wire = serialize_packet kp" and pa': "pa' = pa\<lparr>ps_tx_seq := ps_tx_seq pa + 1\<rparr>"
    using assms(7) by (auto simp: keepalive_wire_def next_seq_def Let_def split: prod.splits)
  note m = assms(4) [unfolded can_send_def] and m2 = assms(5) [unfolded can_send_def]
  have sessB: "map_of (n_rx_sessions nB) (ps_tx_session_id pa) = Some (n_our_id nA)" "peer_of nB (n_our_id nA) = Some pb" "ps_rx_key pb = ps_tx_key pa"
    "encrypt_keepalive_packet E (ps_tx_seq pa + 1) (n_our_id nB) (ps_tx_session_id pa) (kp_token k) (n_network_key nB) (ps_tx_key pa) wA = (kp, w1)"
    using m enc by auto
  from keepalive_received [OF assms(1-3) sessB(4,1-3) assms(8,10), of tunB aB src]
  obtain nB' wB' w2 w2' ap where B: "handle_datagram E tunB nB aB src wire wB = Some (nB', aB, wB')" "outbox wB' = outbox wB @ [(serialize_packet ap, src)]"
    and ack: "encrypt_keepalive_ack_packet E (ps_tx_seq pb + 1) (n_our_id nA) (ps_tx_session_id pb) (kp_token k) (n_network_key nB) (ps_tx_key pb) w2 = (ap, w2')"
    unfolding wire by blast
  let ?nA = "put_peer (n_our_id nB) pa' nA"
  have sessA: "encrypt_keepalive_ack_packet E (ps_tx_seq pb + 1) (n_our_id ?nA) (ps_tx_session_id pb) (kp_token k) (n_network_key ?nA) (ps_tx_key pb) w2 = (ap, w2')"
    "map_of (n_rx_sessions ?nA) (ps_tx_session_id pb) = Some (n_our_id nB)" "peer_of ?nA (n_our_id nB) = Some pa'" "ps_rx_key pa' = ps_tx_key pb"
    "fst (accept (ps_rx_replay pa') (ps_tx_seq pb + 1))" "ps_keepalive pa' = Some k"
    using ack m2 assms(6,9) by (auto simp: put_peer_def pa' update_conv')
  have "\<exists>nA' w' p. handle_datagram E tunA ?nA a srcB (serialize_packet ap) w = Some (nA', a, w')
      \<and> peer_of nA' (n_our_id nB) = Some p \<and> ps_keepalive p = None \<and> ps_last_ack p = mono w 1 \<and> outbox w' = outbox w" for a srcB w
    using ack_received [OF assms(1-3) sessA refl, of tunA a srcB w] .
  with B show ?thesis by blast
qed

theorem keepalive_acknowledged_witness:
  "\<exists>nB' wB' ack nA' w' p. handle_datagram demo_ext False demo_right FragmentAssembler_new default_listen
        (fst (keepalive_wire demo_ext [1] 0x03000000 demo_left_peer 77 demo_world)) demo_world = Some (nB', FragmentAssembler_new, wB')
    \<and> outbox wB' = [(ack, default_listen)]
    \<and> handle_datagram demo_ext False (put_peer 0x03000000 (fst (snd (keepalive_wire demo_ext [1] 0x03000000 demo_left_peer 77 demo_world))) demo_left)
        FragmentAssembler_new default_listen ack demo_world = Some (nA', FragmentAssembler_new, w')
    \<and> peer_of nA' 0x03000000 = Some p \<and> ps_keepalive p = None"
proof -
  let ?k = "\<lparr>kp_token = 77, kp_first_sent_at = 0, kp_last_sent_at = 0\<rparr>"
  obtain wire pa' wA' where kw: "keepalive_wire demo_ext [1] 0x03000000 demo_left_peer 77 demo_world = (wire, pa', wA')" by (metis prod_cases3)
  have f: "n_network_key demo_left = [1]" "n_our_id demo_right = 0x03000000" by (simp_all add: demo_left_def demo_right_def demo_node_ids) (simp add: demo_node_def new_node_def)
  have kw': "keepalive_wire demo_ext (n_network_key demo_left) (n_our_id demo_right) demo_left_peer (kp_token ?k) demo_world = (wire, pa', wA')"
    unfolding f using kw by simp
  have k: "ps_keepalive demo_left_peer = Some ?k" by (simp add: demo_left_peer_def)
  have fresh: "fst (accept (ps_rx_replay demo_right_peer) (ps_tx_seq demo_left_peer + 1))" "fst (accept (ps_rx_replay demo_left_peer) (ps_tx_seq demo_right_peer + 1))"
    by (simp_all add: demo_left_peer_def demo_right_peer_def demo_peer_def accept_def ReplayWindow_new_def)
  have s: "send_ok demo_world 0" "outbox demo_world = []" by (simp_all add: demo_world_def)
  from keepalive_acknowledged [OF demo_blake3 demo_aead(2) demo_aead(1) demo_both k kw' fresh s(1), of False FragmentAssembler_new default_listen False]
  obtain nB' wB' ack where B: "handle_datagram demo_ext False demo_right FragmentAssembler_new default_listen wire demo_world = Some (nB', FragmentAssembler_new, wB')"
      "outbox wB' = outbox demo_world @ [(ack, default_listen)]"
    and A: "\<forall>a srcB w. \<exists>nA' w' p. handle_datagram demo_ext False (put_peer (n_our_id demo_right) pa' demo_left) a srcB ack w = Some (nA', a, w')
        \<and> peer_of nA' (n_our_id demo_right) = Some p \<and> ps_keepalive p = None \<and> ps_last_ack p = mono w 1 \<and> outbox w' = outbox w" by blast
  from A obtain nA' w' p where "handle_datagram demo_ext False (put_peer 0x03000000 pa' demo_left) FragmentAssembler_new default_listen ack demo_world
      = Some (nA', FragmentAssembler_new, w')" "peer_of nA' 0x03000000 = Some p" "ps_keepalive p = None" unfolding f(2) by blast
  with B s(2) show ?thesis unfolding kw by auto
qed

text \<open>C31. A node that shuts down says goodbye to everyone. If the socket sends, each peer gets exactly
  one datagram, at its current address and in the order of the table, and a peer that holds the
  matching session removes the node from its tables when it arrives.\<close>

theorem shutdown_disconnects:
  assumes "blake3_sized E" "aead_sized E" "aead_correct E" and "\<forall>k. send_ok w k" and "notify_shutdown E n w = (n', w')"
  shows "\<exists>ds. length ds = length (n_peers n) \<and> outbox w' = outbox w @ zip ds (map (\<lambda>(_, p). ps_addr p) (n_peers n))
    \<and> (\<forall>i pa nB pb tun a src wB. i < length ds \<longrightarrow> n_peers n ! i = (n_our_id nB, pa) \<longrightarrow> can_send n pa nB pb
        \<longrightarrow> fst (accept (ps_rx_replay pb) (ps_tx_seq pa + 1))
        \<longrightarrow> (\<exists>nB' wB'. handle_datagram E tun nB a src (ds ! i) wB = Some (nB', a, wB') \<and> peer_of nB' (n_our_id n) = None))"
proof -
  let ?tx = "\<lambda>(i :: u32, p). (i, \<lparr>tx_addr = ps_addr p, tx_seq = ps_tx_seq p + 1, tx_session_id = ps_tx_session_id p, tx_key = ps_tx_key p\<rparr>)"
  have w': "w' = fold (send_disconnect E (n_network_key n)) (map ?tx (n_peers n)) w"
    using assms(5) by (simp add: notify_shutdown_def next_seq_def Let_def split_beta)
  obtain ds where out: "outbox w' = outbox w @ zip ds (map (tx_addr \<circ> snd) (map ?tx (n_peers n)))"
    and ds: "list_all2 (\<lambda>d (pid, tx). \<exists>w0 kp w0'. encrypt_disconnect_packet E (tx_seq tx) pid (tx_session_id tx) (n_network_key n) (tx_key tx) w0 = (kp, w0')
        \<and> d = serialize_packet kp) ds (map ?tx (n_peers n))"
    using disconnects_sent [OF assms(4), of E "n_network_key n" "map ?tx (n_peers n)"] unfolding w' by blast
  have len: "length ds = length (n_peers n)" using list_all2_lengthD [OF ds] by simp
  have addrs: "map (tx_addr \<circ> snd) (map ?tx (n_peers n)) = map (\<lambda>(_, p). ps_addr p) (n_peers n)" by auto
  have "\<exists>nB' wB'. handle_datagram E tun nB a src (ds ! i) wB = Some (nB', a, wB') \<and> peer_of nB' (n_our_id n) = None"
    if i: "i < length ds" "n_peers n ! i = (n_our_id nB, pa)" and c: "can_send n pa nB pb" and f: "fst (accept (ps_rx_replay pb) (ps_tx_seq pa + 1))"
    for i pa nB pb tun a src wB
  proof -
    note m = c [unfolded can_send_def]
    obtain w0 kp w0' where "encrypt_disconnect_packet E (ps_tx_seq pa + 1) (n_our_id nB) (ps_tx_session_id pa) (n_network_key nB) (ps_tx_key pa) w0 = (kp, w0')"
      and d: "ds ! i = serialize_packet kp"
      using list_all2_nthD [OF ds i(1)] i(2) len m i(1) by auto
    from disconnect_received [OF assms(1-3) this(1), of "n_our_id n" pb tun a src wB] m f d show ?thesis by auto
  qed
  with len out [unfolded addrs] show ?thesis by blast
qed

theorem shutdown_disconnects_witness:
  "\<exists>n' w' d nB' wB'. notify_shutdown demo_ext demo_A demo_world = (n', w') \<and> outbox w' = [(d, ps_addr demo_to_B)]
    \<and> handle_datagram demo_ext False demo_B FragmentAssembler_new default_listen d demo_world = Some (nB', FragmentAssembler_new, wB')
    \<and> peer_of nB' (n_our_id demo_A) = None"
proof -
  obtain n' w' where r: "notify_shutdown demo_ext demo_A demo_world = (n', w')" by fastforce
  have s: "\<forall>k. send_ok demo_world k" "outbox demo_world = []" by (simp_all add: demo_world_def)
  have A: "n_peers demo_A = [(n_our_id demo_B, demo_to_B)]" by (simp add: demo_A_def demo_B_def demo_node_ids)
  have fresh: "fst (accept (ps_rx_replay demo_from_A) (ps_tx_seq demo_to_B + 1))"
    by (simp add: demo_from_A_def demo_peer_def accept_def ReplayWindow_new_def)
  from shutdown_disconnects [OF demo_blake3 demo_aead(2) demo_aead(1) s(1) r] obtain ds where
    d: "length ds = 1" "outbox w' = outbox demo_world @ zip ds [ps_addr demo_to_B]"
    "\<forall>i pa nB pb tun a src wB. i < length ds \<longrightarrow> [(n_our_id demo_B, demo_to_B)] ! i = (n_our_id nB, pa) \<longrightarrow> can_send demo_A pa nB pb
        \<longrightarrow> fst (accept (ps_rx_replay pb) (ps_tx_seq pa + 1))
        \<longrightarrow> (\<exists>nB' wB'. handle_datagram demo_ext tun nB a src (ds ! i) wB = Some (nB', a, wB') \<and> peer_of nB' (n_our_id demo_A) = None)"
    unfolding A by auto
  from d(1) obtain x where x: "ds = [x]" by (auto simp: length_Suc_conv)
  have "\<exists>nB' wB'. handle_datagram demo_ext False demo_B FragmentAssembler_new default_listen (ds ! 0) demo_world = Some (nB', FragmentAssembler_new, wB')
      \<and> peer_of nB' (n_our_id demo_A) = None"
    using d(3) [rule_format, of 0 demo_B demo_to_B demo_from_A] d(1) demo_can_send fresh by simp
  with d(2) s(2) r x show ?thesis by auto
qed

end
