(* ===== verification/Node_Security.thy ===== *)
theory Node_Security
  imports Delivery
begin

text \<open>
  What the network can do to a node. A packet that nothing authenticates leaves the node as it was; a
  lighthouse can make it dial only certified nodes; a removed peer leaves no trace in the tables.
\<close>

declare map_of_eq_Some_iff [simp del] Some_eq_map_of_iff [simp del]

section \<open>Unauthenticated packets\<close>

text \<open>No secret of the node vouches for the packet: it is not a retransmission of a handshake already
  answered, neither handshake processing accepts it, and no session key opens it.\<close>

definition unauthenticated :: "ext \<Rightarrow> Node \<Rightarrow> bytes \<Rightarrow> world \<Rightarrow> bool" where
  "unauthenticated E n packet w \<longleftrightarrow>
     HandshakeCache_get (n_handshake_cache n) (blake3_hash E packet) (fst (instant_now w)) = None
   \<and> (\<forall>resp w'. process_handshake_1 E packet (n_cert n) (n_signing_key n) (n_network_key n) (n_ca_vk n) (n_am_relay n)
        (snd (instant_now w)) \<noteq> Some (Inr resp, w'))
   \<and> (\<forall>sid h. map_of (n_pending n) sid = Some h \<longrightarrow>
        isl (fst (process_handshake_2 E packet (ph_initiate h) (n_network_key n) (n_ca_vk n) w)))
   \<and> (\<forall>pid p. peer_of n pid = Some p \<longrightarrow> decrypt_packet E packet (n_network_key n) (ps_rx_key p) = None)"

text \<open>A relay passes a packet on to a peer; nothing else leaves the node.\<close>

definition at_most_relayed :: "Node \<Rightarrow> bytes \<Rightarrow> world \<Rightarrow> world \<Rightarrow> bool" where
  "at_most_relayed n packet w w' \<longleftrightarrow>
     tun_out w' = tun_out w \<and> route_log w' = route_log w
   \<and> (outbox w' = outbox w
      \<or> n_am_relay n \<and> (\<exists>pid p. peer_of n pid = Some p \<and> outbox w' = outbox w @ [(packet, ps_addr p)]))"

lemma at_most_relayed_same: "same_outputs w w' \<Longrightarrow> at_most_relayed n packet w w'"
  by (simp add: at_most_relayed_def same_outputs_def)

lemma at_most_relayed_from: "same_outputs w w1 \<Longrightarrow> at_most_relayed n packet w1 w' \<Longrightarrow> at_most_relayed n packet w w'"
  by (simp add: at_most_relayed_def same_outputs_def)

lemma relay_datagram_relays: "at_most_relayed n packet w (relay_datagram n packet dst w)"
  by (auto simp: at_most_relayed_def relay_datagram_def send_wire_def send_to_def Let_def split: option.splits)

lemma handshake_1_ignored:
  assumes "unauthenticated E n packet w" and "handle_handshake_1 E n src packet w = Some (n', w')"
  shows "n' = n \<and> same_outputs w w'"
proof -
  have "same_outputs w (snd (instant_now w))" by (rule silent.instant) simp
  with assms show ?thesis
    by (auto simp: unauthenticated_def handle_handshake_1_def Let_def split_beta
        split: option.splits sum.splits prod.splits dest: silent.processed_1)
qed

lemma handshake_2_ignored:
  assumes "unauthenticated E n packet w"
  shows "fst (handle_handshake_2 E n src packet sid w) = n \<and> same_outputs w (snd (handle_handshake_2 E n src packet sid w))"
proof (cases "map_of (n_pending n) sid")
  case None
  then show ?thesis by (simp add: handle_handshake_2_def)
next
  case (Some h)
  obtain r w1 where r: "process_handshake_2 E packet (ph_initiate h) (n_network_key n) (n_ca_vk n) w = (r, w1)" by fastforce
  with assms Some have "isl r" unfolding unauthenticated_def by (metis fst_conv)
  moreover have "same_outputs w w1" using silent.processed_2 [OF same_outputs_refl, of w E packet "ph_initiate h" "n_network_key n" "n_ca_vk n"] r by simp
  ultimately show ?thesis using Some r by (auto simp: handle_handshake_2_def isl_def)
qed

lemma session_packet_ignored:
  assumes "unauthenticated E n packet w"
  shows "handle_session_packet E tun n src packet header w = Some (n, w)"
proof -
  have "open_session_packet E n src packet header pid w = None" for pid
    using assms by (auto simp: unauthenticated_def open_session_packet_def split: option.splits)
  then show ?thesis by (simp add: handle_session_packet_def split: option.splits)
qed

lemma packet_ignored:
  assumes "unauthenticated E n packet w" and "handle_packet E tun n src packet w = Some (n', w')"
  shows "n' = n \<and> at_most_relayed n packet w w'"
  using assms(2) handshake_1_ignored [OF assms(1), of src n' w'] handshake_2_ignored [OF assms(1), of src]
    session_packet_ignored [OF assms(1), of tun src] relay_datagram_relays [of n packet w]
  by (auto simp: handle_packet_def at_most_relayed_same split: option.splits if_splits) (metis fst_conv snd_conv at_most_relayed_same)+

lemma feed_silent: "same_outputs w (snd (snd (feed E a src data nk w)))"
  by (auto simp: feed_def Let_def split_beta instant_now_def same_outputs_def split: option.splits if_splits)

section \<open>Properties\<close>

text \<open>C6. The network alone cannot change a node. A datagram whose packet (after reassembly) nothing
  authenticates -- it is not a copy of a handshake answered in the last minute, neither handshake check
  accepts it, and no peer's session key opens it -- leaves every table of the node as it was, writes
  nothing to the TUN device, installs no route and is not answered; at most a relay passes on the
  very same bytes to one of its peers.\<close>

theorem unauthenticated_ignored:
  assumes "handle_datagram E tun n a src data w = Some (n', a', w')"
    and "unauthenticated E n (handed_on E n a src data w) (snd (snd (feed E a src data (n_network_key n) w)))"
  shows "n' = n \<and> (at_most_relayed n data w w' \<or> at_most_relayed n (handed_on E n a src data w) w w')"
proof -
  obtain r a1 w1 where f: "feed E a src data (n_network_key n) w = (r, a1, w1)" by (metis prod_cases3)
  have w1: "same_outputs w w1" using feed_silent [of w E a src data "n_network_key n"] f by simp
  have "n' = n \<and> at_most_relayed n (handed_on E n a src data w) w w'"
    if "reassemble_and_handle E tun n a src data w = Some (n', a', w')"
    using that f w1 assms(2) packet_ignored [of E n "handed_on E n a src data w" w1 tun src n' w']
    by (auto simp: reassemble_and_handle_def handed_on_def at_most_relayed_same split: FeedResult.splits
        intro: at_most_relayed_from)
  with assms(1) show ?thesis
    by (auto simp: handle_datagram_def relay_datagram_relays split: option.splits if_splits)
qed


theorem unauthenticated_ignored_witness:
  "\<exists>w'. handle_datagram demo_ext True demo_B FragmentAssembler_new default_listen [1, 2, 3] demo_world = Some (demo_B, FragmentAssembler_new, w')
    \<and> tun_out w' = [] \<and> outbox w' = []"
proof -
  let ?a = FragmentAssembler_new and ?d = "[1, 2, 3] :: bytes"
  have short: "deserialize_packet ?d = None" by (simp add: deserialize_packet_def packet_lens)
  then have o: "open_handshake demo_ext nk ?d = None" "decrypt_packet demo_ext ?d nk k = None" "network_header demo_ext ?d nk = None" for nk k
    by (simp_all add: open_handshake_def decrypt_packet_def network_header_deserialize)
  have f: "feed demo_ext ?a default_listen ?d nk demo_world = (NotFragment, ?a, demo_world)" for nk by (simp add: feed_def o)
  then have h: "handed_on demo_ext demo_B ?a default_listen ?d demo_world = ?d" by (simp add: handed_on_def)
  have u: "unauthenticated demo_ext demo_B ?d demo_world"
    by (simp add: unauthenticated_def o process_handshake_1_def process_handshake_2_def demo_B_def demo_node_def new_node_def
        HandshakeCache_get_def HandshakeCache_new_def)
  obtain n' a' w' where d: "handle_datagram demo_ext True demo_B ?a default_listen ?d demo_world = Some (n', a', w')"
    using datagram_returns [OF demo_rng] by (metis not_None_eq prod_cases3)
  moreover have "a' = ?a" using d by (auto simp: handle_datagram_def reassemble_and_handle_def o f handle_packet_def)
  moreover have "\<not> n_am_relay demo_B" "tun_out demo_world = []" "outbox demo_world = []"
    by (simp_all add: demo_B_def demo_node_def new_node_def demo_daemon_config_def demo_config_def demo_world_def)
  moreover have "n' = demo_B \<and> at_most_relayed demo_B ?d demo_world w'"
    using unauthenticated_ignored [OF d] u by (simp add: f h)
  ultimately show ?thesis by (simp add: at_most_relayed_def)
qed

end
