(* ===== verification/Node_Peers.thy ===== *)
theory Node_Peers
  imports Delivery
begin

text \<open>
  How peers come and go: what \<open>add_peer\<close> and \<open>remove_peer\<close> do to every table, what a lighthouse's
  answer can make a node do, how often it asks, and which peers a maintenance tick drops.
\<close>

declare map_of_eq_Some_iff [simp del] Some_eq_map_of_iff [simp del]

section \<open>Routes and sessions of a peer\<close>

lemma route_map_fold:
  "route_map (fold (\<lambda>r t. RouteTable_insert t r pid) rs t) net = (if net \<in> set rs then Some pid else route_map t net)"
  by (induction rs arbitrary: t) (auto simp: route_map_insert)

lemma log_routes_log:
  "route_log (log_routes E cmd iface rs w) =
     route_log w @ (case iface of None \<Rightarrow> [] | Some name \<Rightarrow> map (\<lambda>r. cmd (net_to_string E r) name) rs)"
proof -
  have "route_log (fold (\<lambda>r. log_route (cmd (net_to_string E r) name)) rs w) = route_log w @ map (\<lambda>r. cmd (net_to_string E r) name) rs" for name
    by (induction rs arbitrary: w) (auto simp: log_route_def)
  then show ?thesis by (simp add: log_routes_def split: option.splits)
qed

lemma log_routes_outbox: "outbox (log_routes E cmd iface rs w) = outbox w"
proof -
  have "outbox (fold (\<lambda>r. log_route (cmd (net_to_string E r) name)) rs w) = outbox w" for name
    by (induction rs arbitrary: w) (auto simp: log_route_def)
  then show ?thesis by (simp add: log_routes_def split: option.splits)
qed

lemma add_peer_added:
  assumes "add_peer E n pid key cert addr direct relayed relay tx rx ini sim w = (Added, n', w')"
  shows "n' = with_peer E n pid (new_peer E n pid key cert addr direct relayed relay tx rx ini (fst (instant_now w)))"
    "route_log w' = route_log w @ (case n_iface_name n of None \<Rightarrow> [] | Some i \<Rightarrow> map (\<lambda>r. RouteAdd (net_to_string E r) i) (authorized_peer_routes E cert))"
proof -
  have acc: "accept_handshake_session (n_our_id n) pid (map_option ps_handshake_initiator_id (peer_of n pid)) ini sim"
    using assms by (auto simp: add_peer_def Let_def split_beta split: if_splits)
  show "n' = with_peer E n pid (new_peer E n pid key cert addr direct relayed relay tx rx ini (fst (instant_now w)))"
    using add_peer_eq [of E n pid key cert addr direct relayed relay tx rx ini sim w] assms acc by simp
  show "route_log w' = route_log w @ (case n_iface_name n of None \<Rightarrow> [] | Some i \<Rightarrow> map (\<lambda>r. RouteAdd (net_to_string E r) i) (authorized_peer_routes E cert))"
    using assms acc by (auto simp: add_peer_def Let_def split_beta log_routes_log put_peer_def instant_now_def split: if_splits)
qed

lemma with_peer_tables:
  "route_map (n_routes (with_peer E n pid p)) net = (if net \<in> set (ps_routes p) then Some pid else route_map (n_routes n) net)"
  "map_of (n_rx_sessions (with_peer E n pid p)) = (map_of (without_session (peer_of n pid) (n_rx_sessions n)))(ps_rx_session_id p \<mapsto> pid)"
  by (simp_all add: with_peer_def bind_lighthouse_def route_map_fold update_conv')

section \<open>Properties\<close>

text \<open>C22. What a completed handshake does to the tables. The peer is replaced by a fresh session with the
  new certificate (an endpoint that was being tried directly is kept if no new one is known); the
  session id the peer used before no longer leads to it and the new one does; every route of the new
  certificate now leads to it and every other entry of the routing table is as it was, so a route that
  only the peer's previous certificate authorized stays; the kernel is asked for exactly the new
  certificate's routes.\<close>

theorem add_peer_replaces:
  assumes "node_inv E n" and "add_peer E n pid key cert addr direct relayed relay tx rx ini sim w = (Added, n', w')"
  shows "\<exists>p. peer_of n' = (peer_of n)(pid \<mapsto> p)
    \<and> ps_cert p = cert \<and> ps_routes p = authorized_peer_routes E cert \<and> ps_rx_session_id p = rx \<and> ps_tx_session_id p = tx
    \<and> ps_direct_addr p = (case direct of Some a \<Rightarrow> Some a | None \<Rightarrow> Option.bind (peer_of n pid) ps_direct_addr)
    \<and> map_of (n_rx_sessions n') rx = Some pid
    \<and> (\<forall>sid. map_of (n_rx_sessions n') sid = Some pid \<longrightarrow> sid = rx)
    \<and> (\<forall>net. route_map (n_routes n') net = (if net \<in> set (authorized_peer_routes E cert) then Some pid else route_map (n_routes n) net))
    \<and> route_log w' = route_log w @ (case n_iface_name n of None \<Rightarrow> [] | Some i \<Rightarrow> map (\<lambda>r. RouteAdd (net_to_string E r) i) (authorized_peer_routes E cert))"
proof -
  let ?p = "new_peer E n pid key cert addr direct relayed relay tx rx ini (fst (instant_now w))"
  note n' = add_peer_added(1) [OF assms(2)]
  have only: "sid = rx" if "map_of (n_rx_sessions n') sid = Some pid" for sid
  proof (rule ccontr)
    assume "sid \<noteq> rx"
    with that have s: "map_of (without_session (peer_of n pid) (n_rx_sessions n)) sid = Some pid"
      by (simp add: n' with_peer_tables new_peer_fields)
    then have "map_of (n_rx_sessions n) sid = Some pid"
      by (auto simp: without_session_def delete_conv' split: option.splits if_splits)
    then obtain q where "peer_of n pid = Some q" "ps_rx_session_id q = sid"
      using assms(1) unfolding node_inv_def sessions_inv_def by blast
    with s show False by (simp add: without_session_def delete_conv')
  qed
  then have "\<forall>sid. map_of (n_rx_sessions n') sid = Some pid \<longrightarrow> sid = rx" by blast
  moreover have "ps_direct_addr ?p = (case direct of Some a \<Rightarrow> Some a | None \<Rightarrow> Option.bind (peer_of n pid) ps_direct_addr)"
    by (simp add: new_peer_def Let_def)
  moreover have "peer_of n' = (peer_of n)(pid \<mapsto> ?p)" "map_of (n_rx_sessions n') rx = Some pid"
    "\<forall>net. route_map (n_routes n') net = (if net \<in> set (authorized_peer_routes E cert) then Some pid else route_map (n_routes n) net)"
    by (simp_all add: n' with_peer_fields with_peer_tables new_peer_fields)
  moreover note new_peer_fields(1,4,5,8) [of E n pid key cert addr direct relayed relay tx rx ini "fst (instant_now w)"]
    add_peer_added(2) [OF assms(2)]
  ultimately show ?thesis by (intro exI [of _ ?p] conjI) assumption+
qed


lemma demo_node_ca: "n_ca_vk (demo_node cert sk) = demo_ca"
  by (simp add: demo_node_def new_node_def)

lemma demo_node_inv: "node_inv demo_ext (demo_node cert sk)"
  unfolding demo_node_def by (rule new_node_inv) simp

theorem add_peer_replaces_witness:
  "\<exists>n' w' p. add_peer demo_ext (demo_node demo_cert demo_sk) 0x03000000 [5] demo_cert2 default_listen None False False 7 9 0x03000000 False demo_world
      = (Added, n', w') \<and> peer_of n' 0x03000000 = Some p \<and> ps_tx_session_id p = 7 \<and> map_of (n_rx_sessions n') 9 = Some 0x03000000"
proof -
  let ?add = "add_peer demo_ext (demo_node demo_cert demo_sk) 0x03000000 [5] demo_cert2 default_listen None False False 7 9 0x03000000 False demo_world"
  have "fst ?add = Added"
    by (simp add: add_peer_def Let_def split_beta accept_first demo_node_def new_node_def)
  then obtain n' w' where a: "?add = (Added, n', w')" by (metis prod.collapse)
  from add_peer_replaces [OF demo_node_inv a] obtain p where "peer_of n' = (peer_of (demo_node demo_cert demo_sk))(0x03000000 \<mapsto> p)"
    "ps_tx_session_id p = 7" "map_of (n_rx_sessions n') 9 = Some 0x03000000" by blast
  then show ?thesis by (intro exI [of _ n'] exI [of _ w'] exI [of _ p] conjI a) simp_all
qed

text \<open>A node with one peer, added at time 0.\<close>

definition demo_link :: PeerState where
  "demo_link = new_peer demo_ext (demo_node demo_cert demo_sk) 0x03000000 [5] demo_cert2 default_listen None False False 7 9 0x03000000 0"

definition demo_linked :: Node where
  "demo_linked = with_peer demo_ext (demo_node demo_cert demo_sk) 0x03000000 demo_link"

lemma demo_linked:
  "node_inv demo_ext demo_linked" "peer_of demo_linked 0x03000000 = Some demo_link"
  "map_of (n_rx_sessions demo_linked) 9 = Some 0x03000000" "ps_rx_session_id demo_link = 9"
proof -
  let ?n0 = "demo_node demo_cert demo_sk"
  let ?add = "add_peer demo_ext ?n0 0x03000000 [5] demo_cert2 default_listen None False False 7 9 0x03000000 False (demo_world\<lparr>mono := \<lambda>_. 0\<rparr>)"
  have "fst (snd ?add) = demo_linked"
    by (simp add: add_peer_eq demo_linked_def demo_link_def instant_now_def accept_first demo_node_def new_node_def)
  then show "node_inv demo_ext demo_linked"
    using keeps_add_peer [OF keeps_refl, of demo_ext demo_cert2 ?n0 "0x03000000"] demo_identity2(1) demo_node_inv [of demo_cert demo_sk]
    by (metis (no_types, lifting) demo_ids(2) keeps_def demo_node_ca)
  show "peer_of demo_linked 0x03000000 = Some demo_link" "map_of (n_rx_sessions demo_linked) 9 = Some 0x03000000" "ps_rx_session_id demo_link = 9"
    by (simp_all add: demo_linked_def with_peer_fields with_peer_tables demo_link_def new_peer_fields)
qed

text \<open>C23. A removed peer leaves nothing behind. Afterwards it is no peer, no session id and no lighthouse
  slot leads to it, no lookup in the routing table answers with it; every other peer and every route
  and session of another peer is as it was (unless it had been given the same random session id), the
  kernel is asked to delete exactly the peer's routes, nothing is sent, and the node's invariant holds.\<close>

theorem remove_peer_clean:
  assumes "node_inv E n" and "peer_of n pid = Some p" and "remove_peer E n pid w = (n', w')"
  shows "peer_of n' = (peer_of n)(pid := None)
    \<and> map_of (n_rx_sessions n') = (map_of (n_rx_sessions n))(ps_rx_session_id p := None)
    \<and> pid \<notin> ran (map_of (n_rx_sessions n'))
    \<and> (\<forall>net. route_map (n_routes n') net = (if route_map (n_routes n) net = Some pid then None else route_map (n_routes n) net))
    \<and> (\<forall>ip. RouteTable_lookup E (n_routes n') ip \<noteq> Some pid)
    \<and> list_all (\<lambda>l. ls_peer_id l \<noteq> Some pid) (n_lighthouses n')
    \<and> route_log w' = route_log w @ (case n_iface_name n of None \<Rightarrow> [] | Some i \<Rightarrow> map (\<lambda>r. RouteDel (net_to_string E r) i) (ps_routes p))
    \<and> outbox w' = outbox w \<and> node_inv E n'"
proof -
  have n': "n' = n\<lparr>n_peers := AList.delete pid (n_peers n), n_rx_sessions := AList.delete (ps_rx_session_id p) (n_rx_sessions n),
      n_routes := RouteTable_remove_peer (n_routes n) pid,
      n_lighthouses := map (\<lambda>l. if ls_peer_id l = Some pid then l\<lparr>ls_peer_id := None\<rparr> else l) (n_lighthouses n)\<rparr>"
    and w': "w' = log_routes E RouteDel (n_iface_name n) (ps_routes p) w"
    using assms(2,3) by (simp_all add: remove_peer_def)
  have inv: "node_inv E n'" using keeps_remove_peer [OF keeps_refl, of E n pid w] assms(1,3) by (simp add: keeps_def)
  have gone: "peer_of n' = (peer_of n)(pid := None)" by (simp add: n' delete_conv')
  have "\<exists>q. peer_of n' pid = Some q" if "map_of (n_rx_sessions n') sid = Some pid" for sid
    using inv that unfolding node_inv_def sessions_inv_def by blast
  with gone have "pid \<notin> ran (map_of (n_rx_sessions n'))" unfolding ran_def by fastforce
  moreover have "routes_wf (n_routes n)" using assms(1) by (simp add: node_inv_def sessions_inv_def)
  then have "\<forall>net. route_map (n_routes n') net = (if route_map (n_routes n) net = Some pid then None else route_map (n_routes n) net)"
    by (simp add: n' route_map_remove)
  moreover have "\<forall>ip. RouteTable_lookup E (n_routes n') ip \<noteq> Some pid" by (simp add: n' lookup_not_removed)
  moreover have "list_all (\<lambda>l. ls_peer_id l \<noteq> Some pid) (n_lighthouses n')" by (auto simp: n' list_all_iff)
  moreover have "map_of (n_rx_sessions n') = (map_of (n_rx_sessions n))(ps_rx_session_id p := None)" by (simp add: n' delete_conv')
  moreover have "outbox w' = outbox w"
    "route_log w' = route_log w @ (case n_iface_name n of None \<Rightarrow> [] | Some i \<Rightarrow> map (\<lambda>r. RouteDel (net_to_string E r) i) (ps_routes p))"
    by (simp_all add: w' log_routes_log log_routes_outbox)
  moreover note inv gone
  ultimately show ?thesis by (intro conjI) assumption+
qed

theorem remove_peer_clean_witness:
  "\<exists>n' w'. remove_peer demo_ext demo_linked 0x03000000 demo_world = (n', w')
    \<and> peer_of n' 0x03000000 = None \<and> map_of (n_rx_sessions demo_linked) 9 = Some 0x03000000 \<and> map_of (n_rx_sessions n') 9 = None"
proof -
  obtain n' w' where r: "remove_peer demo_ext demo_linked 0x03000000 demo_world = (n', w')" by fastforce
  from remove_peer_clean [OF demo_linked(1,2) r] have "peer_of n' = (peer_of demo_linked)(0x03000000 := None)"
    "map_of (n_rx_sessions n') = (map_of (n_rx_sessions demo_linked))(9 := None)" unfolding demo_linked(4) by blast+
  then show ?thesis by (intro exI [of _ n'] exI [of _ w'] conjI demo_linked(3) r) simp_all
qed

end
