(* ===== verification/Node_Maintenance.thy ===== *)
theory Node_Maintenance
  imports Node_Peers
begin

text \<open>
  The maintenance tick: which peers, pending handshakes and discovery entries survive it, and how
  often lighthouses are asked.
\<close>

declare map_of_eq_Some_iff [simp del] Some_eq_map_of_iff [simp del]

section \<open>Which peers are lost\<close>

text \<open>A peer whose keepalive has gone unacknowledged for the keepalive timeout, or that has no
  keepalive outstanding and has been silent for the expiry time.\<close>

definition peer_lost :: "Node \<Rightarrow> instant \<Rightarrow> PeerState \<Rightarrow> bool" where
  "peer_lost n now p \<longleftrightarrow>
     (case if n_keepalive_enabled n then ps_keepalive p else None of
        Some k \<Rightarrow> now - kp_first_sent_at k \<ge> keepalive_timeout (n_timings n)
      | None \<Rightarrow> now - ps_last_seen p \<ge> peer_expiry (n_timings n))"

lemma maintain_keepalive_lost: "fst (maintain_keepalive E n now pid p w) \<noteq> None \<longleftrightarrow> peer_lost n now p"
  by (auto simp: maintain_keepalive_def peer_lost_def tick_def Let_def split_beta split: option.splits PeerTick.splits)

lemma maintain_loop_drops:
  "maintain_loop E n now ps w = Some (ps', drops, acts, w') \<Longrightarrow> map fst drops = map fst (filter (\<lambda>(_, p). peer_lost n now p) ps)"
proof (induction ps arbitrary: w ps' drops acts)
  case (Cons x ps)
  obtain pid p where x: "x = (pid, p)" by force
  obtain r as1 p1 w1 where k: "maintain_keepalive E n now pid p w = (r, as1, p1, w1)" by (metis prod_cases4)
  then have "r \<noteq> None \<longleftrightarrow> peer_lost n now p" using maintain_keepalive_lost [of E n now pid p w] by simp
  with Cons.prems k x show ?case by (cases r) (auto simp: bind_eq_Some_conv dest!: Cons.IH)
qed simp

text \<open>A peer whose path probe panics: it stays, and its probe is due and overflows.\<close>

definition peer_panics :: "Node \<Rightarrow> instant \<Rightarrow> PeerState \<Rightarrow> bool" where
  "peer_panics n now p \<longleftrightarrow> \<not> peer_lost n now p \<and> probe_overflows (n_timings n) now p"

definition probe_view :: "PeerState \<Rightarrow> bool \<times> SocketAddr option \<times> SocketAddr \<times> instant option \<times> duration" where
  "probe_view p = (ps_relayed p, ps_direct_addr p, ps_addr p, ps_next_probe p, ps_probe_interval p)"

lemma probe_view_overflows: "probe_view p' = probe_view p \<Longrightarrow> probe_overflows T now p' = probe_overflows T now p"
  by (simp add: probe_view_def probe_overflows_def probe_due_def split: option.splits)

lemma probe_view_tick: "probe_view (snd (tick p now T tok)) = probe_view p"
  by (simp add: probe_view_def tick_def Let_def split: option.splits)

lemma probe_view_wire: "probe_view (fst (snd (keepalive_wire E nk pid p tok w))) = probe_view p"
  by (simp add: probe_view_def keepalive_wire_def next_seq_def Let_def split_beta)

lemma maintain_keepalive_probes: "probe_view (fst (snd (snd (maintain_keepalive E n now pid p w)))) = probe_view p"
  using probe_view_tick [of p now "n_timings n" "fst (random_token w)"]
  by (auto simp: maintain_keepalive_def Let_def split_beta probe_view_wire split: PeerTick.splits)

lemma maintain_probe_panics: "maintain_probe E n now pid p w = None \<longleftrightarrow> probe_overflows (n_timings n) now p"
  using probe_panics_iff [of p now "n_timings n" "fst (random_token w)"]
  by (auto simp: maintain_probe_def Let_def split_beta split: option.splits PathProbe.splits)

lemma maintain_loop_panics: "maintain_loop E n now ps w = None \<longleftrightarrow> list_ex (\<lambda>(_, p). peer_panics n now p) ps"
proof (induction ps arbitrary: w)
  case (Cons x ps)
  obtain pid p where x: "x = (pid, p)" by force
  obtain r as1 p1 w1 where k: "maintain_keepalive E n now pid p w = (r, as1, p1, w1)" by (metis prod_cases4)
  then have "r \<noteq> None \<longleftrightarrow> peer_lost n now p" "probe_overflows (n_timings n) now p1 \<longleftrightarrow> probe_overflows (n_timings n) now p"
    using maintain_keepalive_lost [of E n now pid p w] probe_view_overflows [OF maintain_keepalive_probes [of E n now pid p w]] by simp_all
  with k x Cons.IH maintain_probe_panics [of E n now pid p1 w1] show ?case
    by (cases r) (auto simp: peer_panics_def bind_eq_None_conv split_beta)
qed simp

section \<open>Parts of the node the operations leave alone\<close>

text \<open>The identities of the peers, the pending handshakes and the cache.\<close>

definition same_peers :: "Node \<Rightarrow> Node \<Rightarrow> bool" where
  "same_peers n n' \<longleftrightarrow> peer_view (n_peers n') = peer_view (n_peers n) \<and> n_pending n' = n_pending n
     \<and> n_handshake_cache n' = n_handshake_cache n"

lemma same_peers_trans: "same_peers a b \<Longrightarrow> same_peers b c \<Longrightarrow> same_peers a c"
  by (simp add: same_peers_def)

lemma same_peers_tx: "peer_tx n pid = Some (tx, n') \<Longrightarrow> same_peers n n' \<and> n_discovery_pending n' = n_discovery_pending n"
  by (auto simp: peer_tx_def same_peers_def put_peer_def Let_def split_beta static_simps peer_view_update split: option.splits)

lemma query_loop_same:
  "same_peers n (fst (query_loop E dst pids n w)) \<and> n_discovery_pending (fst (query_loop E dst pids n w)) = n_discovery_pending n"
proof (induction pids arbitrary: n w)
  case (Cons pid pids)
  show ?case
    using Cons.IH by (auto simp: Let_def split_beta split: option.splits dest!: same_peers_tx intro: same_peers_trans)
qed (simp add: same_peers_def)

lemma request_discovery_same: "same_peers n (fst (request_discovery E n dst w))"
  using query_loop_same [of "n\<lparr>n_discovery_pending := m\<rparr>" E dst pids w' for m pids w']
  by (auto simp: request_discovery_def Let_def split_beta same_peers_def)

lemma actions_same: "same_peers (fst s) (fst (fold (do_action E) as s))"
proof (induction as arbitrary: s)
  case (Cons a as)
  have "same_peers (fst s) (fst (do_action E a s))"
    using request_discovery_same by (cases a; cases s) (auto simp: same_peers_def)
  from same_peers_trans [OF this Cons.IH] show ?case by simp
qed (simp add: same_peers_def)

lemma remove_peers:
  "peer_of (fst (fold (\<lambda>(pid, _) (n, w). remove_peer E n pid w) ds s)) i = (if i \<in> fst ` set ds then None else peer_of (fst s) i)"
  "n_pending (fst (fold (\<lambda>(pid, _) (n, w). remove_peer E n pid w) ds s)) = n_pending (fst s)"
  by (induction ds arbitrary: s) (auto simp: split_beta remove_peer_def delete_conv' split: option.splits)

lemma maintain_peers_same:
  assumes "hm_wf (n_peers n)" and "maintain_peers E n now w = Some (n', w')"
  shows "map_option peer_static (peer_of n' pid) =
      (case peer_of n pid of None \<Rightarrow> None | Some p \<Rightarrow> if peer_lost n now p then None else Some (peer_static p))"
    and "n_pending n' = n_pending n"
proof -
  obtain ps drops acts w1 where l: "maintain_loop E n now (n_peers n) w = Some (ps, drops, acts, w1)"
    using assms(2) by (auto simp: maintain_peers_def bind_eq_Some_conv)
  define s where "s = fold (\<lambda>(pid, _) (n, w). remove_peer E n pid w) drops (n\<lparr>n_peers := ps\<rparr>, w1)"
  have n': "n' = fst (fold (do_action E) acts s)" using assms(2) l by (simp add: maintain_peers_def s_def)
  have same: "same_peers (fst s) n'" unfolding n' by (rule actions_same)
  show "n_pending n' = n_pending n" using same by (simp add: same_peers_def s_def remove_peers)
  have static: "map_option peer_static (map_of ps pid) = map_option peer_static (peer_of n pid)"
    using arg_cong [OF maintain_loop_view [OF l], of "\<lambda>v. map_of v pid"] by (simp add: peer_view_of)
  have "pid \<in> fst ` set drops \<longleftrightarrow> (\<exists>p. peer_of n pid = Some p \<and> peer_lost n now p)"
    using arg_cong [OF maintain_loop_drops [OF l], of set] assms(1)
    by (auto simp: image_iff map_of_eq_Some_iff)
  moreover have "map_option peer_static (peer_of n' pid) = map_option peer_static (peer_of (fst s) pid)"
    using arg_cong [OF conjunct1 [OF same [unfolded same_peers_def]], of "\<lambda>v. map_of v pid"] by (simp add: peer_view_of)
  ultimately show "map_option peer_static (peer_of n' pid) =
      (case peer_of n pid of None \<Rightarrow> None | Some p \<Rightarrow> if peer_lost n now p then None else Some (peer_static p))"
    using static by (auto simp: s_def remove_peers split: option.splits)
qed


lemma retransmit_peers:
  "n_peers (fst (retransmit_handshakes E n now w)) = n_peers n"
  "n_keepalive_enabled (fst (retransmit_handshakes E n now w)) = n_keepalive_enabled n"
  "n_timings (fst (retransmit_handshakes E n now w)) = n_timings n"
  by (simp_all add: retransmit_handshakes_def Let_def)

lemma retransmit_pending:
  assumes "hm_wf (n_pending n)"
  shows "map_option ph_initiate (map_of (n_pending (fst (retransmit_handshakes E n now w))) sid) =
    (case map_of (n_pending n) sid of None \<Rightarrow> None | Some h \<Rightarrow> if expired h now (n_timings n) then None else Some (ph_initiate h))"
proof -
  let ?relays = "map (\<lambda>(i, p). (i, ps_addr p)) (filter (\<lambda>(_, p). ps_is_relay p) (n_peers n))"
  have *: "map_of (map (\<lambda>(sid, h). (sid, f h)) (filter (\<lambda>(_, h). \<not> q h) xs)) sid
      = (case map_of xs sid of None \<Rightarrow> None | Some h \<Rightarrow> if q h then None else Some (f h))"
    if "distinct (map fst xs)" for f :: "PendingHandshake \<Rightarrow> PendingHandshake" and q xs
    using that by (induction xs) (auto split: option.splits simp: weak_map_of_SomeI map_of_eq_None_iff image_iff)
  have "n_pending (fst (retransmit_handshakes E n now w)) = map (\<lambda>(sid, h). (sid, fst (retransmit_one ?relays now (n_timings n) h)))
      (filter (\<lambda>(_, h). \<not> expired h now (n_timings n)) (n_pending n))"
    by (simp add: retransmit_handshakes_def Let_def comp_def split_beta)
  then show ?thesis
    using * [OF assms, of "\<lambda>h. fst (retransmit_one ?relays now (n_timings n) h)" "\<lambda>h. expired h now (n_timings n)"]
    by (simp add: retransmit_one_initiate split: option.splits)
qed

lemma tick_panics_iff: "maintenance_tick E n w = None \<longleftrightarrow> list_ex (\<lambda>(_, p). peer_panics n (fst (instant_now w)) p) (n_peers n)"
proof -
  obtain n1 w1 where r: "retransmit_handshakes E n (fst (instant_now w)) (snd (instant_now w)) = (n1, w1)" by fastforce
  have "n_peers n1 = n_peers n" "peer_panics n1 = peer_panics n"
    using retransmit_peers [of E n "fst (instant_now w)" "snd (instant_now w)"] r
    by (auto simp: peer_panics_def peer_lost_def fun_eq_iff split: option.splits)
  then show ?thesis
    by (simp add: maintenance_tick_def Let_def split_beta r bind_eq_None_conv maintain_peers_def maintain_loop_panics)
qed

text \<open>A tick of the demonstration node long after it heard of its peer.\<close>

lemma demo_lost: "peer_lost demo_linked (fst (instant_now (demo_world\<lparr>mono := \<lambda>_. 10 ^ 15\<rparr>))) demo_link"
  by (simp add: peer_lost_def demo_linked_def demo_link_def with_peer_def bind_lighthouse_def new_peer_def demo_node_def new_node_def
      instant_now_def config_timings_def Timings_from_secs_def PEER_EXPIRY_def from_secs_def demo_daemon_config_def demo_config_def Let_def)

lemma demo_tick: "maintenance_tick demo_ext demo_linked (demo_world\<lparr>mono := \<lambda>_. 10 ^ 15\<rparr>) \<noteq> None"
proof -
  have "n_peers demo_linked = [(0x03000000, demo_link)]"
    by (simp add: demo_linked_def with_peer_def bind_lighthouse_def demo_node_def new_node_def)
  then show ?thesis using demo_lost by (simp add: tick_panics_iff peer_panics_def)
qed

section \<open>Properties\<close>

text \<open>C20. A maintenance tick drops exactly what it should. Of the peers, those stay whose outstanding
  keepalive is younger than the keepalive timeout, or which have none outstanding and were heard of
  within the expiry time; they keep their certificate, keys, session ids and routes. Of the pending
  handshakes those stay that have not timed out, with the message they were started with. No session,
  route or lighthouse slot leads to a peer that was dropped, and remembered lookups are younger
  than two minutes.\<close>

theorem maintenance_tick_exact:
  assumes "node_inv E n" and "maintenance_tick E n w = Some (n', w')"
  shows "(\<forall>pid. map_option peer_static (peer_of n' pid) =
        (case peer_of n pid of None \<Rightarrow> None | Some p \<Rightarrow> if peer_lost n (fst (instant_now w)) p then None else Some (peer_static p)))
    \<and> (\<forall>sid. map_option ph_initiate (map_of (n_pending n') sid) =
        (case map_of (n_pending n) sid of None \<Rightarrow> None
         | Some h \<Rightarrow> if expired h (fst (instant_now w)) (n_timings n) then None else Some (ph_initiate h)))
    \<and> (\<forall>pid. peer_of n' pid = None \<longrightarrow> pid \<notin> ran (map_of (n_rx_sessions n')) \<and> pid \<notin> ran (route_map (n_routes n'))
        \<and> list_all (\<lambda>l. ls_peer_id l \<noteq> Some pid) (n_lighthouses n'))
    \<and> list_all (\<lambda>(_, asked). fst (instant_now w) - asked < from_secs 120) (n_discovery_pending n')"
proof -
  let ?now = "fst (instant_now w)"
  obtain n1 w1 where r: "retransmit_handshakes E n ?now (snd (instant_now w)) = (n1, w1)" by fastforce
  obtain n2 w2 where m: "maintain_peers E n1 ?now w1 = Some (n2, w2)"
    using assms(2) r by (auto simp: maintenance_tick_def Let_def split_beta bind_eq_Some_conv)
  have n': "n_peers n' = n_peers n2" "n_pending n' = n_pending n2" "list_all (\<lambda>(_, asked). ?now - asked < from_secs 120) (n_discovery_pending n')"
    using assms(2) r m by (auto simp: maintenance_tick_def Let_def split_beta DISCOVERY_ENTRY_TTL_def list_all_iff)
  have n1: "n_peers n1 = n_peers n" "peer_lost n1 = peer_lost n"
    using retransmit_peers [of E n ?now "snd (instant_now w)"] r by (auto simp: peer_lost_def fun_eq_iff split: option.splits)
  have wf: "hm_wf (n_peers n1)" "hm_wf (n_pending n)" using assms(1) n1 by (simp_all add: node_inv_def sessions_inv_def pending_inv_def)
  have peers: "map_option peer_static (peer_of n' pid) =
      (case peer_of n pid of None \<Rightarrow> None | Some p \<Rightarrow> if peer_lost n ?now p then None else Some (peer_static p))" for pid
    using maintain_peers_same(1) [OF wf(1) m, of pid, unfolded n1] by (simp add: n')
  have pend: "map_option ph_initiate (map_of (n_pending n') sid) = (case map_of (n_pending n) sid of None \<Rightarrow> None
      | Some h \<Rightarrow> if expired h ?now (n_timings n) then None else Some (ph_initiate h))" for sid
    using retransmit_pending [OF wf(2), of E ?now "snd (instant_now w)" sid] maintain_peers_same(2) [OF wf(1) m] r by (simp add: n')
  have inv: "sessions_inv E n'" using keeps_tick [OF keeps_refl assms(2)] assms(1) by (simp add: keeps_def node_inv_def)
  have "pid \<notin> ran (map_of (n_rx_sessions n'))" "pid \<notin> ran (route_map (n_routes n'))" "list_all (\<lambda>l. ls_peer_id l \<noteq> Some pid) (n_lighthouses n')"
    if none: "peer_of n' pid = None" for pid
  proof -
    show "pid \<notin> ran (map_of (n_rx_sessions n'))" "list_all (\<lambda>l. ls_peer_id l \<noteq> Some pid) (n_lighthouses n')"
      using inv none slot_bound [OF inv, of _ pid] unfolding sessions_inv_def ran_def list_all_iff by fastforce+
    show "pid \<notin> ran (route_map (n_routes n'))"
      using inv none map_of_SomeD [of "routes (n_routes n')" _ pid] unfolding sessions_inv_def ran_def route_map_def by blast
  qed
  with peers pend n'(3) show ?thesis by blast
qed


theorem maintenance_tick_exact_witness:
  "\<exists>n' w'. maintenance_tick demo_ext demo_linked (demo_world\<lparr>mono := \<lambda>_. 10 ^ 15\<rparr>) = Some (n', w')
    \<and> peer_of demo_linked 0x03000000 \<noteq> None \<and> peer_of n' 0x03000000 = None
    \<and> 0x03000000 \<notin> ran (route_map (n_routes n'))"
proof -
  let ?w = "demo_world\<lparr>mono := \<lambda>_. 10 ^ 15\<rparr>"
  obtain n' w' where t: "maintenance_tick demo_ext demo_linked ?w = Some (n', w')" using demo_tick by auto
  note demo_lost
  moreover from maintenance_tick_exact [OF demo_linked(1) t] have e: "map_option peer_static (peer_of n' 0x03000000) =
      (case peer_of demo_linked 0x03000000 of None \<Rightarrow> None
       | Some p \<Rightarrow> if peer_lost demo_linked (fst (instant_now ?w)) p then None else Some (peer_static p))"
    and r: "peer_of n' 0x03000000 = None \<longrightarrow> 0x03000000 \<notin> ran (route_map (n_routes n'))" by blast+
  ultimately have "peer_of n' 0x03000000 = None" using demo_linked(2) by simp
  with r t demo_linked(2) show ?thesis by (intro exI [of _ n'] exI [of _ w'] conjI) simp_all
qed

end
