(* ===== verification/Node_Sends.thy ===== *)
theory Node_Sends
  imports Delivery
begin

text \<open>
  Where a node's datagrams go: \<open>sends_only A\<close> relates two worlds when what was sent in between went to
  addresses of \<open>A\<close> only and nothing reached the TUN device.
\<close>

named_theorems sends_simps

definition sends_only :: "SocketAddr set \<Rightarrow> world \<Rightarrow> world \<Rightarrow> bool" where
  "sends_only A w w' \<longleftrightarrow> tun_out w' = tun_out w \<and> (\<exists>ds. outbox w' = outbox w @ ds \<and> snd ` set ds \<subseteq> A)"

lemma sends_refl [sends_simps]: "sends_only A w w"
  by (simp add: sends_only_def)

lemma sends_trans: "sends_only A a b \<Longrightarrow> sends_only A b c \<Longrightarrow> sends_only A a c"
  unfolding sends_only_def by (metis Un_least append.assoc image_Un set_append)

lemma sends_subset: "sends_only A w w' \<Longrightarrow> A \<subseteq> B \<Longrightarrow> sends_only B w w'"
  by (auto simp: sends_only_def)

lemma sends_same: "sends_only A w0 w \<Longrightarrow> same_outputs w w' \<Longrightarrow> sends_only A w0 w'"
  by (simp add: sends_only_def same_outputs_def)

lemma sends_send: "addr \<in> A \<Longrightarrow> sends_only A w0 w \<Longrightarrow> sends_only A w0 (snd (send_to pkt addr w))"
  by (auto simp: sends_only_def outbox_send_to) (auto simp: send_to_def Let_def)

text \<open>The building blocks send to the addresses they are given.\<close>

interpretation sending: world_closed "sends_only A w0" A
  by unfold_locales
    (auto simp: draws_def sends_send intro: sends_same, simp_all add: sends_only_def instant_now_def unix_now_def)

lemmas sends_instant = sending.instant
  and sends_start = sending.started

lemmas sends_blocks [sends_simps] = sending.instant sending.encrypted sending.message_sent sending.wire

end
