(* ===== verification/Node_Discovery.thy ===== *)
theory Node_Discovery
  imports Node_Maintenance Node_Sends
begin

text \<open>
  Discovery through lighthouses, from both sides: how often a node asks and whom, and what an answer
  can make it do.
\<close>

declare map_of_eq_Some_iff [simp del] Some_eq_map_of_iff [simp del]

section \<open>Asking\<close>

lemma peer_tx_eq: "peer_of n pid = Some p \<Longrightarrow> peer_tx n pid =
    Some (\<lparr>tx_addr = ps_addr p, tx_seq = ps_tx_seq p + 1, tx_session_id = ps_tx_session_id p, tx_key = ps_tx_key p\<rparr>,
      put_peer pid (p\<lparr>ps_tx_seq := ps_tx_seq p + 1\<rparr>) n)"
  by (simp add: peer_tx_def next_seq_def Let_def)

text \<open>Every listed lighthouse is asked once for each time it is listed: that many numbers of its
  session are used up, and the datagrams go to lighthouses only.\<close>

lemma query_loop_seq:
  "peer_of (fst (query_loop E dst pids n w)) i =
     map_option (\<lambda>p. p\<lparr>ps_tx_seq := ps_tx_seq p + of_nat (count_list pids i)\<rparr>) (peer_of n i)"
proof (induction pids arbitrary: n w)
  case (Cons pid pids)
  show ?case
  proof (cases "peer_of n pid")
    case None
    with Cons.IH show ?thesis by (cases "pid = i") (simp_all add: peer_tx_def)
  next
    case (Some p)
    with Cons.IH show ?thesis by (cases "pid = i") (simp_all add: peer_tx_eq Let_def split_beta add.assoc)
  qed
qed (simp add: option.map_ident)

lemma query_loop_sends:
  assumes "sends_only A w0 w" and "\<And>i p. i \<in> set pids \<Longrightarrow> peer_of n i = Some p \<Longrightarrow> ps_addr p \<in> A"
  shows "sends_only A w0 (snd (query_loop E dst pids n w))"
  using assms
proof (induction pids arbitrary: n w)
  case (Cons pid pids)
  show ?case
  proof (cases "peer_of n pid")
    case None
    moreover have "sends_only A w0 (snd (query_loop E dst pids n w))"
      by (rule Cons.IH [OF Cons.prems(1)], rule Cons.prems(2)) simp_all
    ultimately show ?thesis by (simp add: peer_tx_def)
  next
    case (Some p)
    let ?n = "put_peer pid (p\<lparr>ps_tx_seq := ps_tx_seq p + 1\<rparr>) n"
    have p: "ps_addr p \<in> A" using Cons.prems(2) [of pid p] Some by simp
    then have "ps_addr q \<in> A" if "i \<in> set pids" "peer_of ?n i = Some q" for i q
      using that Cons.prems(2) [of i q] by (auto split: if_splits)
    with p show ?thesis using Cons.IH [of _ ?n] Cons.prems(1) Some
      by (simp add: peer_tx_eq Let_def split_beta sends_simps)
  qed
qed simp

section \<open>Being answered\<close>

lemma start_pending:
  assumes "start_handshake E n addr pid name w = Some (b, n', w')"
  shows "n' = n \<or> (\<exists>ini now. n' = n\<lparr>n_pending := AList.update (hi_my_rx_session_id ini) (PendingHandshake_new ini addr pid name now) (n_pending n)\<rparr>)"
  using assms by (auto simp: start_handshake_def Let_def split_beta split: if_splits bind_splits)

section \<open>Properties\<close>

text \<open>Lookups are rate limited. A lookup of an address that has not been asked for in the last ten
  seconds is recorded and sent once to every connected lighthouse and to nobody else (each
  lighthouse's session counter advances by exactly one per slot that names it, no other peer is
  touched); every further request for that address within ten seconds of it changes nothing and sends
  nothing.\<close>

lemma discovery_rate_limited:
  assumes "request_discovery E n dst w = (n', w')"
    and "case map_of (n_discovery_pending n) dst of None \<Rightarrow> True | Some asked \<Rightarrow> fst (instant_now w) - asked \<ge> from_secs 10"
  shows "(\<forall>i. peer_of n' i = map_option (\<lambda>p. p\<lparr>ps_tx_seq := ps_tx_seq p + of_nat (length (filter (\<lambda>l. ls_peer_id l = Some i) (n_lighthouses n)))\<rparr>)
        (peer_of n i))
    \<and> sends_only {ps_addr p | p l i. l \<in> set (n_lighthouses n) \<and> ls_peer_id l = Some i \<and> peer_of n i = Some p} w w'
    \<and> (\<forall>w2. fst (instant_now w2) - fst (instant_now w) < from_secs 10 \<longrightarrow> request_discovery E n' dst w2 = (n', snd (instant_now w2)))"
proof -
  let ?now = "fst (instant_now w)" and ?ids = "List.map_filter ls_peer_id (n_lighthouses n)"
  let ?n = "n\<lparr>n_discovery_pending := AList.update dst ?now (n_discovery_pending n)\<rparr>"
  have q: "query_loop E dst ?ids ?n (snd (instant_now w)) = (n', w')"
    using assms by (auto simp: request_discovery_def Let_def split_beta DISCOVERY_RETRY_def split: option.splits)
  have count: "count_list (List.map_filter ls_peer_id ls) i = length (filter (\<lambda>l. ls_peer_id l = Some i) ls)" for i and ls :: "LighthouseSlot list"
    by (induction ls) (auto simp: List.map_filter_simps split: option.splits)
  have "peer_of n' i = map_option (\<lambda>p. p\<lparr>ps_tx_seq := ps_tx_seq p + of_nat (length (filter (\<lambda>l. ls_peer_id l = Some i) (n_lighthouses n)))\<rparr>) (peer_of n i)" for i
    using query_loop_seq [of E dst ?ids ?n "snd (instant_now w)" i] q by (simp add: count)
  moreover have "sends_only {ps_addr p | p l i. l \<in> set (n_lighthouses n) \<and> ls_peer_id l = Some i \<and> peer_of n i = Some p} w w'"
    (is "sends_only ?A w w'")
  proof -
    have "ps_addr p \<in> ?A" if "i \<in> set ?ids" "peer_of ?n i = Some p" for i p
      using that by (auto simp: List.map_filter_def) blast
    then have "sends_only ?A w (snd (query_loop E dst ?ids ?n (snd (instant_now w))))"
      by (intro query_loop_sends sends_instant sends_refl)
    with q show ?thesis by simp
  qed
  moreover have "n_discovery_pending n' = AList.update dst ?now (n_discovery_pending n)"
    using query_loop_same [of ?n E dst ?ids "snd (instant_now w)"] q by simp
  then have "request_discovery E n' dst w2 = (n', snd (instant_now w2))" if "fst (instant_now w2) - ?now < from_secs 10" for w2
    using that by (simp add: request_discovery_def Let_def split_beta update_conv' DISCOVERY_RETRY_def)
  ultimately show ?thesis by blast
qed


text \<open>C30. What an answer of a lighthouse can do. It changes the node or sends something only if the
  certificate in it was issued by the node's CA and is valid now, belongs to the announced id, which is
  not the node's own, and authorizes the address that was looked up. Then the endpoint of a peer that
  is already there is tried as its direct address and nothing is sent; otherwise at most one handshake
  with that id is started, to the announced endpoint and to no other.\<close>

theorem lighthouse_response_guarded:
  assumes "handle_lighthouse_response E n target pid addr cert w = Some (n', w')"
  shows "n' = n \<and> sends_only {} w w'
    \<or> pid \<noteq> n_our_id n \<and> issued E cert (n_ca_vk n) \<and> in_validity E cert (unix w 0) \<and> node_id_from_cert E cert = pid
      \<and> list_ex (\<lambda>r. net_contains E r target) (authorized_peer_routes E cert)
      \<and> ((\<exists>p. peer_of n pid = Some p \<and> n' = put_peer pid (p\<lparr>ps_direct_addr := Some addr, ps_next_probe := None\<rparr>) n \<and> sends_only {} w w')
         \<or> peer_of n pid = None \<and> sends_only {addr} w w'
           \<and> (n' = n \<or> (\<exists>sid h. n' = n\<lparr>n_pending := AList.update sid h (n_pending n)\<rparr> \<and> ph_peer_id h = Some pid \<and> ph_direct_addr h = addr)))"
proof -
  obtain ok w1 where v: "Cert_verify E cert (n_ca_vk n) w = (ok, w1)" by fastforce
  have w1: "sends_only A w w1" for A using Cert_verify_world [OF v] sends_same [OF sends_refl] by blast
  have start: "sends_only {addr} w w2 \<and> (n2 = n \<or> (\<exists>sid h. n2 = n\<lparr>n_pending := AList.update sid h (n_pending n)\<rparr>
      \<and> ph_peer_id h = Some pid \<and> ph_direct_addr h = addr))" if "start_handshake E n addr (Some pid) name w1 = Some (b, n2, w2)" for name b n2 w2
    using start_pending [OF that] sends_start [OF that, of "{addr}" w] w1 by (fastforce simp: PendingHandshake_new_def)
  consider "n' = n" "w' = w1 \<or> w' = w"
    | "ok" "pid \<noteq> n_our_id n" "node_id_from_cert E cert = pid" "list_ex (\<lambda>r. net_contains E r target) (authorized_peer_routes E cert)"
    using assms v by (auto simp: handle_lighthouse_response_def split: if_splits)
  then show ?thesis
  proof cases
    case 1
    with w1 sends_refl show ?thesis by blast
  next
    case 2
    have c: "issued E cert (n_ca_vk n)" "in_validity E cert (unix w 0)"
      using verify_iff_issued [of E cert "n_ca_vk n" w] v 2(1) by simp_all
    show ?thesis
    proof (cases "peer_of n pid")
      case None
      with assms v 2 obtain b name where "start_handshake E n addr (Some pid) name w1 = Some (b, n', w')"
        by (auto simp: handle_lighthouse_response_def)
      from start [OF this] show ?thesis using 2 c None by blast
    next
      case (Some p)
      with assms v 2 show ?thesis using c w1 by (auto simp: handle_lighthouse_response_def split: if_splits)
    qed
  qed
qed

theorem lighthouse_response_guarded_witness:
  "\<exists>n' w'. handle_lighthouse_response demo_ext (demo_node demo_cert demo_sk) (V4 0x0A000003) 0x02000000 default_listen demo_cert2 demo_world
      = Some (n', w') \<and> n' = demo_node demo_cert demo_sk"
proof -
  let ?n = "demo_node demo_cert demo_sk"
  have id: "n_our_id ?n = 0x02000000" by (rule demo_node_ids)
  then have r: "handle_lighthouse_response demo_ext ?n (V4 0x0A000003) 0x02000000 default_listen demo_cert2 demo_world = Some (?n, demo_world)"
    by (simp add: handle_lighthouse_response_def)
  from lighthouse_response_guarded [OF r] r id show ?thesis by blast
qed

end
