(* ===== verification/CertTool.thy ===== *)
theory CertTool
  imports CertRoutes
begin

text \<open>
  The certificate tool \<open>liteway-cert/src/main.rs\<close>: its commands as functions on a disk, composed the way
  \<open>main\<close> composes them. The \<open>toml\<close> crate is a parameter, one printer and one parser per file format; a
  printer may fail, as \<open>to_string_pretty\<close> may. A disk maps paths to files, each file having one path; \<open>can_write\<close> says where a file
  can be created or opened for writing, \<open>write_stops\<close> where \<open>write_all\<close> fails and after how many bytes, \<open>syncs\<close>
  where \<open>sync_all\<close> succeeds, \<open>unix_modes\<close> whether the tool was built for Unix. The flag of a file is set when
  it was created with mode 0600, which only the Unix build asks for.
  A \<open>println!\<close> is a value of \<open>message\<close>: which text is printed and the data in it.
\<close>

section \<open>Files\<close>

record toml =
  toml_ca :: "CaCert \<Rightarrow> string option"
  toml_parse_ca :: "string \<Rightarrow> CaCert option"
  toml_cert :: "Cert \<Rightarrow> string option"
  toml_parse_cert :: "string \<Rightarrow> Cert option"
  toml_ca_key :: "CaSigningKey \<Rightarrow> string option"
  toml_parse_ca_key :: "string \<Rightarrow> CaSigningKey option"
  toml_node_key :: "NodeKeyFile \<Rightarrow> string option"
  toml_parse_node_key :: "string \<Rightarrow> NodeKeyFile option"

text \<open>The crate reads back what it wrote.\<close>

definition toml_ok :: "toml \<Rightarrow> bool" where
  "toml_ok T \<longleftrightarrow>
     (\<forall>c s. toml_ca T c = Some s \<longrightarrow> toml_parse_ca T s = Some c)
   \<and> (\<forall>c s. toml_cert T c = Some s \<longrightarrow> toml_parse_cert T s = Some c)
   \<and> (\<forall>k s. toml_ca_key T k = Some s \<longrightarrow> toml_parse_ca_key T s = Some k)
   \<and> (\<forall>k s. toml_node_key T k = Some s \<longrightarrow> toml_parse_node_key T s = Some k)"

record disk_file =
  contents :: string
  private_mode :: bool

record disk =
  files :: "string \<rightharpoonup> disk_file"
  can_write :: "string \<Rightarrow> bool"
  write_stops :: "string \<Rightarrow> nat option"
  syncs :: "string \<Rightarrow> bool"
  unix_modes :: bool

datatype tool_error =
    BadNodeIp cidr_error
  | CannotRead string
  | CannotWrite string
  | BadToml
  | TomlPrint
  | DatePanic

text \<open>\<open>fs::read_to_string\<close>, \<open>fs::write\<close> (creates or truncates, then writes; the mode of an existing file stays)
  and \<open>write_private_file\<close> (only creates, then writes and syncs). A write that fails leaves what it has
  written so far.\<close>

definition read_file :: "string \<Rightarrow> disk \<Rightarrow> tool_error + string" where
  "read_file path d = (case files d path of None \<Rightarrow> Inl (CannotRead path) | Some f \<Rightarrow> Inr (contents f))"

definition write_file :: "string \<Rightarrow> string \<Rightarrow> disk \<Rightarrow> (tool_error + unit) \<times> disk" where
  "write_file path s d =
     (if \<not> can_write d path then (Inl (CannotWrite path), d)
      else
        let prv = (case files d path of None \<Rightarrow> False | Some f \<Rightarrow> private_mode f);
            put = (\<lambda>c. d\<lparr>files := (files d)(path \<mapsto> \<lparr>contents = c, private_mode = prv\<rparr>)\<rparr>)
        in case write_stops d path of
             None \<Rightarrow> (Inr (), put s)
           | Some k \<Rightarrow> (Inl (CannotWrite path), put (take k s)))"

definition write_private_file :: "string \<Rightarrow> string \<Rightarrow> disk \<Rightarrow> (tool_error + unit) \<times> disk" where
  "write_private_file path s d =
     (if files d path \<noteq> None \<or> \<not> can_write d path then (Inl (CannotWrite path), d)
      else
        let put = (\<lambda>c. d\<lparr>files := (files d)(path \<mapsto> \<lparr>contents = c, private_mode = unix_modes d\<rparr>)\<rparr>)
        in case write_stops d path of
             Some k \<Rightarrow> (Inl (CannotWrite path), put (take k s))
           | None \<Rightarrow> (if syncs d path then Inr () else Inl (CannotWrite path), put s))"

definition parse_node_cert :: "toml \<Rightarrow> string \<Rightarrow> tool_error + Cert" where
  "parse_node_cert T s = (case toml_parse_cert T s of None \<Rightarrow> Inl BadToml | Some c \<Rightarrow> Inr c)"

section \<open>Commands\<close>

datatype Commands =
    GenCa (gc_name: string) (gc_validity_years: int) (gc_out: string) (gc_groups: "string list")
  | GenNode (gn_name: string) (gn_ip: string) (gn_subnets: "string list") (gn_groups: "string list")
      (gn_validity_days: int) (gn_ca_key: string) (gn_out: "string option")
  | Verify (v_cert: string) (v_ca_cert: string)
  | Show (s_cert: string)
  | GenLighthouse (gl_cert: string) (gl_address: string)

datatype message =
    CaCertWritten string
  | CaKeyWritten string
  | NetworkSecret string
  | NodeCertWritten string
  | NodeKeyWritten string
  | CertificateValid string DateTime "string option"
  | CertificateInvalid
  | NodeDetails Cert
  | CaDetails CaCert
  | LighthouseEntry string string

type_synonym tool_result = "(tool_error + message list) \<times> disk \<times> world"

definition gen_ca_files :: "toml \<Rightarrow> string \<Rightarrow> FullCaCert \<Rightarrow> disk \<Rightarrow> (tool_error + unit) \<times> disk" where
  "gen_ca_files T out full_ca d =
     (case toml_ca T (full_cert full_ca) of
        None \<Rightarrow> (Inl TomlPrint, d)
      | Some ca_toml \<Rightarrow>
          (case write_file (out @ ''.toml'') ca_toml d of
             (Inl e, d) \<Rightarrow> (Inl e, d)
           | (Inr _, d) \<Rightarrow>
               (case toml_ca_key T (full_signing_key full_ca) of
                  None \<Rightarrow> (Inl TomlPrint, d)
                | Some key_toml \<Rightarrow> write_private_file (out @ ''-key.toml'') key_toml d)))"

definition run_gen_ca :: "ext \<Rightarrow> toml \<Rightarrow> DateTime \<Rightarrow> string \<Rightarrow> int \<Rightarrow> string \<Rightarrow> string list \<Rightarrow> disk \<Rightarrow> world \<Rightarrow> tool_result" where
  "run_gen_ca E T now name years out grps d w =
     (case generate_ca E name years grps now w of
        (None, w) \<Rightarrow> (Inl DatePanic, d, w)
      | (Some full_ca, w) \<Rightarrow>
          (case gen_ca_files T out full_ca d of
             (Inl e, d) \<Rightarrow> (Inl e, d, w)
           | (Inr _, d) \<Rightarrow>
               let (secret, w) = generate_network_secret E w
               in (Inr [CaCertWritten (out @ ''.toml''), CaKeyWritten (out @ ''-key.toml''), NetworkSecret secret], d, w)))"

definition gen_node_files :: "toml \<Rightarrow> string \<Rightarrow> Cert \<Rightarrow> NodeKeyFile \<Rightarrow> disk \<Rightarrow> (tool_error + unit) \<times> disk" where
  "gen_node_files T out node_cert node_key d =
     (case toml_cert T node_cert of
        None \<Rightarrow> (Inl TomlPrint, d)
      | Some cert_toml \<Rightarrow>
          (case write_file (out @ ''-cert.toml'') cert_toml d of
             (Inl e, d) \<Rightarrow> (Inl e, d)
           | (Inr _, d) \<Rightarrow>
               (case toml_node_key T node_key of
                  None \<Rightarrow> (Inl TomlPrint, d)
                | Some key_toml \<Rightarrow> write_private_file (out @ ''-key.toml'') key_toml d)))"

definition run_gen_node ::
  "ext \<Rightarrow> toml \<Rightarrow> DateTime \<Rightarrow> string \<Rightarrow> string \<Rightarrow> string list \<Rightarrow> string list \<Rightarrow> int \<Rightarrow> string \<Rightarrow> string option \<Rightarrow> disk \<Rightarrow> world
   \<Rightarrow> tool_result" where
  "run_gen_node E T now name ip subs grps days ca_key out d w =
     (case validate_node_ip_cidr E ip of
        Inl e \<Rightarrow> (Inl (BadNodeIp e), d, w)
      | Inr _ \<Rightarrow>
          let out = (case out of None \<Rightarrow> name | Some out \<Rightarrow> out)
          in case read_file ca_key d of
               Inl e \<Rightarrow> (Inl e, d, w)
             | Inr s \<Rightarrow>
                 (case toml_parse_ca_key T s of
                    None \<Rightarrow> (Inl BadToml, d, w)
                  | Some ca_sk \<Rightarrow>
                      (case generate_node E name ip subs grps ca_sk days now w of
                         (None, w) \<Rightarrow> (Inl DatePanic, d, w)
                       | (Some (node_cert, node_key), w) \<Rightarrow>
                           (case gen_node_files T out node_cert node_key d of
                              (Inl e, d) \<Rightarrow> (Inl e, d, w)
                            | (Inr _, d) \<Rightarrow>
                                (Inr [NodeCertWritten (out @ ''-cert.toml''), NodeKeyWritten (out @ ''-key.toml'')], d, w)))))"

definition run_verify :: "ext \<Rightarrow> toml \<Rightarrow> string \<Rightarrow> string \<Rightarrow> disk \<Rightarrow> world \<Rightarrow> tool_result" where
  "run_verify E T cert ca_cert d w =
     (case read_file ca_cert d of
        Inl e \<Rightarrow> (Inl e, d, w)
      | Inr ca_str \<Rightarrow>
          (case toml_parse_ca T ca_str of
             None \<Rightarrow> (Inl BadToml, d, w)
           | Some ca \<Rightarrow>
               (case read_file cert d of
                  Inl e \<Rightarrow> (Inl e, d, w)
                | Inr cert_str \<Rightarrow>
                    (case parse_node_cert T cert_str of
                       Inl e \<Rightarrow> (Inl e, d, w)
                     | Inr node_cert \<Rightarrow>
                         let (ok, w) = Cert_verify E node_cert (verify_key ca) w;
                             b = body node_cert
                         in (Inr [if ok then CertificateValid (meta_name (meta b)) (not_after (meta b)) (map_option addr_ip (addresses b))
                                  else CertificateInvalid], d, w)))))"

definition run_show :: "toml \<Rightarrow> string \<Rightarrow> disk \<Rightarrow> world \<Rightarrow> tool_result" where
  "run_show T cert d w =
     (case read_file cert d of
        Inl e \<Rightarrow> (Inl e, d, w)
      | Inr s \<Rightarrow>
          (case parse_node_cert T s of
             Inr node_cert \<Rightarrow> (Inr [NodeDetails node_cert], d, w)
           | Inl _ \<Rightarrow>
               (case toml_parse_ca T s of
                  None \<Rightarrow> (Inl BadToml, d, w)
                | Some ca \<Rightarrow> (Inr [CaDetails ca], d, w))))"

definition run_gen_lighthouse :: "toml \<Rightarrow> string \<Rightarrow> string \<Rightarrow> disk \<Rightarrow> world \<Rightarrow> tool_result" where
  "run_gen_lighthouse T cert address d w =
     (case read_file cert d of
        Inl e \<Rightarrow> (Inl e, d, w)
      | Inr s \<Rightarrow>
          (case parse_node_cert T s of
             Inl e \<Rightarrow> (Inl e, d, w)
           | Inr node_cert \<Rightarrow> (Inr [LighthouseEntry (meta_name (meta (body node_cert))) address], d, w)))"

fun run_command :: "ext \<Rightarrow> toml \<Rightarrow> DateTime \<Rightarrow> Commands \<Rightarrow> disk \<Rightarrow> world \<Rightarrow> tool_result" where
  "run_command E T now (GenCa name years out grps) d w = run_gen_ca E T now name years out grps d w"
| "run_command E T now (GenNode name ip subs grps days ca_key out) d w = run_gen_node E T now name ip subs grps days ca_key out d w"
| "run_command E T now (Verify cert ca_cert) d w = run_verify E T cert ca_cert d w"
| "run_command E T now (Show cert) d w = run_show T cert d w"
| "run_command E T now (GenLighthouse cert address) d w = run_gen_lighthouse T cert address d w"

end
