(* ===== verification/Daemon_Startup.thy ===== *)
theory Daemon_Startup
  imports Daemon_Safety
begin

text \<open>
  When the daemon starts: the conjunction of all checks of \<open>main\<close>, and the state it starts in.
\<close>

section \<open>The checks\<close>

lemma resolve_lighthouses_iff:
  "fst (resolve_lighthouses ls w) \<noteq> None \<longleftrightarrow> (\<forall>i<length ls. dns w i (lc_address (ls ! i)) \<noteq> None)"
proof (induction ls arbitrary: w)
  case (Cons l ls)
  have "dns (snd (instant_now (snd (resolve (lc_address l) w)))) i = dns w (Suc i)" for i
    by (simp add: resolve_def instant_now_def)
  with Cons.IH [of "snd (instant_now (snd (resolve (lc_address l) w)))"] show ?case
    by (auto simp: resolve_socket_addr_def Let_def split_beta All_less_Suc2 resolve_def split: option.splits prod.splits)
qed simp

lemma interface_dns: "dns (snd (bring_up_interface E os cfg cert w)) = dns w"
  by (simp add: bring_up_interface_def log_route_def Let_def split_beta split: option.splits)

lemma verify_dns: "dns (snd (Cert_verify E cert ca w)) = dns w"
  by (simp add: Cert_verify_def unix_now_def Let_def)

definition interface_ok :: "ext \<Rightarrow> os_answers \<Rightarrow> AppConfig \<Rightarrow> Cert \<Rightarrow> bool" where
  "interface_ok E os cfg cert \<longleftrightarrow>
     interface cfg = None
   \<or> os_tun_created os \<and> os_nonblock os
     \<and> (case addresses (body cert) of
          None \<Rightarrow> True
        | Some addrs \<Rightarrow> os_ip_set os \<and> (discovery_route_from_interface_addr E (addr_ip addrs) = Some None \<longrightarrow> cfg_lighthouses cfg = []))"

lemma bring_up_iff: "\<not> isl (fst (bring_up_interface E os cfg cert w)) \<longleftrightarrow> interface_ok E os cfg cert"
  by (auto simp: bring_up_interface_def interface_ok_def Let_def split_beta split: option.splits if_splits)

lemma start_node_checks:
  "(\<exists>n overlay w'. start_node E os cfg ca cert key w = (Inr (n, overlay), w')) \<longleftrightarrow>
      validate cfg = Inr () \<and> fst (Cert_verify E cert (verify_key ca) w)
    \<and> nsk_ed25519_public E (signing_secret_key key) = ed25519_pk (keys (body cert))
    \<and> \<not> isl (network_secret E cfg) \<and> os_privileged os \<and> interface_ok E os cfg cert \<and> os_listen os \<noteq> None
    \<and> (\<forall>i<length (cfg_lighthouses cfg). dns w i (lc_address (cfg_lighthouses cfg ! i)) \<noteq> None) \<and> os_handler_set os"
proof -
  let ?w1 = "snd (Cert_verify E cert (verify_key ca) w)"
  let ?b = "bring_up_interface E os cfg cert ?w1"
  have r: "fst (resolve_lighthouses (cfg_lighthouses cfg) (snd ?b)) \<noteq> None \<longleftrightarrow>
      (\<forall>i<length (cfg_lighthouses cfg). dns w i (lc_address (cfg_lighthouses cfg ! i)) \<noteq> None)"
    unfolding resolve_lighthouses_iff interface_dns verify_dns ..
  have "(\<exists>n overlay w'. start_node E os cfg ca cert key w = (Inr (n, overlay), w')) \<longleftrightarrow>
      validate cfg = Inr () \<and> fst (Cert_verify E cert (verify_key ca) w)
    \<and> nsk_ed25519_public E (signing_secret_key key) = ed25519_pk (keys (body cert))
    \<and> \<not> isl (network_secret E cfg) \<and> os_privileged os \<and> \<not> isl (fst ?b) \<and> os_listen os \<noteq> None
    \<and> fst (resolve_lighthouses (cfg_lighthouses cfg) (snd ?b)) \<noteq> None \<and> os_handler_set os"
    by (cases "validate cfg"; cases "network_secret E cfg"; cases ?b; cases "fst ?b"; cases "os_listen os";
        cases "resolve_lighthouses (cfg_lighthouses cfg) (snd ?b)"; cases "fst (resolve_lighthouses (cfg_lighthouses cfg) (snd ?b))")
      (simp_all add: start_node_def Let_def split_beta)
  then show ?thesis unfolding r bring_up_iff .
qed

section \<open>Properties\<close>

text \<open>C32. The daemon starts exactly when everything is in order: the configuration passes validation, the
  node's certificate was issued by the configured CA and is valid now, the private key belongs to it
  (its Ed25519 half), the network secret can be read, the process is privileged, the TUN interface (if
  one is configured) could be created, given the certificate's address and made nonblocking, that
  address leaves room for lighthouse discovery, the socket could be bound, every lighthouse resolves
  and the signal handler is in place. In every other case it stops with an error.\<close>

theorem start_node_iff:
  "(\<exists>n overlay w'. start_node E os cfg ca cert key w = (Inr (n, overlay), w')) \<longleftrightarrow>
     validate cfg = Inr () \<and> issued E cert (verify_key ca) \<and> in_validity E cert (unix w 0)
   \<and> nsk_ed25519_public E (signing_secret_key key) = ed25519_pk (keys (body cert))
   \<and> \<not> isl (network_secret E cfg) \<and> os_privileged os
   \<and> (interface cfg = None
      \<or> os_tun_created os \<and> os_nonblock os
        \<and> (case addresses (body cert) of
             None \<Rightarrow> True
           | Some addrs \<Rightarrow> os_ip_set os \<and> (discovery_route_from_interface_addr E (addr_ip addrs) = Some None \<longrightarrow> cfg_lighthouses cfg = [])))
   \<and> os_listen os \<noteq> None
   \<and> (\<forall>i<length (cfg_lighthouses cfg). dns w i (lc_address (cfg_lighthouses cfg ! i)) \<noteq> None)
   \<and> os_handler_set os"
  unfolding start_node_checks bring_up_iff interface_ok_def verify_iff_issued by blast

theorem start_node_iff_witness:
  "\<exists>n overlay w'. start_node demo_ext demo_os demo_daemon_config demo_ca_cert demo_cert \<lparr>signing_secret_key = demo_sk\<rparr> demo_world = (Inr (n, overlay), w')"
proof -
  have "validate demo_daemon_config = Inr ()"
    using demo_config_valid by (simp add: validate_iff demo_daemon_config_def demo_config_def)
  moreover have "nsk_ed25519_public demo_ext demo_sk = ed25519_pk (keys (body demo_cert))"
    using demo_identity(2) by (simp add: holds_key_def cert_vk_def hybrid_vk_of_def nsk_ed25519_public_def)
  moreover have "interface demo_daemon_config = None" "cfg_lighthouses demo_daemon_config = []" by (simp_all add: demo_daemon_config_def)
  moreover obtain bs where "network_secret demo_ext demo_daemon_config = Inr bs" using demo_secret by blast
  ultimately show ?thesis
    unfolding start_node_iff by (simp add: demo_ca_cert_def demo_os_def demo_identity demo_validity)
qed

end
