(* ===== verification/CertTool_Daemon.thy ===== *)
theory CertTool_Daemon
  imports CertTool Daemon_Startup
begin

text \<open>
  The certificate tool and the daemon together: which files the tool changes, and that an
  identity the tool issued starts a daemon. \<open>start_from_disk\<close> is \<open>main\<close> of the daemon from the reading
  of its files on.
\<close>

section \<open>Starting from files\<close>

datatype load_error = LoadIo tool_error | LoadStart startup_error

definition read_ca_cert :: "toml \<Rightarrow> string \<Rightarrow> disk \<Rightarrow> tool_error + CaCert" where
  "read_ca_cert T path d =
     (case read_file path d of
        Inl e \<Rightarrow> Inl e
      | Inr s \<Rightarrow> (case toml_parse_ca T s of None \<Rightarrow> Inl BadToml | Some ca \<Rightarrow> Inr ca))"

definition read_node_cert :: "toml \<Rightarrow> string \<Rightarrow> disk \<Rightarrow> tool_error + Cert" where
  "read_node_cert T path d = (case read_file path d of Inl e \<Rightarrow> Inl e | Inr s \<Rightarrow> parse_node_cert T s)"

definition read_node_key :: "toml \<Rightarrow> string \<Rightarrow> disk \<Rightarrow> tool_error + NodeKeyFile" where
  "read_node_key T path d =
     (case read_file path d of
        Inl e \<Rightarrow> Inl e
      | Inr s \<Rightarrow> (case toml_parse_node_key T s of None \<Rightarrow> Inl BadToml | Some k \<Rightarrow> Inr k))"

text \<open>The key file is read only after the certificate has been verified.\<close>

definition start_from_disk ::
  "ext \<Rightarrow> toml \<Rightarrow> os_answers \<Rightarrow> AppConfig \<Rightarrow> disk \<Rightarrow> world \<Rightarrow> (load_error + Node \<times> IpNetwork list) \<times> world" where
  "start_from_disk E T os cfg d w =
     (case validate cfg of
        Inl e \<Rightarrow> (Inl (LoadStart (BadConfig e)), w)
      | Inr _ \<Rightarrow>
          (case read_ca_cert T (ca_cert_path cfg) d of
             Inl e \<Rightarrow> (Inl (LoadIo e), w)
           | Inr ca \<Rightarrow>
               (case read_node_cert T (node_cert_path cfg) d of
                  Inl e \<Rightarrow> (Inl (LoadIo e), w)
                | Inr cert \<Rightarrow>
                    (case read_node_key T (node_key_path cfg) d of
                       Inl e \<Rightarrow>
                         let (ok, w) = Cert_verify E cert (verify_key ca) w
                         in (Inl (if ok then LoadIo e else LoadStart NodeCertInvalid), w)
                     | Inr key \<Rightarrow>
                         (case start_node E os cfg ca cert key w of
                            (Inl e, w) \<Rightarrow> (Inl (LoadStart e), w)
                          | (Inr r, w) \<Rightarrow> (Inr r, w))))))"

section \<open>What the commands write\<close>

text \<open>Both generators write a certificate, then a key.\<close>

lemma cert_then_key:
  assumes "r = (case p1 of None \<Rightarrow> (Inl TomlPrint, d) | Some s1 \<Rightarrow>
      (case write_file path1 s1 d of (Inl e, d) \<Rightarrow> (Inl e, d) | (Inr _, d) \<Rightarrow>
        (case p2 of None \<Rightarrow> (Inl TomlPrint, d) | Some s2 \<Rightarrow> write_private_file path2 s2 d)))"
    and "path1 \<noteq> path2"
  shows "files (snd r) path \<noteq> files d path \<Longrightarrow>
      path = path1 \<or> path = path2 \<and> files d path2 = None \<and> map_option private_mode (files (snd r) path2) = Some (unix_modes d)"
    and "\<not> isl (fst r) \<Longrightarrow> \<exists>s1 s2. p1 = Some s1 \<and> p2 = Some s2 \<and> files d path2 = None
      \<and> map_option contents (files (snd r) path1) = Some s1 \<and> map_option contents (files (snd r) path2) = Some s2
      \<and> (\<forall>path. path \<noteq> path1 \<longrightarrow> path \<noteq> path2 \<longrightarrow> files (snd r) path = files d path)"
  using assms
  by (auto simp: write_file_def write_private_file_def Let_def split: option.splits if_splits)

lemmas gen_ca_writes = cert_then_key [OF gen_ca_files_def]
lemmas gen_node_writes = cert_then_key [OF gen_node_files_def]


definition cert_path_of :: "Commands \<Rightarrow> string option" where
  "cert_path_of c =
     (case c of
        GenCa _ _ out _ \<Rightarrow> Some (out @ ''.toml'')
      | GenNode name _ _ _ _ _ out \<Rightarrow> Some ((case out of None \<Rightarrow> name | Some out \<Rightarrow> out) @ ''-cert.toml'')
      | _ \<Rightarrow> None)"

definition key_path_of :: "Commands \<Rightarrow> string option" where
  "key_path_of c =
     (case c of
        GenCa _ _ out _ \<Rightarrow> Some (out @ ''-key.toml'')
      | GenNode name _ _ _ _ _ out \<Rightarrow> Some ((case out of None \<Rightarrow> name | Some out \<Rightarrow> out) @ ''-key.toml'')
      | _ \<Rightarrow> None)"

lemma paths_differ: "out @ ''.toml'' \<noteq> out @ ''-key.toml''" "out @ ''-cert.toml'' \<noteq> out' @ ''-key.toml''"
proof -
  show "out @ ''.toml'' \<noteq> out @ ''-key.toml''" by simp
  have "rev (out @ ''-cert.toml'') ! 5 \<noteq> rev (out' @ ''-key.toml'') ! 5" by simp
  then show "out @ ''-cert.toml'' \<noteq> out' @ ''-key.toml''" by metis
qed

lemma run_gen_ca_ok:
  assumes "run_gen_ca E T now name years out grps d w = (Inr msgs, d', w')"
  obtains full w1 secret where "generate_ca E name years grps now w = (Some full, w1)"
    "\<not> isl (fst (gen_ca_files T out full d))" "d' = snd (gen_ca_files T out full d)"
    "msgs = [CaCertWritten (out @ ''.toml''), CaKeyWritten (out @ ''-key.toml''), NetworkSecret secret]"
    "generate_network_secret E w1 = (secret, w')"
  using assms by (auto simp: run_gen_ca_def split: prod.splits option.splits sum.splits)

lemma run_gen_node_ok:
  assumes "run_gen_node E T now name ip subs grps days ca_key out d w = (Inr msgs, d', w')"
  obtains s ca_sk cert key where "validate_node_ip_cidr E ip = Inr ()" "read_file ca_key d = Inr s" "toml_parse_ca_key T s = Some ca_sk"
    "generate_node E name ip subs grps ca_sk days now w = (Some (cert, key), w')"
    "\<not> isl (fst (gen_node_files T (case out of None \<Rightarrow> name | Some out \<Rightarrow> out) cert key d))"
    "d' = snd (gen_node_files T (case out of None \<Rightarrow> name | Some out \<Rightarrow> out) cert key d)"
  using assms by (auto simp: run_gen_node_def Let_def split: prod.splits option.splits sum.splits)

lemma generate_ca_key:
  assumes "generate_ca E name years grps now w = (Some full, w')"
  shows "verify_key (full_cert full) = cavk_of E (full_signing_key full)"
  using assms by (auto simp: generate_ca_def sig_generate_hybrid_keypair_def cavk_of_def Let_def split_beta split: option.splits)

lemma generate_node_cert:
  assumes "generate_node E name ip subs grps ca_sk days now w = (Some (cert, key), w')"
  obtains b until where "cert = Cert_sign E b ca_sk" "body cert = b" "chrono_add_days E now days = Some until"
    "meta b = \<lparr>meta_name = name, is_ca = False, not_before = now, not_after = until, groups = grps\<rparr>"
    "addresses b = Some \<lparr>addr_ip = ip, subnets = subs\<rparr>"
    "nsk_ed25519_public E (signing_secret_key key) = ed25519_pk (keys b)"
proof -
  have sign: "body (Cert_sign E b sk) = b" for b sk by (simp add: Cert_sign_def Let_def)
  obtain until where u: "chrono_add_days E now days = Some until"
    using assms by (auto simp: generate_node_def Let_def split_beta split: option.splits)
  show ?thesis
    by (rule that [of "body cert" until])
      (use assms u in \<open>auto simp: generate_node_def sig_generate_hybrid_keypair_def nsk_ed25519_public_def Let_def split_beta sign\<close>)
qed

lemma command_writes:
  assumes "run_command E T now c d w = (r, d', w')" and "files d' path \<noteq> files d path"
  shows "cert_path_of c = Some path
    \<or> key_path_of c = Some path \<and> files d path = None \<and> map_option private_mode (files d' path) = Some (unix_modes d)"
proof (cases c)
  case (GenCa name years out grps)
  with assms obtain full q where g: "gen_ca_files T out full d = (q, d')"
    by (auto simp: run_gen_ca_def split: prod.splits option.splits sum.splits)
  show ?thesis
    using gen_ca_writes(1) [OF paths_differ(1), of T out full d path] assms(2) GenCa g
    by (auto simp: cert_path_of_def key_path_of_def)
next
  case (GenNode name ip subs grps days ca_key out)
  let ?out = "case out of None \<Rightarrow> name | Some out \<Rightarrow> out"
  from GenNode assms obtain cert key q where g: "gen_node_files T ?out cert key d = (q, d')"
    by (auto simp: run_gen_node_def Let_def split: prod.splits option.splits sum.splits)
  show ?thesis
    using gen_node_writes(1) [OF paths_differ(2), of T ?out cert key d path] assms(2) GenNode g
    by (auto simp: cert_path_of_def key_path_of_def)
qed (use assms in \<open>auto simp: run_verify_def run_show_def run_gen_lighthouse_def Let_def split_beta split: sum.splits option.splits\<close>)

text \<open>Which certificate has the path of a key.\<close>

lemma cert_path_key: "cert_path_of c = Some (x @ ''-key.toml'') \<Longrightarrow> \<exists>name years grps. c = GenCa name years (x @ ''-key'') grps"
proof (cases c)
  case (GenCa name years out grps)
  assume "cert_path_of c = Some (x @ ''-key.toml'')"
  with GenCa have "out @ ''.toml'' = (x @ ''-key'') @ ''.toml''" by (simp add: cert_path_of_def)
  then have "out = x @ ''-key''" by (simp only: append_same_eq)
  with GenCa show ?thesis by blast
qed (auto simp: cert_path_of_def dest: paths_differ(2) [THEN notE])

lemma gen_ca_over_key:
  assumes "files d (x @ ''-key.toml'') = Some f" and "toml_ca T (full_cert full) = Some s"
    and "can_write d (x @ ''-key.toml'')" "write_stops d (x @ ''-key.toml'') = None"
  shows "files (snd (gen_ca_files T (x @ ''-key'') full d)) (x @ ''-key.toml'') = Some (f\<lparr>contents := s\<rparr>)"
  using assms by (auto simp: gen_ca_files_def write_file_def write_private_file_def Let_def split: option.splits)

text \<open>A key file is there already, yet the certificate beside it is replaced before the command fails.\<close>

lemma gen_ca_replaces_certificate:
  assumes "generate_ca E name years grps now w = (Some full, w1)" and "toml_ca T (full_cert full) = Some s"
    and "toml_ca_key T (full_signing_key full) = Some k"
    and "files d (out @ ''-key.toml'') = Some f" and "can_write d (out @ ''.toml'')" and "write_stops d (out @ ''.toml'') = None"
  shows "\<exists>d'. run_command E T now (GenCa name years out grps) d w = (Inl (CannotWrite (out @ ''-key.toml'')), d', w1)
    \<and> map_option contents (files d' (out @ ''.toml'')) = Some s \<and> files d' (out @ ''-key.toml'') = Some f"
  using assms by (simp add: run_gen_ca_def gen_ca_files_def write_file_def write_private_file_def Let_def)

section \<open>A concrete run\<close>

text \<open>An instance of the file formats that knows the four values of one run, on an empty disk.\<close>

definition demo_full_ca :: FullCaCert where
  "demo_full_ca = \<lparr>full_cert = \<lparr>ca_meta = \<lparr>meta_name = ''ca'', is_ca = True, not_before = 0, not_after = 86400 * 3650, groups = []\<rparr>,
       verify_key = \<lparr>cavk_ed25519 = ed25519_public demo_ext (replicate 32 7), cavk_ml_dsa = mldsa_public demo_ext (replicate 32 7)\<rparr>\<rparr>,
     full_signing_key = \<lparr>cask_ed25519 = replicate 32 7, cask_ml_dsa_seed = replicate 32 7\<rparr>\<rparr>"

definition demo_issued :: "Cert \<times> NodeKeyFile" where
  "demo_issued = the (fst (generate_node demo_ext ''n'' ''10.0.0.2/24'' [] [] (full_signing_key demo_full_ca) 365 0 demo_world))"

definition demo_toml :: toml where
  "demo_toml =
     \<lparr>toml_ca = (\<lambda>c. if c = full_cert demo_full_ca then Some ''a'' else None), toml_parse_ca = (\<lambda>_. Some (full_cert demo_full_ca)),
      toml_cert = (\<lambda>c. if c = fst demo_issued then Some ''c'' else None), toml_parse_cert = (\<lambda>_. Some (fst demo_issued)),
      toml_ca_key = (\<lambda>k. if k = full_signing_key demo_full_ca then Some ''k'' else None),
      toml_parse_ca_key = (\<lambda>_. Some (full_signing_key demo_full_ca)),
      toml_node_key = (\<lambda>k. if k = snd demo_issued then Some ''n'' else None), toml_parse_node_key = (\<lambda>_. Some (snd demo_issued))\<rparr>"

definition demo_disk :: disk where
  "demo_disk = \<lparr>files = Map.empty, can_write = (\<lambda>_. True), write_stops = (\<lambda>_. None), syncs = (\<lambda>_. True), unix_modes = True\<rparr>"

definition demo_messages :: "message list" where
  "demo_messages = [CaCertWritten ''ca.toml'', CaKeyWritten ''ca-key.toml'', NetworkSecret (hex_encode demo_ext (replicate 32 7))]"

lemma demo_toml_prints:
  "toml_cert demo_toml (fst demo_issued) = Some ''c''" "toml_node_key demo_toml (snd demo_issued) = Some ''n''"
  "toml_parse_ca_key demo_toml s = Some (full_signing_key demo_full_ca)"
  by (simp_all add: demo_toml_def)

lemma demo_toml_ok: "toml_ok demo_toml"
  by (simp add: toml_ok_def demo_toml_def)

lemma demo_fill: "fill_bytes n demo_world = (replicate n 7, demo_world)"
  by (simp add: fill_bytes_def demo_world_def map_replicate_const)

lemma demo_generate_ca: "generate_ca demo_ext ''ca'' 10 [] 0 demo_world = (Some demo_full_ca, demo_world)"
proof -
  have "wrap_i64 3650 = 3650" by (simp add: wrap_i64_def)
  then show ?thesis
    by (simp add: generate_ca_def sig_generate_hybrid_keypair_def demo_fill demo_full_ca_def Let_def) (simp add: demo_ext_def)
qed

lemma demo_generate_node:
  "generate_node demo_ext ''n'' ''10.0.0.2/24'' [] [] (full_signing_key demo_full_ca) 365 0 demo_world = (Some demo_issued, demo_world)"
proof -
  have "chrono_add_days demo_ext 0 365 = Some 31536000" by (simp add: demo_ext_def)
  then show ?thesis by (simp add: demo_issued_def generate_node_def sig_generate_hybrid_keypair_def demo_fill Let_def)
qed

lemma demo_gen_ca:
  "\<exists>d. run_command demo_ext demo_toml 0 (GenCa ''ca'' 10 ''ca'' []) demo_disk demo_world = (Inr demo_messages, d, demo_world)
    \<and> files d ''ca-key.toml'' = Some \<lparr>contents = ''k'', private_mode = True\<rparr> \<and> files d ''n-key.toml'' = None
    \<and> can_write d = (\<lambda>_. True) \<and> write_stops d = (\<lambda>_. None) \<and> syncs d = (\<lambda>_. True)"
  by (simp add: run_gen_ca_def demo_generate_ca gen_ca_files_def demo_toml_def write_file_def write_private_file_def demo_disk_def
      generate_network_secret_def demo_fill demo_messages_def Let_def)

lemma demo_hex: "hex_decode demo_ext (hex_encode demo_ext bs) = Some bs"
proof -
  have d: "to_digit 16 (digit_char k) = Some k" if "k < 16" for k using to_digit_digit_char [of k 16] that by simp
  have "unat b < 256" for b :: u8 using unsigned_less [of b, where ?'a = nat] by simp
  then have "unat b div 16 < 16" "unat b mod 16 < 16" for b :: u8 by (simp_all add: less_mult_imp_div_less)
  moreover have "16 * word_of_nat (unat b div 16) + word_of_nat (unat b mod 16) = b" for b :: u8
  proof -
    have "word_of_nat (16 * (unat b div 16) + unat b mod 16) = b" by (simp only: mult_div_mod_eq) simp
    then show ?thesis by (simp only: of_nat_add of_nat_mult of_nat_numeral)
  qed
  ultimately show ?thesis
    by (induction bs) (simp_all add: demo_ext_def d mult.commute [of _ 16])
qed

section \<open>Properties\<close>

text \<open>C36. Which files the certificate tool touches. Whatever command is run and however it ends, the only files
  it changes are the certificate it generates and its key; the key file is only ever created, with mode 0600
  on Unix, though it may be left incomplete when the command fails. An existing key is safe from every
  command but one: \<open>gen-ca\<close> whose output name is the key's own without \<open>.toml\<close> writes its certificate over
  the key, and succeeds in losing it whenever the certificate can be printed and written. Files are told apart
  by their paths as the tool forms them, so each file is taken to be reached by one path only.\<close>

theorem tool_changes_files:
  assumes "run_command E T now c d w = (r, d', w')"
  shows "(files d' path \<noteq> files d path \<longrightarrow> cert_path_of c = Some path
      \<or> key_path_of c = Some path \<and> files d path = None \<and> map_option private_mode (files d' path) = Some (unix_modes d))
    \<and> (files d (x @ ''-key.toml'') = Some f \<and> files d' (x @ ''-key.toml'') \<noteq> Some f \<longrightarrow>
        (\<exists>name years grps. c = GenCa name years (x @ ''-key'') grps))
    \<and> (files d (x @ ''-key.toml'') = Some f \<and> c = GenCa name years (x @ ''-key'') grps
        \<and> generate_ca E name years grps now w = (Some full, w1) \<and> toml_ca T (full_cert full) = Some s
        \<and> can_write d (x @ ''-key.toml'') \<and> write_stops d (x @ ''-key.toml'') = None \<longrightarrow>
        files d' (x @ ''-key.toml'') = Some (f\<lparr>contents := s\<rparr>))"
proof (intro conjI impI)
  have change: "cert_path_of c = Some q
      \<or> key_path_of c = Some q \<and> files d q = None \<and> map_option private_mode (files d' q) = Some (unix_modes d)"
    if "files d' q \<noteq> files d q" for q
    by (rule command_writes [OF assms that])
  then show "cert_path_of c = Some path
      \<or> key_path_of c = Some path \<and> files d path = None \<and> map_option private_mode (files d' path) = Some (unix_modes d)"
    if "files d' path \<noteq> files d path" using that by blast
  show "\<exists>name years grps. c = GenCa name years (x @ ''-key'') grps"
    if "files d (x @ ''-key.toml'') = Some f \<and> files d' (x @ ''-key.toml'') \<noteq> Some f"
    using change [of "x @ ''-key.toml''"] that cert_path_key [of c x] by auto
  show "files d' (x @ ''-key.toml'') = Some (f\<lparr>contents := s\<rparr>)"
    if "files d (x @ ''-key.toml'') = Some f \<and> c = GenCa name years (x @ ''-key'') grps
        \<and> generate_ca E name years grps now w = (Some full, w1) \<and> toml_ca T (full_cert full) = Some s
        \<and> can_write d (x @ ''-key.toml'') \<and> write_stops d (x @ ''-key.toml'') = None"
    using that gen_ca_over_key [of d x f T full s] assms
    by (auto simp: run_gen_ca_def split: prod.splits sum.splits)
qed

text \<open>A second \<open>gen-ca\<close>, run for the output name \<open>ca-key\<close>, writes the certificate over the key of the first.\<close>

theorem tool_changes_files_witness:
  "\<exists>d r d' w'. run_command demo_ext demo_toml 0 (GenCa ''ca'' 10 ''ca'' []) demo_disk demo_world = (Inr demo_messages, d, demo_world)
    \<and> files d ''ca-key.toml'' = Some \<lparr>contents = ''k'', private_mode = True\<rparr>
    \<and> run_command demo_ext demo_toml 0 (GenCa ''ca'' 10 ''ca-key'' []) d demo_world = (r, d', w')
    \<and> files d' ''ca-key.toml'' = Some \<lparr>contents = ''a'', private_mode = True\<rparr>"
proof -
  obtain d where ca: "run_command demo_ext demo_toml 0 (GenCa ''ca'' 10 ''ca'' []) demo_disk demo_world = (Inr demo_messages, d, demo_world)"
    and d: "files d ''ca-key.toml'' = Some \<lparr>contents = ''k'', private_mode = True\<rparr>" "can_write d = (\<lambda>_. True)" "write_stops d = (\<lambda>_. None)"
    using demo_gen_ca by blast
  obtain r d' w' where run: "run_command demo_ext demo_toml 0 (GenCa ''ca'' 10 ''ca-key'' []) d demo_world = (r, d', w')" by (metis prod_cases3)
  have "toml_ca demo_toml (full_cert demo_full_ca) = Some ''a''" by (simp add: demo_toml_def)
  with tool_changes_files [OF run, of "''ca-key.toml''" "''ca''" "\<lparr>contents = ''k'', private_mode = True\<rparr>" "''ca''" 10 "[]" demo_full_ca demo_world "''a''"]
    d demo_generate_ca have "files d' ''ca-key.toml'' = Some \<lparr>contents = ''a'', private_mode = True\<rparr>" by simp
  with ca d(1) run show ?thesis by blast
qed

text \<open>C35. Following the tool's instructions gives a daemon that starts. Generate a CA, then a node
  certificate with its key file; put the paths and the printed network secret into a valid
  configuration; then, at any time within the validity asked for, \<open>verify\<close> reports the certificate as
  valid with its name, end and address, and the daemon reads the four values back and starts, provided
  the operating system grants what it asks for and the lighthouses resolve.\<close>

theorem issued_identity_starts:
  assumes laws: "signatures_correct E" "ipnetwork_ok E" "toml_ok T" "\<forall>bs. hex_decode E (hex_encode E bs) = Some bs"
    and ca: "run_command E T now1 (GenCa cname years out cgrps) d0 w0 = (Inr msgs1, d1, w1)"
    and node: "run_command E T now2 (GenNode name ip subs grps days (out @ ''-key.toml'') (Some nout)) d1 w2 = (Inr msgs2, d2, w3)"
    and "out \<noteq> nout @ ''-cert''"
    and cfg: "validate cfg = Inr ()" "ca_cert_path cfg = out @ ''.toml''" "node_cert_path cfg = nout @ ''-cert.toml''"
      "node_key_path cfg = nout @ ''-key.toml''" "NetworkSecret (cfg_network_secret cfg) \<in> set msgs1"
    and time: "chrono_add_days E now2 days = Some until" "chrono_timestamp E now2 \<le> sint (unix w 0)" "sint (unix w 0) \<le> chrono_timestamp E until"
    and os: "os_privileged os" "os_tun_created os" "os_ip_set os" "os_nonblock os" "os_handler_set os" "os_listen os = Some listen"
    and dns: "\<forall>i<length (cfg_lighthouses cfg). dns w i (lc_address (cfg_lighthouses cfg ! i)) \<noteq> None"
  shows "fst (run_command E T now3 (Verify (nout @ ''-cert.toml'') (out @ ''.toml'')) d2 w) = Inr [CertificateValid name until (Some ip)]
    \<and> (\<exists>n overlay w'. start_from_disk E T os cfg d2 w = (Inr (n, overlay), w'))"
proof -
  from ca obtain full wx secret where f: "generate_ca E cname years cgrps now1 w0 = (Some full, wx)"
      "\<not> isl (fst (gen_ca_files T out full d0))" "d1 = snd (gen_ca_files T out full d0)"
    and sec: "msgs1 = [CaCertWritten (out @ ''.toml''), CaKeyWritten (out @ ''-key.toml''), NetworkSecret secret]"
      "generate_network_secret E wx = (secret, w1)"
    by (auto elim: run_gen_ca_ok)
  from gen_ca_writes(2) [OF paths_differ(1) f(2)] obtain s1 s2 where
    c: "toml_ca T (full_cert full) = Some s1" "toml_ca_key T (full_signing_key full) = Some s2"
    "map_option contents (files d1 (out @ ''.toml'')) = Some s1" "map_option contents (files d1 (out @ ''-key.toml'')) = Some s2"
    unfolding f(3) by blast
  from node obtain s ca_sk cert key where ip: "validate_node_ip_cidr E ip = Inr ()"
    and s: "read_file (out @ ''-key.toml'') d1 = Inr s" "toml_parse_ca_key T s = Some ca_sk"
    and g: "generate_node E name ip subs grps ca_sk days now2 w2 = (Some (cert, key), w3)"
      "\<not> isl (fst (gen_node_files T nout cert key d1))" "d2 = snd (gen_node_files T nout cert key d1)"
    by (auto elim: run_gen_node_ok)
  from gen_node_writes(2) [OF paths_differ(2) g(2)] obtain t1 t2 where
    n: "toml_cert T cert = Some t1" "toml_node_key T key = Some t2" "files d1 (nout @ ''-key.toml'') = None"
    "map_option contents (files d2 (nout @ ''-cert.toml'')) = Some t1" "map_option contents (files d2 (nout @ ''-key.toml'')) = Some t2"
    and other: "\<forall>path. path \<noteq> nout @ ''-cert.toml'' \<longrightarrow> path \<noteq> nout @ ''-key.toml'' \<longrightarrow> files d2 path = files d1 path"
    unfolding g(3) by blast
  have "s = s2" using s(1) c(4) by (auto simp: read_file_def split: option.splits)
  then have sk: "ca_sk = full_signing_key full" using laws(3) c(2) s(2) by (auto simp: toml_ok_def)
  obtain b until' where b: "cert = Cert_sign E b ca_sk" "body cert = b" "chrono_add_days E now2 days = Some until'"
    "meta b = \<lparr>meta_name = name, is_ca = False, not_before = now2, not_after = until', groups = grps\<rparr>"
    "addresses b = Some \<lparr>addr_ip = ip, subnets = subs\<rparr>" "nsk_ed25519_public E (signing_secret_key key) = ed25519_pk (keys b)"
    by (rule generate_node_cert [OF g(1)])
  have ok: "fst (Cert_verify E cert (verify_key (full_cert full)) w)"
    unfolding b(1) generate_ca_key [OF f(1)] sk [symmetric]
    by (rule Cert_verify_sign [OF laws(1)]) (use b time in \<open>simp_all add: in_validity_def\<close>)
  have "out \<noteq> nout @ ''-key''" using c(3) n(3) by auto
  then have "files d2 (out @ ''.toml'') = files d1 (out @ ''.toml'')"
    using other [rule_format, of "out @ ''.toml''"] assms(7) by simp
  then have rf: "read_file (out @ ''.toml'') d2 = Inr s1" "read_file (nout @ ''-cert.toml'') d2 = Inr t1" "read_file (nout @ ''-key.toml'') d2 = Inr t2"
    using c(3) n(4,5) by (auto simp: read_file_def split: option.splits)
  have parse: "toml_parse_ca T s1 = Some (full_cert full)" "parse_node_cert T t1 = Inr cert" "toml_parse_node_key T t2 = Some key"
    using c(1) n(1,2) laws(3) by (auto simp: parse_node_cert_def toml_ok_def)
  have "interface_ok E os cfg cert"
    using validated_address_discovers [OF laws(2) ip] os b(2,5) by (auto simp: interface_ok_def)
  moreover have "cfg_network_secret cfg = hex_encode E (fst (fill_bytes 32 wx))"
    using cfg(5) sec by (auto simp: generate_network_secret_def Let_def split_beta)
  then have "\<not> isl (network_secret E cfg)" using laws(4) by (simp add: network_secret_def)
  ultimately have "\<exists>n overlay w'. start_node E os cfg (full_cert full) cert key w = (Inr (n, overlay), w')"
    unfolding start_node_checks using ok cfg os dns b(2,6) by simp
  then have "\<exists>n overlay w'. start_from_disk E T os cfg d2 w = (Inr (n, overlay), w')"
    using cfg rf parse by (auto simp: start_from_disk_def read_ca_cert_def read_node_cert_def read_node_key_def)
  moreover have "until' = until" using b(3) time(1) by simp
  then have "fst (run_verify E T (nout @ ''-cert.toml'') (out @ ''.toml'') d2 w) = Inr [CertificateValid name until (Some ip)]"
    using rf parse ok b(2,4,5) by (simp add: run_verify_def Let_def split_beta)
  ultimately show ?thesis by simp
qed


theorem issued_identity_starts_witness:
  "\<exists>d1 d2 n overlay w'. run_command demo_ext demo_toml 0 (GenCa ''ca'' 10 ''ca'' []) demo_disk demo_world = (Inr demo_messages, d1, demo_world)
    \<and> start_from_disk demo_ext demo_toml demo_os (demo_daemon_config\<lparr>ca_cert_path := ''ca.toml'', node_cert_path := ''n-cert.toml'',
        node_key_path := ''n-key.toml'', cfg_network_secret := hex_encode demo_ext (replicate 32 7)\<rparr>) d2 demo_world = (Inr (n, overlay), w')"
proof -
  let ?cfg = "demo_daemon_config\<lparr>ca_cert_path := ''ca.toml'', node_cert_path := ''n-cert.toml'', node_key_path := ''n-key.toml'',
    cfg_network_secret := hex_encode demo_ext (replicate 32 7)\<rparr>"
  obtain d1 where ca: "run_command demo_ext demo_toml 0 (GenCa ''ca'' 10 ''ca'' []) demo_disk demo_world = (Inr demo_messages, d1, demo_world)"
    and d1: "files d1 ''ca-key.toml'' = Some \<lparr>contents = ''k'', private_mode = True\<rparr>" "files d1 ''n-key.toml'' = None" "can_write d1 = (\<lambda>_. True)"
      "write_stops d1 = (\<lambda>_. None)" "syncs d1 = (\<lambda>_. True)"
    using demo_gen_ca by blast
  have v: "validate_node_ip_cidr demo_ext ''10.0.0.2/24'' = Inr ()" by (simp add: validate_node_ip_cidr_def demo_net_parse_host)
  obtain msgs2 d2 where node: "run_command demo_ext demo_toml 0 (GenNode ''n'' ''10.0.0.2/24'' [] [] 365 (''ca'' @ ''-key.toml'') (Some ''n'')) d1 demo_world
      = (Inr msgs2, d2, demo_world)"
    using d1 by (simp add: run_gen_node_def v read_file_def demo_generate_node demo_toml_prints gen_node_files_def write_file_def write_private_file_def Let_def split_beta)
  have cfg: "validate ?cfg = Inr ()" "ca_cert_path ?cfg = ''ca'' @ ''.toml''" "node_cert_path ?cfg = ''n'' @ ''-cert.toml''"
    "node_key_path ?cfg = ''n'' @ ''-key.toml''" "NetworkSecret (cfg_network_secret ?cfg) \<in> set demo_messages" "cfg_lighthouses ?cfg = []"
    using demo_config_valid by (simp_all add: validate_iff demo_daemon_config_def demo_config_def demo_messages_def)
  have t: "chrono_add_days demo_ext 0 365 = Some 31536000" "chrono_timestamp demo_ext 0 \<le> sint (unix demo_world 0)"
    "sint (unix demo_world 0) \<le> chrono_timestamp demo_ext 31536000" by (simp_all add: demo_ext_def demo_world_def)
  have os: "os_privileged demo_os" "os_tun_created demo_os" "os_ip_set demo_os" "os_nonblock demo_os" "os_handler_set demo_os" "os_listen demo_os = Some default_listen"
    by (simp_all add: demo_os_def)
  have dns: "\<forall>i<length (cfg_lighthouses ?cfg). dns demo_world i (lc_address (cfg_lighthouses ?cfg ! i)) \<noteq> None" unfolding cfg(6) by simp
  have hex: "\<forall>bs. hex_decode demo_ext (hex_encode demo_ext bs) = Some bs" using demo_hex by blast
  have "''ca'' \<noteq> ''n'' @ ''-cert''" by simp
  from issued_identity_starts [OF demo_signatures demo_ipnetwork demo_toml_ok hex ca node this cfg(1-5) t os dns] ca show ?thesis by blast
qed

end
