(* ===== verification/Platform.thy ===== *)
theory Platform
  imports CertRoutes
begin

text \<open>
  The crate \<open>liteway-net\<close>: what it asks of the operating system to set an interface address and to add
  and delete routes, on Linux, Windows and macOS, the check of privileges, and the choice between
  the systems that \<open>lib.rs\<close> makes at compile time. The kernel is a parameter:
  a record of the answers it gives. An operation returns its result and the requests it made, in order.
\<close>

unbundle bit_operations_syntax

section \<open>Linux\<close>

datatype AddressFamily = FamilyUnspec | Inet | Inet6
datatype RouteProtocol = ProtocolUnspec | Static
datatype RouteScope = Universe
datatype RouteType = TypeUnspec | Unicast
datatype RouteAttribute = Destination IpAddr | Oif u32

definition RT_TABLE_MAIN :: u8 where "RT_TABLE_MAIN = 254"

record RouteMessage =
  rm_table :: u8
  rm_protocol :: RouteProtocol
  rm_scope :: RouteScope
  rm_kind :: RouteType
  rm_address_family :: AddressFamily
  rm_destination_prefix_length :: u8
  rm_attributes :: "RouteAttribute list"

datatype nl_request =
    LinkUp u32
  | AddressAdd u32 IpAddr u8
  | RouteAddReq IpAddr u8 u32
  | RouteDelReq RouteMessage

text \<open>What the kernel and the netlink crates answer: whether a runtime and a connection can be had, the
  link of a name (an error, or an index if there is one), and the error text of a refused request.\<close>

record netlink =
  nl_runtime :: bool
  nl_connection :: bool
  nl_link :: "string \<Rightarrow> unit + u32 option"
  nl_refuses :: "nl_request \<Rightarrow> string option"

type_synonym nl_result = "(io_error + unit) \<times> nl_request list"

definition get_iface_index :: "netlink \<Rightarrow> string \<Rightarrow> io_error + u32" where
  "get_iface_index K name =
     (case nl_link K name of
        Inl _ \<Rightarrow> Inl Other
      | Inr None \<Rightarrow> Inl NotFound
      | Inr (Some index) \<Rightarrow> Inr index)"

text \<open>\<open>with_rtnetlink\<close> around a connection and the index of the interface.\<close>

definition with_rtnetlink :: "netlink \<Rightarrow> string \<Rightarrow> (u32 \<Rightarrow> nl_result) \<Rightarrow> nl_result" where
  "with_rtnetlink K iface f =
     (if \<not> nl_runtime K then (Inl Other, [])
      else if \<not> nl_connection K then (Inl Other, [])
      else case get_iface_index K iface of Inl e \<Rightarrow> (Inl e, []) | Inr index \<Rightarrow> f index)"

definition linux_set_interface_ip :: "ext \<Rightarrow> netlink \<Rightarrow> string \<Rightarrow> string \<Rightarrow> nl_result" where
  "linux_set_interface_ip E K name addr =
     (case parse_addr E addr of
        Inl e \<Rightarrow> (Inl e, [])
      | Inr (ip, prefix_len) \<Rightarrow>
          with_rtnetlink K name (\<lambda>index.
            case nl_refuses K (LinkUp index) of
              Some _ \<Rightarrow> (Inl Other, [LinkUp index])
            | None \<Rightarrow>
                (case nl_refuses K (AddressAdd index ip prefix_len) of
                   Some _ \<Rightarrow> Inl Other
                 | None \<Rightarrow> Inr (), [LinkUp index, AddressAdd index ip prefix_len])))"

definition build_route_message :: "ext \<Rightarrow> string \<Rightarrow> u32 \<Rightarrow> io_error + RouteMessage" where
  "build_route_message E subnet index =
     (case linux_parse_subnet E subnet of
        Inl e \<Rightarrow> Inl e
      | Inr (ip, prefix_len) \<Rightarrow>
          Inr \<lparr>rm_table = RT_TABLE_MAIN, rm_protocol = Static, rm_scope = Universe, rm_kind = Unicast,
               rm_address_family = (case ip of V4 _ \<Rightarrow> Inet | V6 _ \<Rightarrow> Inet6),
               rm_destination_prefix_length = prefix_len, rm_attributes = [Destination ip, Oif index]\<rparr>)"

fun str_contains :: "string \<Rightarrow> string \<Rightarrow> bool" where
  "str_contains [] pat = (pat = [])"
| "str_contains (c # cs) pat = (take (length pat) (c # cs) = pat \<or> str_contains cs pat)"

definition linux_add_route :: "ext \<Rightarrow> netlink \<Rightarrow> string \<Rightarrow> string \<Rightarrow> nl_result" where
  "linux_add_route E K subnet iface =
     (case linux_parse_subnet E subnet of
        Inl e \<Rightarrow> (Inl e, [])
      | Inr (ip, prefix_len) \<Rightarrow>
          with_rtnetlink K iface (\<lambda>index.
            (case nl_refuses K (RouteAddReq ip prefix_len index) of
               None \<Rightarrow> Inr ()
             | Some msg \<Rightarrow> if str_contains msg ''File exists'' \<or> str_contains msg ''os error 17'' then Inr () else Inl Other,
             [RouteAddReq ip prefix_len index])))"

definition linux_del_route :: "ext \<Rightarrow> netlink \<Rightarrow> string \<Rightarrow> string \<Rightarrow> nl_result" where
  "linux_del_route E K subnet iface =
     with_rtnetlink K iface (\<lambda>index.
       case build_route_message E subnet index of
         Inl e \<Rightarrow> (Inl e, [])
       | Inr msg \<Rightarrow> (case nl_refuses K (RouteDelReq msg) of None \<Rightarrow> Inr () | Some _ \<Rightarrow> Inl Other, [RouteDelReq msg]))"

section \<open>Privileges\<close>

text \<open>\<open>u64::from_str_radix(s, 16)\<close>: an optional plus sign, at least one digit, no overflow.\<close>

definition u64_from_hex :: "string \<Rightarrow> u64 option" where
  "u64_from_hex s =
     (let ds = (case s of CHR ''+'' # r \<Rightarrow> r | _ \<Rightarrow> s)
      in if ds = [] \<or> list_ex (\<lambda>c. to_digit 16 c = None) ds then None
         else let v = fold (\<lambda>c v. v * 16 + the (to_digit 16 c)) ds 0
              in if v < 2 ^ 64 then Some (word_of_nat v) else None)"

definition is_space :: "char \<Rightarrow> bool" where
  "is_space c \<longleftrightarrow> c \<in> {CHR '' '', CHR 0x09, CHR 0x0A, CHR 0x0B, CHR 0x0C, CHR 0x0D}"

definition trim_str :: "string \<Rightarrow> string" where
  "trim_str s = rev (dropWhile is_space (rev (dropWhile is_space s)))"

text \<open>\<open>str::lines\<close>: split at line feeds, without a carriage return before one.\<close>

fun split_lines :: "string \<Rightarrow> string \<Rightarrow> string list" where
  "split_lines acc [] = (if acc = [] then [] else [acc])"
| "split_lines acc (c # cs) =
     (if c = CHR 0x0A then (if acc \<noteq> [] \<and> last acc = CHR 0x0D then butlast acc else acc) # split_lines [] cs
      else split_lines (acc @ [c]) cs)"

definition cap_line :: "string \<Rightarrow> u64 option" where
  "cap_line l =
     (if take 8 l = ''CapEff:'' @ [CHR 0x09] then u64_from_hex (trim_str (drop 8 l)) else None)"

definition has_net_admin :: "string option \<Rightarrow> bool" where
  "has_net_admin status =
     (case status of
        None \<Rightarrow> False
      | Some s \<Rightarrow>
          (case List.map_filter cap_line (split_lines [] s) of
             [] \<Rightarrow> False
           | caps # _ \<Rightarrow> caps AND push_bit 12 1 \<noteq> 0))"

text \<open>\<open>check_permissions\<close> on Linux: the effective user, and \<open>/proc/self/status\<close> if it can be read.\<close>

definition linux_check_permissions :: "u32 \<Rightarrow> string option \<Rightarrow> bool" where
  "linux_check_permissions uid status = (uid = 0 \<or> has_net_admin status)"

section \<open>macOS\<close>

text \<open>The bytes of \<open>sockaddr_in.sin_addr\<close> in memory on a little-endian machine: the field is the number
  that \<open>from_be_bytes\<close> makes of the octets.\<close>

definition le_bytes :: "u32 \<Rightarrow> bytes" where
  "le_bytes v = rev (u32_to_be_bytes v)"

definition macos_sin_addr :: "u32 \<Rightarrow> bytes" where
  "macos_sin_addr addr = le_bytes (u32_from_be_bytes (u32_to_be_bytes addr))"

record ifaliasreq =
  ifra_name :: string
  ifra_addr :: bytes
  ifra_broadaddr :: bytes
  ifra_mask :: bytes

definition macos_mask :: "u8 \<Rightarrow> u32" where
  "macos_mask prefix = (if prefix = 0 then 0 else push_bit (32 - unat prefix) (- 1))"

definition macos_broadcast :: "u32 \<Rightarrow> u8 \<Rightarrow> u32" where
  "macos_broadcast ip prefix = ip OR (if prefix = 32 then 0 else drop_bit (unat prefix) (- 1))"

definition IFNAMSIZ :: nat where "IFNAMSIZ = 16"

text \<open>The arguments after the address: whether a socket can be had, and whether the ioctl succeeds.\<close>

definition macos_set_interface_ip :: "ext \<Rightarrow> bool \<Rightarrow> (ifaliasreq \<Rightarrow> bool) \<Rightarrow> string \<Rightarrow> string \<Rightarrow> (io_error + unit) \<times> ifaliasreq list" where
  "macos_set_interface_ip E has_socket ioctl name addr =
     (case parse_addr E addr of
        Inl e \<Rightarrow> (Inl e, [])
      | Inr (V6 _, _) \<Rightarrow> (Inl InvalidInput, [])
      | Inr (V4 ip, prefix) \<Rightarrow>
          if \<not> has_socket then (Inl Other, [])
          else if CHR 0x00 \<in> set name then (Inl InvalidInput, [])
          else
            let req = \<lparr>ifra_name = take (IFNAMSIZ - 1) name, ifra_addr = macos_sin_addr ip,
                  ifra_broadaddr = macos_sin_addr (macos_broadcast ip prefix), ifra_mask = macos_sin_addr (macos_mask prefix)\<rparr>
            in (if ioctl req then Inr () else Inl Other, [req]))"

section \<open>Windows\<close>

record route_row =
  rr_interface :: u32
  rr_prefix :: bytes
  rr_prefix_length :: u8
  rr_next_hop :: bytes
  rr_valid_lifetime :: u32
  rr_preferred_lifetime :: u32
  rr_metric :: u32
  rr_immortal :: u8

record address_row =
  ar_interface :: u32
  ar_address :: bytes
  ar_prefix_length :: u8
  ar_valid_lifetime :: u32
  ar_preferred_lifetime :: u32
  ar_skip_as_source :: u8

text \<open>The adapters in the order of the list the API returns (\<open>None\<close>: one of the two calls failed), and
  the codes of the calls.\<close>

record winapi =
  wa_adapters :: "(string \<times> u32) list option"
  wa_create_address :: "address_row \<Rightarrow> nat"
  wa_set_address :: "address_row \<Rightarrow> nat"
  wa_create_route :: "route_row \<Rightarrow> nat"
  wa_delete_route :: "route_row \<Rightarrow> nat"

definition interface_index_by_name :: "winapi \<Rightarrow> string \<Rightarrow> io_error + u32" where
  "interface_index_by_name W name =
     (case wa_adapters W of
        None \<Rightarrow> Inl Other
      | Some adapters \<Rightarrow> (case find (\<lambda>(n, _). n = name) adapters of None \<Rightarrow> Inl NotFound | Some (_, index) \<Rightarrow> Inr index))"

text \<open>\<open>sockaddr_inet\<close> stores the octets one by one.\<close>

definition sockaddr_inet :: "u32 \<Rightarrow> bytes" where
  "sockaddr_inet ip = u32_to_be_bytes ip"

definition windows_set_interface_ip :: "ext \<Rightarrow> winapi \<Rightarrow> string \<Rightarrow> string \<Rightarrow> io_error + unit" where
  "windows_set_interface_ip E W name addr =
     (case parse_addr E addr of
        Inl e \<Rightarrow> Inl e
      | Inr (V6 _, _) \<Rightarrow> Inl InvalidInput
      | Inr (V4 ip, prefix_len) \<Rightarrow>
          (case interface_index_by_name W name of
             Inl e \<Rightarrow> Inl e
           | Inr index \<Rightarrow>
               let row = \<lparr>ar_interface = index, ar_address = sockaddr_inet ip, ar_prefix_length = prefix_len,
                   ar_valid_lifetime = - 1, ar_preferred_lifetime = - 1, ar_skip_as_source = 0\<rparr>
               in if wa_create_address W row = 0 then Inr ()
                  else if wa_create_address W row = 5010 then (if wa_set_address W row = 0 then Inr () else Inl Other)
                  else Inl Other))"

definition windows_route_row :: "ext \<Rightarrow> winapi \<Rightarrow> string \<Rightarrow> string \<Rightarrow> io_error + route_row" where
  "windows_route_row E W subnet name =
     (case windows_parse_subnet E subnet of
        Inl e \<Rightarrow> Inl e
      | Inr (ip, prefix_len) \<Rightarrow>
          (case interface_index_by_name W name of
             Inl e \<Rightarrow> Inl e
           | Inr index \<Rightarrow>
               Inr \<lparr>rr_interface = index, rr_prefix = sockaddr_inet ip, rr_prefix_length = prefix_len,
                    rr_next_hop = sockaddr_inet 0, rr_valid_lifetime = - 1, rr_preferred_lifetime = - 1, rr_metric = 1, rr_immortal = 1\<rparr>))"

definition windows_add_route :: "ext \<Rightarrow> winapi \<Rightarrow> string \<Rightarrow> string \<Rightarrow> io_error + unit" where
  "windows_add_route E W subnet name =
     (case windows_route_row E W subnet name of
        Inl e \<Rightarrow> Inl e
      | Inr row \<Rightarrow> if wa_create_route W row = 0 \<or> wa_create_route W row = 5010 then Inr () else Inl Other)"

definition windows_del_route :: "ext \<Rightarrow> winapi \<Rightarrow> string \<Rightarrow> string \<Rightarrow> io_error + unit" where
  "windows_del_route E W subnet name =
     (case windows_route_row E W subnet name of
        Inl e \<Rightarrow> Inl e
      | Inr row \<Rightarrow> if wa_delete_route W row = 0 \<or> wa_delete_route W row = 1168 then Inr () else Inl Other)"

section \<open>Targets\<close>

text \<open>What \<open>lib.rs\<close> selects at compile time. The record holds what each system answers: the effective user
  and \<open>/proc/self/status\<close>, the metadata of a file only an administrator may see, the result of the
  socket's control call, and the interfaces above.\<close>

datatype target_os = TargetLinux | TargetWindows | TargetMacos | TargetOther

record platform =
  pf_target :: target_os
  pf_euid :: u32
  pf_status :: "string option"
  pf_sam_metadata :: "io_error + unit"
  pf_wsa_ioctl :: int
  pf_netlink :: netlink
  pf_winapi :: winapi
  pf_mac_socket :: bool
  pf_mac_ioctl :: "ifaliasreq \<Rightarrow> bool"

definition windows_check_permissions :: "io_error + unit \<Rightarrow> io_error + unit" where
  "windows_check_permissions metadata =
     (case metadata of
        Inr _ \<Rightarrow> Inr ()
      | Inl e \<Rightarrow> if e = PermissionDenied then Inl PermissionDenied else Inr ())"

definition macos_check_permissions :: "u32 \<Rightarrow> io_error + unit" where
  "macos_check_permissions uid = (if uid \<noteq> 0 then Inl PermissionDenied else Inr ())"

definition check_permissions :: "platform \<Rightarrow> io_error + unit" where
  "check_permissions pf =
     (case pf_target pf of
        TargetWindows \<Rightarrow> windows_check_permissions (pf_sam_metadata pf)
      | TargetLinux \<Rightarrow> if linux_check_permissions (pf_euid pf) (pf_status pf) then Inr () else Inl PermissionDenied
      | TargetMacos \<Rightarrow> macos_check_permissions (pf_euid pf)
      | TargetOther \<Rightarrow> Inr ())"

definition windows_configure_udp_socket :: "int \<Rightarrow> io_error + unit" where
  "windows_configure_udp_socket result = (if result = 0 then Inr () else Inl Other)"

definition configure_udp_socket :: "platform \<Rightarrow> io_error + unit" where
  "configure_udp_socket pf =
     (case pf_target pf of TargetWindows \<Rightarrow> windows_configure_udp_socket (pf_wsa_ioctl pf) | _ \<Rightarrow> Inr ())"

definition add_route :: "ext \<Rightarrow> platform \<Rightarrow> string \<Rightarrow> string \<Rightarrow> io_error + unit" where
  "add_route E pf subnet iface =
     (case pf_target pf of
        TargetLinux \<Rightarrow> fst (linux_add_route E (pf_netlink pf) subnet iface)
      | TargetWindows \<Rightarrow> windows_add_route E (pf_winapi pf) subnet iface
      | _ \<Rightarrow> Inl Unsupported)"

definition del_route :: "ext \<Rightarrow> platform \<Rightarrow> string \<Rightarrow> string \<Rightarrow> io_error + unit" where
  "del_route E pf subnet iface =
     (case pf_target pf of
        TargetLinux \<Rightarrow> fst (linux_del_route E (pf_netlink pf) subnet iface)
      | TargetWindows \<Rightarrow> windows_del_route E (pf_winapi pf) subnet iface
      | _ \<Rightarrow> Inl Unsupported)"

definition set_interface_ip :: "ext \<Rightarrow> platform \<Rightarrow> string \<Rightarrow> string \<Rightarrow> io_error + unit" where
  "set_interface_ip E pf name addr =
     (case pf_target pf of
        TargetLinux \<Rightarrow> fst (linux_set_interface_ip E (pf_netlink pf) name addr)
      | TargetMacos \<Rightarrow> fst (macos_set_interface_ip E (pf_mac_socket pf) (pf_mac_ioctl pf) name addr)
      | TargetWindows \<Rightarrow> windows_set_interface_ip E (pf_winapi pf) name addr
      | TargetOther \<Rightarrow> Inl Unsupported)"

section \<open>Lemmas\<close>

text \<open>A route that is there already counts as added, on both platforms with routes.\<close>

lemma add_route_existing:
  "nl_refuses K (RouteAddReq ip p index) = Some ''File exists'' \<Longrightarrow> nl_runtime K \<Longrightarrow> nl_connection K
   \<Longrightarrow> nl_link K iface = Inr (Some index) \<Longrightarrow> linux_parse_subnet E subnet = Inr (ip, p) \<Longrightarrow> fst (linux_add_route E K subnet iface) = Inr ()"
  "windows_route_row E W subnet name = Inr row \<Longrightarrow> wa_create_route W row = 5010 \<Longrightarrow> windows_add_route E W subnet name = Inr ()"
  by (simp_all add: linux_add_route_def with_rtnetlink_def get_iface_index_def windows_add_route_def)

text \<open>The mask and the broadcast address belong together.\<close>

lemma macos_broadcast_mask:
  assumes "unat prefix \<le> 32"
  shows "macos_broadcast ip prefix = ip OR NOT (macos_mask prefix)"
proof -
  have "prefix = 32 \<longleftrightarrow> unat prefix = 32" by (simp add: word_unat_eq_iff)
  then show ?thesis
    using assms
    by (intro bit_word_eqI) (auto simp: macos_broadcast_def macos_mask_def bit_simps)
qed

text \<open>On a little-endian machine the address handed to the kernel is the one meant, read backwards.\<close>

lemma macos_address_reversed:
  "macos_sin_addr addr = rev (u32_to_be_bytes addr)" "macos_sin_addr 0x0A000001 = [1, 0, 0, 10]" "u32_to_be_bytes 0x0A000001 = [10, 0, 0, 1]"
proof -
  show r: "macos_sin_addr addr = rev (u32_to_be_bytes addr)" for addr by (simp add: macos_sin_addr_def le_bytes_def)
  have "be_bytes 4 v = [word_of_nat (v div 256 div 256 div 256), word_of_nat (v div 256 div 256), word_of_nat (v div 256), word_of_nat v]" for v
  proof -
    have "(4 :: nat) = Suc (Suc (Suc (Suc 0)))" by simp
    then show ?thesis by (simp only: be_bytes.simps append.simps)
  qed
  then show o: "u32_to_be_bytes 0x0A000001 = [10, 0, 0, 1]" by (simp add: u32_to_be_bytes_def)
  show "macos_sin_addr 0x0A000001 = [1, 0, 0, 10]" unfolding r o by simp
qed

text \<open>Both Windows calls get the row of the network.\<close>

lemma windows_routes_agree:
  assumes "net_parse E s = Some r" "net_ip r = V4 ip" "interface_index_by_name W iface = Inr i"
  shows "\<exists>row. rr_interface row = i \<and> rr_prefix row = u32_to_be_bytes ip \<and> rr_prefix_length row = net_prefix r
    \<and> (windows_add_route E W s iface = Inr () \<longleftrightarrow> wa_create_route W row \<in> {0, 5010})
    \<and> (windows_del_route E W s iface = Inr () \<longleftrightarrow> wa_delete_route W row \<in> {0, 1168})"
proof -
  let ?row = "\<lparr>rr_interface = i, rr_prefix = sockaddr_inet ip, rr_prefix_length = net_prefix r, rr_next_hop = sockaddr_inet 0,
    rr_valid_lifetime = - 1, rr_preferred_lifetime = - 1, rr_metric = 1, rr_immortal = 1\<rparr>"
  have "windows_route_row E W s iface = Inr ?row" using assms by (simp add: windows_route_row_def windows_parse_subnet_def)
  then show ?thesis
    by (intro exI [of _ ?row]) (simp add: windows_add_route_def windows_del_route_def sockaddr_inet_def)
qed

lemma windows_routes_refused:
  assumes "net_parse E s = Some r"
  shows "net_ip r = V6 ip \<Longrightarrow> windows_add_route E W s iface = Inl InvalidInput \<and> windows_del_route E W s iface = Inl InvalidInput"
    and "interface_index_by_name W iface = Inl e \<Longrightarrow> isl (windows_add_route E W s iface) \<and> isl (windows_del_route E W s iface)"
  using assms
  by (auto simp: windows_add_route_def windows_del_route_def windows_route_row_def windows_parse_subnet_def split: IpAddr.splits)

section \<open>Properties\<close>

text \<open>C39. The kernel routes follow the node's routes. For every network the node prints (and the parser
  reads back), adding it asks the Linux kernel for exactly that destination, prefix length and the
  interface's index, and deleting it later names the same destination, prefix, interface and the main
  table, so that it removes what was added; on Windows the two calls get the same row, and IPv6
  networks are refused by both.\<close>

theorem kernel_routes_agree:
  assumes "net_parse E (net_to_string E r) = Some r" and "nl_runtime K" "nl_connection K" "nl_link K iface = Inr (Some index)"
  shows "snd (linux_add_route E K (net_to_string E r) iface) = [RouteAddReq (net_ip r) (net_prefix r) index]
    \<and> (\<exists>m. snd (linux_del_route E K (net_to_string E r) iface) = [RouteDelReq m] \<and> rm_table m = RT_TABLE_MAIN
        \<and> rm_address_family m = (case net_ip r of V4 _ \<Rightarrow> Inet | V6 _ \<Rightarrow> Inet6)
        \<and> rm_destination_prefix_length m = net_prefix r \<and> rm_attributes m = [Destination (net_ip r), Oif index])
    \<and> (case net_ip r of
         V4 ip \<Rightarrow> (case interface_index_by_name W iface of
             Inl _ \<Rightarrow> isl (windows_add_route E W (net_to_string E r) iface) \<and> isl (windows_del_route E W (net_to_string E r) iface)
           | Inr i \<Rightarrow> (\<exists>row. rr_interface row = i \<and> rr_prefix row = u32_to_be_bytes ip \<and> rr_prefix_length row = net_prefix r
               \<and> (windows_add_route E W (net_to_string E r) iface = Inr () \<longleftrightarrow> wa_create_route W row \<in> {0, 5010})
               \<and> (windows_del_route E W (net_to_string E r) iface = Inr () \<longleftrightarrow> wa_delete_route W row \<in> {0, 1168})))
       | V6 _ \<Rightarrow> windows_add_route E W (net_to_string E r) iface = Inl InvalidInput
               \<and> windows_del_route E W (net_to_string E r) iface = Inl InvalidInput)"
  using assms windows_routes_agree [OF assms(1), of _ W iface] windows_routes_refused [OF assms(1)]
  by (simp add: linux_add_route_def linux_del_route_def with_rtnetlink_def get_iface_index_def linux_parse_subnet_def build_route_message_def
      split: IpAddr.splits sum.splits)

definition demo_netlink :: netlink where
  "demo_netlink = \<lparr>nl_runtime = True, nl_connection = True, nl_link = (\<lambda>_. Inr (Some 3)), nl_refuses = (\<lambda>_. None)\<rparr>"

theorem kernel_routes_agree_witness:
  "snd (linux_add_route (demo_ext\<lparr>net_to_string := \<lambda>_. ''10.0.0.2/24''\<rparr>) demo_netlink ''10.0.0.2/24'' ''lw0'') = [RouteAddReq (V4 0x0A000002) 24 3]"
proof -
  let ?E = "demo_ext\<lparr>net_to_string := \<lambda>_. ''10.0.0.2/24''\<rparr>"
  have "net_parse ?E (net_to_string ?E (IpNetwork (V4 0x0A000002) 24)) = Some (IpNetwork (V4 0x0A000002) 24)"
    using demo_net_parse_host by simp
  from kernel_routes_agree [OF this, of demo_netlink "''lw0''" 3] show ?thesis by (simp add: demo_netlink_def)
qed

end
