(* ===== verification/Tunnel.thy ===== *)
theory Tunnel
  imports Platform Daemon_Startup
begin

text \<open>
  The TUN device of \<open>liteway-core/src/tunnel.rs\<close>, the UDP socket and the part of \<open>main\<close> that brings both
  up. The \<open>tun\<close> crate and the socket are parameters, records of the calls the code makes on a handle of
  an arbitrary type. \<open>os_of\<close> computes from them, and from the platform, the answers that \<open>start_node\<close>
  takes as an argument.
\<close>

section \<open>The device\<close>

record tun_configuration =
  tun_name :: string
  tun_mtu :: u16
  tun_up :: bool

record 'd tun_crate =
  tun_create :: "tun_configuration \<Rightarrow> 'd option"
  dev_set_nonblock :: "'d \<Rightarrow> (io_error + unit) \<times> 'd"
  dev_tun_name :: "'d \<Rightarrow> string option"
  dev_recv :: "nat \<Rightarrow> 'd \<Rightarrow> (io_error + bytes) \<times> 'd"
  dev_send :: "bytes \<Rightarrow> 'd \<Rightarrow> (io_error + nat) \<times> 'd"
  dev_split :: "'d \<Rightarrow> 'd \<times> 'd"
  reader_read :: "nat \<Rightarrow> 'd \<Rightarrow> (io_error + bytes) \<times> 'd"
  writer_write :: "bytes \<Rightarrow> 'd \<Rightarrow> (io_error + nat) \<times> 'd"
  writer_flush :: "'d \<Rightarrow> (io_error + unit) \<times> 'd"

text \<open>The three handles of the module. A read gets the length of the buffer and returns what it put there.\<close>

record 'd TunDevice = td_dev :: 'd
record 'd TunReader = tr_reader :: 'd
record 'd TunWriter = tw_writer :: 'd

definition TunDevice_new :: "'d tun_crate \<Rightarrow> string \<Rightarrow> u16 \<Rightarrow> io_error + 'd TunDevice" where
  "TunDevice_new C name dev_mtu =
     (case tun_create C \<lparr>tun_name = name, tun_mtu = dev_mtu, tun_up = True\<rparr> of
        None \<Rightarrow> Inl Other
      | Some dev \<Rightarrow> Inr \<lparr>td_dev = dev\<rparr>)"

definition unix_target :: "platform \<Rightarrow> bool" where
  "unix_target pf \<longleftrightarrow> pf_target pf \<noteq> TargetWindows"

definition TunDevice_set_nonblock :: "'d tun_crate \<Rightarrow> platform \<Rightarrow> 'd TunDevice \<Rightarrow> (io_error + unit) \<times> 'd TunDevice" where
  "TunDevice_set_nonblock C pf t =
     (if unix_target pf then (let (r, dev) = dev_set_nonblock C (td_dev t) in (r, t\<lparr>td_dev := dev\<rparr>))
      else (Inr (), t))"

definition TunDevice_set_ip :: "ext \<Rightarrow> 'd tun_crate \<Rightarrow> platform \<Rightarrow> string \<Rightarrow> 'd TunDevice \<Rightarrow> io_error + unit" where
  "TunDevice_set_ip E C pf addr t =
     (case dev_tun_name C (td_dev t) of
        None \<Rightarrow> Inl Other
      | Some name \<Rightarrow> set_interface_ip E pf name addr)"

definition TunDevice_read :: "'d tun_crate \<Rightarrow> nat \<Rightarrow> 'd TunDevice \<Rightarrow> (io_error + bytes) \<times> 'd TunDevice" where
  "TunDevice_read C len t = (let (r, dev) = dev_recv C len (td_dev t) in (r, t\<lparr>td_dev := dev\<rparr>))"

definition TunDevice_write :: "'d tun_crate \<Rightarrow> bytes \<Rightarrow> 'd TunDevice \<Rightarrow> (io_error + nat) \<times> 'd TunDevice" where
  "TunDevice_write C buf t = (let (r, dev) = dev_send C buf (td_dev t) in (r, t\<lparr>td_dev := dev\<rparr>))"

definition TunDevice_name :: "'d tun_crate \<Rightarrow> 'd TunDevice \<Rightarrow> string" where
  "TunDevice_name C t = (case dev_tun_name C (td_dev t) of None \<Rightarrow> [] | Some name \<Rightarrow> name)"

definition TunDevice_split :: "'d tun_crate \<Rightarrow> 'd TunDevice \<Rightarrow> 'd TunReader \<times> 'd TunWriter" where
  "TunDevice_split C t = (let (r, w) = dev_split C (td_dev t) in (\<lparr>tr_reader = r\<rparr>, \<lparr>tw_writer = w\<rparr>))"

definition TunReader_read :: "'d tun_crate \<Rightarrow> nat \<Rightarrow> 'd TunReader \<Rightarrow> (io_error + bytes) \<times> 'd TunReader" where
  "TunReader_read C len t = (let (r, dev) = reader_read C len (tr_reader t) in (r, t\<lparr>tr_reader := dev\<rparr>))"

definition TunWriter_write :: "'d tun_crate \<Rightarrow> bytes \<Rightarrow> 'd TunWriter \<Rightarrow> (io_error + nat) \<times> 'd TunWriter" where
  "TunWriter_write C buf t = (let (r, dev) = writer_write C buf (tw_writer t) in (r, t\<lparr>tw_writer := dev\<rparr>))"

definition TunWriter_flush :: "'d tun_crate \<Rightarrow> 'd TunWriter \<Rightarrow> (io_error + unit) \<times> 'd TunWriter" where
  "TunWriter_flush C t = (let (r, dev) = writer_flush C (tw_writer t) in (r, t\<lparr>tw_writer := dev\<rparr>))"

section \<open>The socket\<close>

datatype domain = DomainIpv4 | DomainIpv6

record socket_crate =
  so_new :: "domain \<Rightarrow> bool"
  so_set_only_v6 :: bool
  so_bind :: "SocketAddr \<Rightarrow> bool"
  so_set_read_timeout :: bool
  so_local_addr :: "SocketAddr \<Rightarrow> SocketAddr option"

definition open_socket :: "socket_crate \<Rightarrow> platform \<Rightarrow> SocketAddr \<Rightarrow> SocketAddr option" where
  "open_socket S pf listen =
     (let v6 = is_ipv6 listen
      in if \<not> so_new S (if v6 then DomainIpv6 else DomainIpv4) then None
         else if v6 \<and> \<not> so_set_only_v6 S then None
         else if \<not> so_bind S listen then None
         else if \<not> so_set_read_timeout S then None
         else
           case configure_udp_socket pf of
             Inl _ \<Rightarrow> None
           | Inr _ \<Rightarrow> so_local_addr S listen)"

section \<open>Bringing the interface up\<close>

text \<open>The TUN part of \<open>main\<close> on the device itself: the overlay networks and the two halves of the device.\<close>

definition tun_bring_up ::
  "ext \<Rightarrow> 'd tun_crate \<Rightarrow> platform \<Rightarrow> AppConfig \<Rightarrow> Cert \<Rightarrow> world
   \<Rightarrow> (startup_error + IpNetwork list \<times> ('d TunReader \<times> 'd TunWriter) option) \<times> world" where
  "tun_bring_up E C pf cfg cert w =
     (case interface cfg of
        None \<Rightarrow> (Inr ([], None), w)
      | Some iface \<Rightarrow>
          (case TunDevice_new C (if_name iface) (mtu iface) of
             Inl _ \<Rightarrow> (Inl TunFailed, w)
           | Inr tun \<Rightarrow>
               let (r, w) = (case addresses (body cert) of
                     None \<Rightarrow> (Inr [], w)
                   | Some addrs \<Rightarrow>
                       (case TunDevice_set_ip E C pf (addr_ip addrs) tun of
                          Inl _ \<Rightarrow> (Inl SetIpFailed, w)
                        | Inr _ \<Rightarrow>
                            (case discovery_route_from_interface_addr E (addr_ip addrs) of
                               Some (Some route) \<Rightarrow> (Inr [route], log_route (RouteAdd (net_to_string E route) (if_name iface)) w)
                             | Some None \<Rightarrow> (if cfg_lighthouses cfg \<noteq> [] then Inl BreaksLighthouses else Inr [], w)
                             | None \<Rightarrow> (Inr [], w))))
               in case r of
                    Inl e \<Rightarrow> (Inl e, w)
                  | Inr overlay \<Rightarrow>
                      (case TunDevice_set_nonblock C pf tun of
                         (Inl _, _) \<Rightarrow> (Inl NonblockFailed, w)
                       | (Inr _, tun) \<Rightarrow> (Inr (overlay, Some (TunDevice_split C tun)), w))))"

text \<open>The answers \<open>start_node\<close> asks for.\<close>

definition os_of :: "ext \<Rightarrow> 'd tun_crate \<Rightarrow> socket_crate \<Rightarrow> platform \<Rightarrow> bool \<Rightarrow> AppConfig \<Rightarrow> Cert \<Rightarrow> os_answers" where
  "os_of E C S pf handler cfg cert =
     (let device = (case interface cfg of None \<Rightarrow> None
            | Some iface \<Rightarrow> (case TunDevice_new C (if_name iface) (mtu iface) of Inl _ \<Rightarrow> None | Inr t \<Rightarrow> Some t))
      in \<lparr>os_privileged = (check_permissions pf = Inr ()),
          os_tun_created = (device \<noteq> None),
          os_ip_set = (case (device, addresses (body cert)) of
              (Some t, Some addrs) \<Rightarrow> TunDevice_set_ip E C pf (addr_ip addrs) t = Inr () | _ \<Rightarrow> False),
          os_nonblock = (case device of Some t \<Rightarrow> fst (TunDevice_set_nonblock C pf t) = Inr () | None \<Rightarrow> False),
          os_listen = open_socket S pf (cfg_listen cfg),
          os_handler_set = handler\<rparr>)"

lemma not_isl_unit: "\<not> isl r \<longleftrightarrow> r = Inr ()" for r :: "io_error + unit"
  by (cases r) simp_all

text \<open>What \<open>main\<close> does on the device is what \<open>bring_up_interface\<close> says it does.\<close>

lemma tun_bring_up_refines:
  "bring_up_interface E (os_of E C S pf handler cfg cert) cfg cert w =
     (let (r, w) = tun_bring_up E C pf cfg cert w in (map_sum id fst r, w))"
proof (cases "interface cfg")
  case None
  then show ?thesis by (simp add: bring_up_interface_def tun_bring_up_def)
next
  case (Some iface)
  show ?thesis
  proof (cases "TunDevice_new C (if_name iface) (mtu iface)")
    case (Inl e)
    with Some show ?thesis by (simp add: bring_up_interface_def tun_bring_up_def os_of_def)
  next
    case (Inr tun)
    obtain r tun' where nb: "TunDevice_set_nonblock C pf tun = (r, tun')" by fastforce
    show ?thesis
    proof (cases "addresses (body cert)")
      case None
      with Some Inr nb show ?thesis by (cases r) (simp_all add: bring_up_interface_def tun_bring_up_def os_of_def)
    next
      case addrs: (Some addrs)
      with Some Inr nb show ?thesis
        by (cases r; cases "TunDevice_set_ip E C pf (addr_ip addrs) tun")
           (simp_all add: bring_up_interface_def tun_bring_up_def os_of_def split: option.splits)
    qed
  qed
qed

lemma linux_set_ip_ok:
  assumes "set_interface_ip E pf name addr = Inr ()" and "pf_target pf = TargetLinux"
  obtains ip p index where "parse_addr E addr = Inr (ip, p)" "nl_link (pf_netlink pf) name = Inr (Some index)"
    "linux_set_interface_ip E (pf_netlink pf) name addr = (Inr (), [LinkUp index, AddressAdd index ip p])"
    "nl_refuses (pf_netlink pf) (LinkUp index) = None" "nl_refuses (pf_netlink pf) (AddressAdd index ip p) = None"
proof -
  obtain ip p where a: "parse_addr E addr = Inr (ip, p)"
    using assms by (auto simp: set_interface_ip_def linux_set_interface_ip_def split: sum.splits prod.splits)
  obtain index where i: "nl_link (pf_netlink pf) name = Inr (Some index)"
    using assms a by (auto simp: set_interface_ip_def linux_set_interface_ip_def with_rtnetlink_def get_iface_index_def
        split: sum.splits option.splits if_splits)
  then show thesis
    using that [OF a i] assms a
    by (auto simp: set_interface_ip_def linux_set_interface_ip_def with_rtnetlink_def get_iface_index_def
        split: sum.splits option.splits if_splits)
qed

lemma resolve_route_log: "route_log (snd (resolve_lighthouses ls w)) = route_log w"
  by (induction ls arbitrary: w)
     (simp_all add: resolve_socket_addr_def resolve_def instant_now_def Let_def split_beta split: option.splits)

text \<open>The parts of a successful start that concern the interface and the socket.\<close>

lemma start_node_parts:
  assumes "start_node E os cfg ca cert key w = (Inr (n, overlay), w')"
  obtains local w1 w2 where "os_privileged os" "bring_up_interface E os cfg cert w1 = (Inr overlay, w2)" "os_listen os = Some local"
    "n_max_datagram n = udp_payload_limit cfg local" "route_log w' = route_log w2"
proof -
  let ?w1 = "snd (Cert_verify E cert (verify_key ca) w)"
  obtain r w2 where b: "bring_up_interface E os cfg cert ?w1 = (r, w2)" by fastforce
  obtain slots w3 where l: "resolve_lighthouses (cfg_lighthouses cfg) w2 = (slots, w3)" by fastforce
  have "route_log w3 = route_log w2" using resolve_route_log [of "cfg_lighthouses cfg" w2] l by simp
  then show thesis
    using that [of ?w1 w2] assms b l
    by (auto simp: start_node_def Let_def split_beta new_node_def split: sum.splits if_splits option.splits)
qed

lemma bring_up_overlay:
  assumes "bring_up_interface E os cfg cert w = (Inr overlay, w')" and "interface cfg = Some iface" and "addresses (body cert) = Some addrs"
  shows "os_tun_created os" "os_ip_set os" "os_nonblock os"
    "case discovery_route_from_interface_addr E (addr_ip addrs) of
       Some (Some route) \<Rightarrow> overlay = [route] \<and> RouteAdd (net_to_string E route) (if_name iface) \<in> set (route_log w')
     | _ \<Rightarrow> overlay = []"
  using assms by (auto simp: bring_up_interface_def Let_def split_beta log_route_def split: option.splits if_splits)

section \<open>Properties\<close>

text \<open>C33. A Linux daemon that starts has its interface up. When \<open>start_node\<close> succeeds on the answers of the
  \<open>tun\<close> crate, the socket and the kernel, then the process had the privileges; the device was created with the configured
  name and MTU; the address of the node's certificate was given, in one accepted request after
  the link was set up, to the interface whose name the device reported; the network of that address
  is the overlay network the send path skips broadcasts of, and the route to it was asked for; the
  device was put into non-blocking mode and split; and the size of datagrams is computed from the
  address the socket is bound to.\<close>

theorem interface_brought_up:
  assumes "start_node E (os_of E C S pf handler cfg cert) cfg ca cert key w = (Inr (n, overlay), w')"
    and "interface cfg = Some iface" and "addresses (body cert) = Some addrs" and "pf_target pf = TargetLinux"
  shows "\<exists>dev name index ip p dev' local. linux_check_permissions (pf_euid pf) (pf_status pf)
    \<and> tun_create C \<lparr>tun_name = if_name iface, tun_mtu = mtu iface, tun_up = True\<rparr> = Some dev
    \<and> dev_tun_name C dev = Some name \<and> nl_link (pf_netlink pf) name = Inr (Some index)
    \<and> parse_addr E (addr_ip addrs) = Inr (ip, p)
    \<and> linux_set_interface_ip E (pf_netlink pf) name (addr_ip addrs) = (Inr (), [LinkUp index, AddressAdd index ip p])
    \<and> nl_refuses (pf_netlink pf) (AddressAdd index ip p) = None
    \<and> dev_set_nonblock C dev = (Inr (), dev')
    \<and> (case discovery_route_from_interface_addr E (addr_ip addrs) of
         Some (Some route) \<Rightarrow> overlay = [route] \<and> RouteAdd (net_to_string E route) (if_name iface) \<in> set (route_log w')
       | _ \<Rightarrow> overlay = [])
    \<and> so_local_addr S (cfg_listen cfg) = Some local \<and> n_max_datagram n = udp_payload_limit cfg local"
proof -
  let ?os = "os_of E C S pf handler cfg cert"
  obtain local w1 w2 where p: "os_privileged ?os" "bring_up_interface E ?os cfg cert w1 = (Inr overlay, w2)" "os_listen ?os = Some local"
    "n_max_datagram n = udp_payload_limit cfg local" "route_log w' = route_log w2"
    using start_node_parts [OF assms(1)] by blast
  note b = bring_up_overlay [OF p(2) assms(2,3)]
  obtain dev where dev: "tun_create C \<lparr>tun_name = if_name iface, tun_mtu = mtu iface, tun_up = True\<rparr> = Some dev"
    using b(1) assms(2) by (auto simp: os_of_def TunDevice_new_def Let_def split: option.splits)
  then have ip: "TunDevice_set_ip E C pf (addr_ip addrs) \<lparr>td_dev = dev\<rparr> = Inr ()"
    and nb: "fst (dev_set_nonblock C dev) = Inr ()"
    using b(2,3) assms(2-4) by (simp_all add: os_of_def TunDevice_new_def TunDevice_set_nonblock_def unix_target_def Let_def split_beta)
  from ip obtain name where name: "dev_tun_name C dev = Some name" "set_interface_ip E pf name (addr_ip addrs) = Inr ()"
    by (auto simp: TunDevice_set_ip_def split: option.splits)
  obtain ip plen index where k: "parse_addr E (addr_ip addrs) = Inr (ip, plen)" "nl_link (pf_netlink pf) name = Inr (Some index)"
    "linux_set_interface_ip E (pf_netlink pf) name (addr_ip addrs) = (Inr (), [LinkUp index, AddressAdd index ip plen])"
    "nl_refuses (pf_netlink pf) (AddressAdd index ip plen) = None"
    by (rule linux_set_ip_ok [OF name(2) assms(4)])
  have "linux_check_permissions (pf_euid pf) (pf_status pf)"
    using p(1) assms(4) by (simp add: os_of_def check_permissions_def Let_def split: if_splits)
  moreover have "so_local_addr S (cfg_listen cfg) = Some local"
    using p(3) by (auto simp: os_of_def open_socket_def Let_def split: if_splits sum.splits)
  moreover have "dev_set_nonblock C dev = (Inr (), snd (dev_set_nonblock C dev))" using nb by (metis prod.collapse)
  ultimately show ?thesis
    using dev name(1) k b(4) p(4) unfolding p(5)
    by (intro exI [of _ dev] exI [of _ name] exI [of _ index] exI [of _ ip] exI [of _ plen] exI [of _ "snd (dev_set_nonblock C dev)"] exI [of _ local] conjI)
qed

text \<open>A device and a socket that always work, on a Linux machine where the daemon is root.\<close>

definition demo_tun :: "unit tun_crate" where
  "demo_tun = \<lparr>tun_create = \<lambda>_. Some (), dev_set_nonblock = \<lambda>d. (Inr (), d), dev_tun_name = \<lambda>_. Some ''lw0'',
     dev_recv = \<lambda>_ d. (Inr [], d), dev_send = \<lambda>b d. (Inr (length b), d), dev_split = \<lambda>d. (d, d),
     reader_read = \<lambda>_ d. (Inr [], d), writer_write = \<lambda>b d. (Inr (length b), d), writer_flush = \<lambda>d. (Inr (), d)\<rparr>"

definition demo_socket :: socket_crate where
  "demo_socket = \<lparr>so_new = \<lambda>_. True, so_set_only_v6 = True, so_bind = \<lambda>_. True, so_set_read_timeout = True, so_local_addr = Some\<rparr>"

definition demo_platform :: platform where
  "demo_platform = \<lparr>pf_target = TargetLinux, pf_euid = 0, pf_status = None, pf_sam_metadata = Inr (), pf_wsa_ioctl = 0,
     pf_netlink = demo_netlink,
     pf_winapi = \<lparr>wa_adapters = None, wa_create_address = \<lambda>_. 0, wa_set_address = \<lambda>_. 0, wa_create_route = \<lambda>_. 0, wa_delete_route = \<lambda>_. 0\<rparr>,
     pf_mac_socket = False, pf_mac_ioctl = \<lambda>_. False\<rparr>"

definition demo_tun_config :: AppConfig where
  "demo_tun_config = demo_daemon_config\<lparr>interface := Some \<lparr>if_name = ''lw0'', mtu = 1300\<rparr>\<rparr>"

theorem interface_brought_up_witness:
  "\<exists>n overlay w'. start_node demo_ext (os_of demo_ext demo_tun demo_socket demo_platform True demo_tun_config demo_cert) demo_tun_config demo_ca_cert
       demo_cert \<lparr>signing_secret_key = demo_sk\<rparr> demo_world = (Inr (n, overlay), w')
    \<and> linux_set_interface_ip demo_ext demo_netlink ''lw0'' ''10.0.0.2/24'' = (Inr (), [LinkUp 3, AddressAdd 3 (V4 0x0A000002) 24])"
proof -
  let ?os = "os_of demo_ext demo_tun demo_socket demo_platform True demo_tun_config demo_cert"
  let ?key = "\<lparr>signing_secret_key = demo_sk\<rparr>"
  have cfg: "interface demo_tun_config = Some \<lparr>if_name = ''lw0'', mtu = 1300\<rparr>" "cfg_lighthouses demo_tun_config = []"
    "cfg_network_secret demo_tun_config = cfg_network_secret demo_daemon_config"
    by (simp_all add: demo_tun_config_def demo_daemon_config_def)
  have "validate demo_tun_config = Inr ()"
    using demo_config_valid by (simp add: validate_iff demo_tun_config_def demo_daemon_config_def demo_config_def)
  moreover obtain bs where "network_secret demo_ext demo_daemon_config = Inr bs" using demo_secret by blast
  moreover have "nsk_ed25519_public demo_ext demo_sk = ed25519_pk (keys (body demo_cert))"
    using demo_identity(2) by (simp add: holds_key_def cert_vk_def hybrid_vk_of_def nsk_ed25519_public_def)
  moreover have a: "addresses (body demo_cert) = Some \<lparr>addr_ip = ''10.0.0.2/24'', subnets = []\<rparr>" by (simp add: demo_cert_def demo_body_def)
  have ip: "linux_set_interface_ip demo_ext demo_netlink ''lw0'' ''10.0.0.2/24'' = (Inr (), [LinkUp 3, AddressAdd 3 (V4 0x0A000002) 24])"
    using demo_net_parse_host
    by (simp add: linux_set_interface_ip_def parse_addr_def with_rtnetlink_def get_iface_index_def demo_netlink_def)
  moreover have os: "os_privileged ?os" "os_tun_created ?os" "os_nonblock ?os" "os_ip_set ?os" "os_listen ?os \<noteq> None" "os_handler_set ?os"
    using ip by (simp_all add: os_of_def check_permissions_def linux_check_permissions_def open_socket_def configure_udp_socket_def demo_platform_def
        demo_socket_def demo_tun_def TunDevice_new_def TunDevice_set_nonblock_def TunDevice_set_ip_def set_interface_ip_def unix_target_def cfg a Let_def)
  ultimately have "\<exists>n overlay w'. start_node demo_ext ?os demo_tun_config demo_ca_cert demo_cert ?key demo_world = (Inr (n, overlay), w')"
    unfolding start_node_checks interface_ok_def
    by (simp add: verify_iff_issued demo_ca_cert_def demo_identity demo_validity cfg a network_secret_def)
  then obtain n overlay w' where s: "start_node demo_ext ?os demo_tun_config demo_ca_cert demo_cert ?key demo_world = (Inr (n, overlay), w')" by blast
  from interface_brought_up [OF s cfg(1) a] ip show ?thesis
    using s by (auto simp: demo_platform_def)
qed

end
