(* ===== verification/Daemon_Config.thy ===== *)
theory Daemon_Config
  imports CertTool_Daemon Tunnel
begin

text \<open>
  The configuration file: \<open>AppConfig::from_file\<close> and \<open>AppConfig::save\<close> on the disk of the certificate
  tool, and \<open>main\<close> of the daemon from the reading of that file on. The printer and the parser of the
  file are two more functions of the \<open>toml\<close> crate.
\<close>

record config_toml = toml +
  toml_config :: "AppConfig \<Rightarrow> string option"
  toml_parse_config :: "string \<Rightarrow> AppConfig option"

definition AppConfig_from_file :: "config_toml \<Rightarrow> string \<Rightarrow> disk \<Rightarrow> tool_error + AppConfig" where
  "AppConfig_from_file T path d =
     (case read_file path d of
        Inl e \<Rightarrow> Inl e
      | Inr s \<Rightarrow> (case toml_parse_config T s of None \<Rightarrow> Inl BadToml | Some cfg \<Rightarrow> Inr cfg))"

definition AppConfig_save :: "config_toml \<Rightarrow> AppConfig \<Rightarrow> string \<Rightarrow> disk \<Rightarrow> (tool_error + unit) \<times> disk" where
  "AppConfig_save T cfg path d =
     (case toml_config T cfg of
        None \<Rightarrow> (Inl TomlPrint, d)
      | Some s \<Rightarrow> write_file path s d)"

text \<open>\<open>main\<close> up to the start of the threads. The crates and the platform decide what the operating system
  answers once the configuration and the certificate are known; without a certificate \<open>main\<close> stops
  before it asks, and the answers do not matter.\<close>

definition no_answers :: os_answers where
  "no_answers = \<lparr>os_privileged = False, os_tun_created = False, os_ip_set = False, os_nonblock = False, os_listen = None, os_handler_set = False\<rparr>"

definition litewayd_start ::
  "ext \<Rightarrow> config_toml \<Rightarrow> 'd tun_crate \<Rightarrow> socket_crate \<Rightarrow> platform \<Rightarrow> bool \<Rightarrow> string \<Rightarrow> disk \<Rightarrow> world
   \<Rightarrow> (load_error + Node \<times> IpNetwork list) \<times> world" where
  "litewayd_start E T C S pf handler path d w =
     (case AppConfig_from_file T path d of
        Inl e \<Rightarrow> (Inl (LoadIo e), w)
      | Inr cfg \<Rightarrow>
          let os = (case read_node_cert (toml.truncate T) (node_cert_path cfg) d of
                Inl _ \<Rightarrow> no_answers
              | Inr cert \<Rightarrow> os_of E C S pf handler cfg cert)
          in start_from_disk E (toml.truncate T) os cfg d w)"

section \<open>Lemmas\<close>

lemma started_from_disk:
  assumes "start_from_disk E T os cfg d w = (Inr r, w')"
  obtains ca cert key where "read_ca_cert T (ca_cert_path cfg) d = Inr ca" "read_node_cert T (node_cert_path cfg) d = Inr cert"
    "read_node_key T (node_key_path cfg) d = Inr key" "start_node E os cfg ca cert key w = (Inr r, w')"
  using assms by (auto simp: start_from_disk_def Let_def split: sum.splits prod.splits)

text \<open>Saving a configuration touches no file but its own, and what is there afterwards is a prefix of the text that was
  printed, all of it if the call succeeds.\<close>

lemma save_writes:
  assumes "AppConfig_save T cfg path d = (r, d')"
  shows "files d' q \<noteq> files d q \<Longrightarrow> q = path \<and> (\<exists>s k. toml_config T cfg = Some s \<and> map_option contents (files d' q) = Some (take k s))"
    and "r = Inr () \<Longrightarrow> \<exists>s. toml_config T cfg = Some s \<and> read_file path d' = Inr s"
proof -
  show "r = Inr () \<Longrightarrow> \<exists>s. toml_config T cfg = Some s \<and> read_file path d' = Inr s"
    using assms by (auto simp: AppConfig_save_def write_file_def read_file_def Let_def split: option.splits if_splits)
  show "files d' q \<noteq> files d q \<Longrightarrow> q = path \<and> (\<exists>s k. toml_config T cfg = Some s \<and> map_option contents (files d' q) = Some (take k s))"
    using assms
    by (auto simp: AppConfig_save_def write_file_def Let_def split: option.splits if_splits) (metis take_all order_refl)+
qed

section \<open>Properties\<close>

text \<open>C34. A daemon that starts is the one its files describe. If \<open>litewayd\<close> starts from a configuration file, that file
  parses to a valid configuration; at the three paths this configuration names there is a CA certificate,
  a node certificate that this CA issued and that is valid at the time, and a private key whose Ed25519 half belongs
  to it; the process was privileged; and the node runs with this CA, identity and key, with the network key
  of the configured secret and with the configured roles, timings and interface.\<close>

theorem started_daemon_matches_files:
  assumes "litewayd_start E T C S pf handler path d w = (Inr (n, overlay), w')"
  shows "\<exists>cfg ca cert key secret. AppConfig_from_file T path d = Inr cfg \<and> validate cfg = Inr ()
    \<and> read_ca_cert (toml.truncate T) (ca_cert_path cfg) d = Inr ca
    \<and> read_node_cert (toml.truncate T) (node_cert_path cfg) d = Inr cert
    \<and> read_node_key (toml.truncate T) (node_key_path cfg) d = Inr key
    \<and> issued E cert (verify_key ca) \<and> in_validity E cert (unix w 0)
    \<and> nsk_ed25519_public E (signing_secret_key key) = ed25519_pk (keys (body cert))
    \<and> network_secret E cfg = Inr secret \<and> check_permissions pf = Inr ()
    \<and> n_ca_vk n = verify_key ca \<and> n_cert n = cert \<and> n_signing_key n = signing_secret_key key
    \<and> n_our_id n = node_id_from_cert E cert \<and> n_network_key n = derive_network_key E secret
    \<and> n_am_relay n = cfg_am_relay cfg \<and> n_am_lighthouse n = cfg_am_lighthouse cfg \<and> n_timings n = config_timings cfg
    \<and> n_iface_name n = map_option if_name (interface cfg)"
proof -
  let ?T = "toml.truncate T"
  obtain cfg os where cfg: "AppConfig_from_file T path d = Inr cfg"
    and os: "os = (case read_node_cert ?T (node_cert_path cfg) d of Inl _ \<Rightarrow> no_answers | Inr cert \<Rightarrow> os_of E C S pf handler cfg cert)"
    and s: "start_from_disk E ?T os cfg d w = (Inr (n, overlay), w')"
    using assms by (auto simp: litewayd_start_def Let_def split: sum.splits)
  obtain ca cert key where r: "read_ca_cert ?T (ca_cert_path cfg) d = Inr ca" "read_node_cert ?T (node_cert_path cfg) d = Inr cert"
    "read_node_key ?T (node_key_path cfg) d = Inr key" and st: "start_node E os cfg ca cert key w = (Inr (n, overlay), w')"
    by (rule started_from_disk [OF s])
  have ok: "validate cfg = Inr ()" "fst (Cert_verify E cert (verify_key ca) w)"
    "nsk_ed25519_public E (signing_secret_key key) = ed25519_pk (keys (body cert))" "os_privileged os"
    using st start_node_checks by blast+
  have "check_permissions pf = Inr ()" using ok(4) os r(2) by (simp add: os_of_def Let_def split: sum.splits)
  moreover obtain secret where "network_secret E cfg = Inr secret" "\<exists>listen slots. n =
      new_node E cfg (verify_key ca) cert (signing_secret_key key) (derive_network_key E secret) listen slots"
    using st by (auto simp: start_node_def Let_def split_beta split: sum.splits if_splits prod.splits option.splits)
  ultimately show ?thesis using cfg r ok by (auto simp: new_node_def verify_iff_issued)
qed

text \<open>A file format that knows one configuration and one identity, and a disk where every file can be read.\<close>

definition demo_config_toml :: config_toml where
  "demo_config_toml = toml.extend
     \<lparr>toml_ca = (\<lambda>_. None), toml_parse_ca = (\<lambda>_. Some demo_ca_cert), toml_cert = (\<lambda>_. None), toml_parse_cert = (\<lambda>_. Some demo_cert),
      toml_ca_key = (\<lambda>_. None), toml_parse_ca_key = (\<lambda>_. None), toml_node_key = (\<lambda>_. None),
      toml_parse_node_key = (\<lambda>_. Some \<lparr>signing_secret_key = demo_sk\<rparr>)\<rparr>
     \<lparr>toml_config = (\<lambda>_. None), toml_parse_config = (\<lambda>_. Some demo_daemon_config)\<rparr>"

definition demo_full_disk :: disk where
  "demo_full_disk = demo_disk\<lparr>files := \<lambda>_. Some \<lparr>contents = [], private_mode = False\<rparr>\<rparr>"

theorem started_daemon_matches_files_witness:
  "\<exists>n overlay w'. litewayd_start demo_ext demo_config_toml demo_tun demo_socket demo_platform True ''liteway.toml'' demo_full_disk demo_world
      = (Inr (n, overlay), w')
    \<and> n_cert n = demo_cert \<and> issued demo_ext (n_cert n) (n_ca_vk n) \<and> n_our_id n = node_id_from_cert demo_ext demo_cert"
proof -
  let ?os = "os_of demo_ext demo_tun demo_socket demo_platform True demo_daemon_config demo_cert"
  have read: "AppConfig_from_file demo_config_toml path demo_full_disk = Inr demo_daemon_config"
    "read_ca_cert (toml.truncate demo_config_toml) path demo_full_disk = Inr demo_ca_cert"
    "read_node_cert (toml.truncate demo_config_toml) path demo_full_disk = Inr demo_cert"
    "read_node_key (toml.truncate demo_config_toml) path demo_full_disk = Inr \<lparr>signing_secret_key = demo_sk\<rparr>" for path
    by (simp_all add: AppConfig_from_file_def read_ca_cert_def read_node_cert_def read_node_key_def parse_node_cert_def read_file_def
        demo_full_disk_def demo_config_toml_def toml.defs)
  have cfg: "interface demo_daemon_config = None" "cfg_lighthouses demo_daemon_config = []" by (simp_all add: demo_daemon_config_def)
  have os: "os_privileged ?os" "os_listen ?os \<noteq> None" "os_handler_set ?os"
    by (simp_all add: os_of_def check_permissions_def linux_check_permissions_def open_socket_def configure_udp_socket_def demo_platform_def
        demo_socket_def Let_def)
  have v: "validate demo_daemon_config = Inr ()"
    using demo_config_valid by (simp add: validate_iff demo_daemon_config_def demo_config_def)
  obtain bs where bs: "network_secret demo_ext demo_daemon_config = Inr bs" using demo_secret by blast
  have k: "nsk_ed25519_public demo_ext demo_sk = ed25519_pk (keys (body demo_cert))"
    using demo_identity(2) by (simp add: holds_key_def cert_vk_def hybrid_vk_of_def nsk_ed25519_public_def)
  have "\<exists>n overlay w'. start_node demo_ext ?os demo_daemon_config demo_ca_cert demo_cert \<lparr>signing_secret_key = demo_sk\<rparr> demo_world = (Inr (n, overlay), w')"
    unfolding start_node_checks interface_ok_def
    using v bs k os by (simp add: verify_iff_issued demo_ca_cert_def demo_identity demo_validity cfg)
  then obtain n overlay w' where "litewayd_start demo_ext demo_config_toml demo_tun demo_socket demo_platform True ''liteway.toml'' demo_full_disk demo_world
      = (Inr (n, overlay), w')"
    using v by (auto simp: litewayd_start_def start_from_disk_def read)
  with started_daemon_matches_files [OF this] show ?thesis by (auto simp: read)
qed

end
