(* ===== verification/Connect.thy ===== *)
theory Connect
  imports Delivery Frag_Assembly
begin

text \<open>
  Dialling a peer from end to end: \<open>start_handshake\<close> on one node, the datagrams it sends arriving at the
  other in any order, the answer's datagrams arriving back in any order, and the session both have then.
  It composes fragmentation and reassembly, the two handshake messages, and what a node does with them.
\<close>

declare map_of_eq_Some_iff [simp del] Some_eq_map_of_iff [simp del]

section \<open>Datagrams of one message\<close>

text \<open>The datagrams \<open>xs\<close> that arrive are those that were sent, \<open>ds\<close>: in any order and any of them
  repeatedly, and the last to arrive is the first to complete them.\<close>

definition arrival :: "bytes list \<Rightarrow> bytes list \<Rightarrow> bool" where
  "arrival ds xs \<longleftrightarrow> (\<exists>is i. xs = map ((!) ds) (is @ [i]) \<and> set is \<subseteq> {..<length ds} \<and> i < length ds
     \<and> \<not> {..<length ds} \<subseteq> set is \<and> {..<length ds} \<subseteq> insert i (set is))"

text \<open>In particular they may arrive in the order in which they were sent.\<close>

lemma arrival_self: "ds \<noteq> [] \<Longrightarrow> arrival ds ds"
  unfolding arrival_def
proof (intro exI [of _ "[0..<length ds - 1]"] exI [of _ "length ds - 1"] conjI)
  assume ne: "ds \<noteq> []"
  then have "[0..<length ds - 1] @ [length ds - 1] = [0..<length ds]" by (cases ds) auto
  then show "ds = map ((!) ds) ([0..<length ds - 1] @ [length ds - 1])" by (simp only: map_nth)
  show "\<not> {..<length ds} \<subseteq> set [0..<length ds - 1]" using ne by (auto simp: subset_iff intro!: exI [of _ "length ds - 1"])
  show "{..<length ds} \<subseteq> insert (length ds - 1) (set [0..<length ds - 1])" by auto
qed auto

text \<open>Feeding the assembler may read the monotonic clock and changes nothing else of the world.\<close>

definition later :: "world \<Rightarrow> world \<Rightarrow> bool" where
  "later w w' \<longleftrightarrow> (\<exists>m. w' = w\<lparr>mono := m\<rparr>)"

lemma later_refl [simp]: "later w w"
  unfolding later_def by (rule exI [of _ "mono w"]) simp

lemma later_trans: "later a b \<Longrightarrow> later b c \<Longrightarrow> later a c"
  by (auto simp: later_def)

lemma later_feed: "feed E a src d nk w = (r, a', w') \<Longrightarrow> later w w'"
  by (auto simp: feed_def Let_def split_beta instant_now_def later_def split: option.splits if_splits intro: exI [of _ "mono w"])

fun receive_all ::
  "ext \<Rightarrow> bool \<Rightarrow> Node \<Rightarrow> FragmentAssembler \<Rightarrow> SocketAddr \<Rightarrow> bytes list \<Rightarrow> world \<Rightarrow> (Node \<times> FragmentAssembler \<times> world) option" where
  "receive_all E tun n a src [] w = Some (n, a, w)"
| "receive_all E tun n a src (d # ds) w =
     Option.bind (handle_datagram E tun n a src d w) (\<lambda>(n, a, w). receive_all E tun n a src ds w)"

definition for_us :: "ext \<Rightarrow> Node \<Rightarrow> bytes \<Rightarrow> bool" where
  "for_us E n d \<longleftrightarrow> (\<exists>h. network_header E d (n_network_key n) = Some h \<and> \<not> for_other n h)"

lemma for_us_reassembles: "for_us E n d \<Longrightarrow> handle_datagram E tun n a src d w = reassemble_and_handle E tun n a src d w"
  by (auto simp: for_us_def handle_datagram_def)

lemma receive_all_run:
  assumes "run_outputs (feed_step E src (n_network_key n)) (a, w) xs = (replicate k Buffered @ [Complete m], a', w')"
    and "\<forall>d \<in> set xs. for_us E n d"
  shows "later w w' \<and> receive_all E tun n a src xs w = map_option (\<lambda>(n, w). (n, a', w)) (handle_packet E tun n src m w')"
  using assms
proof (induction xs arbitrary: k a w)
  case (Cons d xs)
  obtain r a1 w1 where f: "feed E a src d (n_network_key n) w = (r, a1, w1)" by (metis prod_cases3)
  then have s: "feed_step E src (n_network_key n) (a, w) d = (r, a1, w1)" by (simp add: feed_step_def)
  note h = for_us_reassembles [of E n d tun a src w]
  show ?case
  proof (cases k)
    case 0
    then have "r = Complete m" "a' = a1" "w' = w1" "xs = []"
      using Cons.prems(1) s by (cases xs; auto split: prod.splits)+
    then show ?thesis
      using f h Cons.prems(2) later_feed [OF f] by (cases "handle_packet E tun n src m w1") (auto simp: reassemble_and_handle_def)
  next
    case (Suc j)
    then have "r = Buffered" "run_outputs (feed_step E src (n_network_key n)) (a1, w1) xs = (replicate j Buffered @ [Complete m], a', w')"
      using Cons.prems(1) s by (auto split: prod.splits)
    moreover from this have "receive_all E tun n a src (d # xs) w = receive_all E tun n a1 src xs w1"
      using f h Cons.prems(2) by (simp add: reassemble_and_handle_def)
    ultimately show ?thesis using Cons.IH [of a1 w1 j] Cons.prems(2) later_trans [OF later_feed [OF f]] by auto
  qed
qed simp

text \<open>Every datagram of a message carries the id of the node it is for.\<close>

lemma send_chunks_headers:
  assumes "blake3_sized E" "aead_sized E" "aead_correct E" and "i + length cs \<le> t" "t \<le> 255"
    and "send_chunks E nk addr dst mid t i cs w = (r, w')" and "(d, x) \<in> set (drop (length (outbox w)) (outbox w'))"
  shows "\<exists>h. network_header E d nk = Some h \<and> dst_peer_id h = dst"
  using assms(4-7)
proof (induction cs arbitrary: i w)
  case (Cons c cs)
  let ?p = "KIND_HANDSHAKE_FRAG # u32_to_be_bytes mid @ [word_of_nat i, word_of_nat t] @ c"
  obtain m w1 where s: "seal_handshake_to_peer E nk ?p dst w = (m, w1)" by fastforce
  have "word_of_nat i < (word_of_nat t :: u8)" using Cons.prems(1,2) by (intro word_u8_less) simp_all
  then have h: "\<exists>h. network_header E m nk = Some h \<and> dst_peer_id h = dst" and w1: "outbox w1 = outbox w"
    using open_seal_frag [OF assms(1-3), of "word_of_nat i" "word_of_nat t" nk mid c dst w m w1] s
    by (auto simp: frag_plaintext_def draws_def same_outputs_def)
  obtain res w2 where st: "send_to m addr w1 = (res, w2)" by fastforce
  show ?case
  proof (cases res)
    case (Inl e)
    then have "outbox w' = outbox w" using Cons.prems(3) s st w1 by (auto simp: send_to_def Let_def split: if_splits)
    then show ?thesis using Cons.prems(4) by simp
  next
    case (Inr k)
    then have o: "outbox w2 = outbox w @ [(m, addr)]" using st w1 by (auto simp: send_to_def Let_def split: if_splits)
    have s2: "send_chunks E nk addr dst mid t (i + 1) cs w2 = (r, w')" using Cons.prems(3) s st Inr by (simp add: Let_def)
    obtain ds where "outbox w' = outbox w2 @ map (\<lambda>d. (d, addr)) ds"
      using send_chunks_outbox [OF assms(1-3) _ Cons.prems(2) s2] Cons.prems(1) by auto
    then have "(d, x) = (m, addr) \<or> (d, x) \<in> set (drop (length (outbox w2)) (outbox w'))" using Cons.prems(4) o by auto
    then show ?thesis using h Cons.IH [OF _ Cons.prems(2) s2] Cons.prems(1) by auto
  qed
qed simp

lemma message_datagrams:
  assumes "blake3_sized E" "aead_sized E" "aead_correct E"
    and "send_fragmented_with_id E data addr nk max_datagram dst mid w = (Inr (), w')"
  obtains ds where "outbox w' = outbox w @ map (\<lambda>d. (d, addr)) ds" "length ds = length (message_chunks max_datagram data)" "length ds \<le> 255"
    "\<forall>i<length ds. is_fragment E nk mid (length ds) i (message_chunks max_datagram data ! i) (ds ! i)"
    "\<forall>d\<in>set ds. \<exists>h. network_header E d nk = Some h \<and> dst_peer_id h = dst" "concat (message_chunks max_datagram data) = data"
proof -
  let ?cs = "message_chunks max_datagram data"
  have min: "MIN_DATAGRAM \<le> max_datagram"
    using assms(4) by (auto simp: send_fragmented_with_id_def split: if_splits)
  have len: "length ?cs \<le> 255"
    using assms(4) min by (auto simp: send_fragmented_with_id_def message_chunks_facts(2) [OF min] Let_def split: if_splits)
  have s: "send_chunks E nk addr dst mid (length ?cs) 0 ?cs w = (Inr (), w')"
    using send_with_id_sends [OF min len] assms(4) by simp
  have le: "0 + length ?cs \<le> length ?cs" by simp
  from send_chunks_outbox [OF assms(1-3) le len s]
  obtain ds where ds: "outbox w' = outbox w @ map (\<lambda>d. (d, addr)) ds" "length ds = length ?cs"
    "\<forall>j<length ds. is_fragment E nk mid (length ?cs) (0 + j) (?cs ! j) (ds ! j)" by blast
  have "\<exists>h. network_header E d nk = Some h \<and> dst_peer_id h = dst" if "d \<in> set ds" for d
    using send_chunks_headers [OF assms(1-3) le len s, of d addr] ds(1) that by simp
  then show thesis using that [OF ds(1,2)] ds len message_chunks_facts(1) [OF min, of data] by simp
qed

text \<open>A message that arrives at the node it is for is handled once, as a whole.\<close>

lemma message_received:
  assumes "asm_inv a" and "has_room a src cs" and "map_of (fa_pending a) (src, mid) = None" and "length cs \<le> 255" "length ds = length cs"
    and "\<forall>i<length cs. is_fragment E (n_network_key n) mid (length cs) i (cs ! i) (ds ! i)"
    and "\<forall>d \<in> set ds. for_us E n d" and "arrival ds xs"
  obtains w' where "later w w'" "receive_all E tun n a src xs w = map_option (\<lambda>(n, w). (n, a, w)) (handle_packet E tun n src (concat cs) w')"
proof -
  obtain "is" i where x: "xs = map ((!) ds) (is @ [i])" "set is \<subseteq> {..<length cs}" "i < length cs"
    "\<not> {..<length cs} \<subseteq> set is" "{..<length cs} \<subseteq> insert i (set is)"
    using assms(8) unfolding arrival_def assms(5) by blast
  obtain w' where "run_outputs (feed_step E src (n_network_key n)) (a, w) xs = (replicate (length is) Buffered @ [Complete (concat cs)], a, w')"
    using reassembles [OF assms(1,2,4,3,6) x(2,4,5,3)] x(1) by blast
  moreover have "\<forall>d \<in> set xs. for_us E n d" using x(1-3) assms(5,7) by (auto simp: subset_iff)
  ultimately show thesis using receive_all_run [of E src n a w xs] that by blast
qed

section \<open>How long the handshake messages are\<close>

lemma fill_len [simp]: "length (fst (fill_bytes k w)) = k"
  by (simp add: fill_bytes_def)

lemma padding_len: "length (fst (add_random_padding out w)) \<le> length out + 31"
proof -
  have "unat (b :: u8) mod 32 \<le> 31" for b using mod_less_divisor [of 32 "unat b"] by linarith
  then show ?thesis by (simp add: add_random_padding_def split_beta Let_def)
qed

lemma sealed_len:
  assumes "blake3_sized E" "aead_sized E"
  shows "length (fst (seal_handshake_with_header E nk pt dst sid w)) \<le> length pt + PACKET_OVERHEAD"
proof -
  have "length (snd (handshake_header_and_payload pt)) \<le> length pt"
    by (auto simp: handshake_header_and_payload_def split: if_splits list.splits)
  then show ?thesis
    using assms by (simp add: seal_handshake_with_header_def split_beta Let_def length_mask_network_header length_aead_encrypt packet_lens)
qed

text \<open>The longest either message can be, of a node with this certificate.\<close>

definition max_handshake_len :: "ext \<Rightarrow> Cert \<Rightarrow> nat" where
  "max_handshake_len E cert = 4656 + length (json_cert E cert) + PACKET_OVERHEAD"

lemma message_len:
  assumes "blake3_sized E" "aead_sized E" "length out + 31 + PACKET_OVERHEAD \<le> max_handshake_len E cert"
  shows "length (fst (seal_handshake_with_header E nk (fst (add_random_padding out w0)) dst sid w)) \<le> max_handshake_len E cert"
  using sealed_len [OF assms(1,2), of nk "fst (add_random_padding out w0)" dst sid w] padding_len [of out w0] assms(3) by simp

lemma handshake_1_len:
  assumes "blake3_sized E" "aead_sized E" "x25519_correct E" "mlkem_sized E" "signatures_correct E"
    and "create_handshake_1 E cert sk nk relay w = Some (ini, w')"
  shows "length (hi_msg ini) \<le> max_handshake_len E cert"
proof -
  obtain xs ks w0 where g: "generate_reusable_ephemeral E w = ((xs, x25519_public E xs, ks, mlkem_public E ks), w0)"
    using ephemeral_shape(1) by blast
  from assms(6) g obtain sid w1 where r: "random_session_id w0 = Some (sid, w1)"
    by (auto simp: create_handshake_1_def bind_eq_Some_conv)
  have l: "length (x25519_public E xs) = 32" "length (mlkem_public E ks) = 1184" using assms(3,4) by (auto simp: x25519_correct_def mlkem_sized_def)
  show ?thesis
    using assms(6) g r l
    by (auto simp: create_handshake_1_def Let_def split_beta intro!: message_len [OF assms(1,2)])
      (simp add: max_handshake_len_def put_vec_u32_def sign_node_lengths [OF assms(5)])
qed

lemma handshake_2_len:
  assumes "blake3_sized E" "aead_sized E" "x25519_correct E" "mlkem_sized E" "signatures_correct E"
    and "process_handshake_1 E data cert sk nk ca relay w = Some (Inr resp, w')"
  shows "length (hr_msg resp) \<le> max_handshake_len E cert"
proof -
  obtain pt hs1 w1 where p: "open_handshake E nk data = Some pt" "parse_handshake_1 E pt ca w = (Inr hs1, w1)"
    using assms(6) by (auto simp: process_handshake_1_def split: option.splits prod.splits sum.splits)
  then obtain sid w2 where r: "random_session_id w1 = Some (sid, w2)" and k: "mlkem_key_ok E (h1_eph_mlkem_pk hs1)"
    using assms(6) by (auto simp: process_handshake_1_def bind_eq_Some_conv split: if_splits)
  obtain xs ks w0 where g: "generate_ephemeral E w2 = ((xs, x25519_public E xs, ks, mlkem_public E ks), w0)"
    using ephemeral_shape(2) by blast
  have l: "length (x25519_public E xs) = 32" "length (fst (mlkem_encapsulate E pk rr)) = 1088" "length (blake3_hash E data) = 32" for pk rr
    using assms(1,3,4) by (auto simp: x25519_correct_def mlkem_sized_def blake3_sized_def)
  show ?thesis
    using assms(6) p g r k l
    by (auto simp: process_handshake_1_def Let_def split_beta intro!: message_len [OF assms(1,2)])
      (simp add: max_handshake_len_def put_vec_u32_def sign_node_lengths [OF assms(5)])
qed

section \<open>The headers of the handshake messages\<close>

lemma handshake_1_header:
  assumes "blake3_sized E" "aead_sized E" "aead_correct E" and "create_handshake_1 E cert sk nk relay w = Some (ini, w')"
  shows "network_header E (hi_msg ini) nk =
    Some \<lparr>kind = KIND_HANDSHAKE_1, frag_index = 0, frag_total = 0, dst_peer_id = 0, session_id = hi_my_rx_session_id ini\<rparr>"
proof -
  obtain rnd pad w1 where s: "let sm = hs1_signed E relay (unix w 0) rnd (hi_my_rx_session_id ini)
      (x25519_public E (hi_eph_x25519_sk ini)) (mlkem_public E (hi_eph_mlkem_sk ini)) cert
    in seal_handshake_with_header E nk (sm @ sig_ed25519 (sign_node E sk sm) @ sig_ml_dsa (sign_node E sk sm) @ pad)
         0 (hi_my_rx_session_id ini) w1 = (hi_msg ini, w')"
    using create_handshake_1_parts [OF assms(4)] by blast
  have "whole_plaintext (KIND_HANDSHAKE_1 # r)" for r by (simp add: whole_plaintext_def) (simp add: kind_defs)
  then show ?thesis
    using open_seal_whole(2) [OF assms(1-3) _ s [unfolded Let_def]] by (simp add: hs1_signed_def)
qed

lemma handshake_2_header:
  assumes "blake3_sized E" "aead_sized E" "aead_correct E" and "process_handshake_1 E data cert sk nk ca relay w = Some (Inr resp, w')"
  shows "network_header E (hr_msg resp) nk =
    Some \<lparr>kind = KIND_HANDSHAKE_2, frag_index = 0, frag_total = 0, dst_peer_id = 0, session_id = hr_peer_rx_session_id resp\<rparr>"
proof -
  obtain pt hs1 w1 where p: "open_handshake E nk data = Some pt" "parse_handshake_1 E pt ca w = (Inr hs1, w1)"
    using assms(4) by (auto simp: process_handshake_1_def split: option.splits prod.splits sum.splits)
  have whole: "whole_plaintext (KIND_HANDSHAKE_2 # r)" for r by (simp add: whole_plaintext_def) (simp add: kind_defs)
  have "network_header E (fst (seal_handshake_with_header E nk (fst (add_random_padding (KIND_HANDSHAKE_2 # r) v)) 0 sid v')) nk =
    Some \<lparr>kind = KIND_HANDSHAKE_2, frag_index = 0, frag_total = 0, dst_peer_id = 0, session_id = sid\<rparr>" for r v sid v'
    using open_seal_whole(2) [OF assms(1-3) whole prod.collapse [symmetric]] by (simp add: add_random_padding_def split_beta Let_def)
  then show ?thesis
    using assms(4) p by (auto simp: process_handshake_1_def Let_def split_beta put_vec_u32_def bind_eq_Some_conv split: if_splits)
qed

section \<open>The two ends\<close>

text \<open>A node with a certificate of the CA, whose handshake messages fit into 255 datagrams.\<close>

definition ready :: "ext \<Rightarrow> CaVerifyKey \<Rightarrow> Node \<Rightarrow> bool" where
  "ready E ca n \<longleftrightarrow> json_cert_ok E (n_cert n) \<and> issued E (n_cert n) ca \<and> holds_key E (n_cert n) (n_signing_key n)
   \<and> n_ca_vk n = ca \<and> n_our_id n = node_id_from_cert E (n_cert n)
   \<and> MIN_DATAGRAM \<le> n_max_datagram n \<and> max_handshake_len E (n_cert n) \<le> 255 * (n_max_datagram n - PACKET_OVERHEAD)"

text \<open>An assembler that holds nothing from this address yet and has room for a message of this length.\<close>

definition idle_for :: "FragmentAssembler \<Rightarrow> SocketAddr \<Rightarrow> nat \<Rightarrow> bool" where
  "idle_for a src k \<longleftrightarrow> asm_inv a \<and> list_all (\<lambda>((s, _), _). s \<noteq> src) (fa_pending a)
   \<and> length (fa_pending a) < MAX_PENDING_MESSAGES \<and> fa_buffered_bytes a + k \<le> MAX_BUFFERED_BYTES \<and> k \<le> MAX_BUFFERED_BYTES_PER_SOURCE"

lemma idle_sums: "list_all (\<lambda>((s, _), _). s \<noteq> src) (fa_pending a) \<Longrightarrow> src_messages src a = 0 \<and> src_bytes src a = 0"
  unfolding src_messages_def src_bytes_def hm_sum_def by (induction "fa_pending a" arbitrary: a) (auto simp: list_all_iff)

lemma idle_room:
  assumes "idle_for a src k" "length (concat cs) \<le> k"
  shows "asm_inv a" "has_room a src cs" "map_of (fa_pending a) (src, mid) = None"
  using assms idle_sums [of src a]
  by (auto simp: idle_for_def has_room_def MAX_PENDING_MESSAGES_PER_SOURCE_def list_all_iff map_of_eq_None_iff)

interpretation quiet: world_closed "\<lambda>w. outbox w = ob \<and> (\<forall>k. send_ok w k)" "{}"
  by unfold_locales (auto simp: draws_def same_outputs_def instant_now_def unix_now_def)

lemma fits_chunks:
  assumes "ready E ca n" "length m \<le> max_handshake_len E (n_cert n)"
  shows "length (message_chunks (n_max_datagram n) m) \<le> 255"
proof -
  let ?c = "n_max_datagram n - PACKET_OVERHEAD"
  have min: "MIN_DATAGRAM \<le> n_max_datagram n" and le: "length m \<le> 255 * ?c" using assms by (auto simp: ready_def)
  have "length m + ?c - 1 < 256 * ?c" using le min by (auto simp: MIN_DATAGRAM_def)
  from less_mult_imp_div_less [OF this] have "div_ceil (length m) ?c \<le> 255" unfolding div_ceil_def by linarith
  then show ?thesis by (simp add: message_chunks_facts(2) [OF min])
qed

lemma message_leaves:
  assumes "blake3_sized E" "aead_sized E" "aead_correct E" and "ready E ca n" "length m \<le> max_handshake_len E (n_cert n)" "\<forall>k. send_ok w k"
  obtains w' where "send_message_with_id E n m addr dst mid w = (True, w')"
    "send_fragmented_with_id E m addr (n_network_key n) (n_max_datagram n) dst mid w = (Inr (), w')"
proof -
  let ?cs = "message_chunks (n_max_datagram n) m"
  have min: "MIN_DATAGRAM \<le> n_max_datagram n" and len: "length ?cs \<le> 255"
    using assms(4) fits_chunks [OF assms(4,5)] by (auto simp: ready_def)
  obtain r w' where s: "send_chunks E (n_network_key n) addr dst mid (length ?cs) 0 ?cs w = (r, w')" by fastforce
  then have "r = Inr ()" using send_chunks_outbox [OF assms(1-3) _ len s] assms(6) by auto
  then have "send_fragmented_with_id E m addr (n_network_key n) (n_max_datagram n) dst mid w = (Inr (), w')"
    using s send_with_id_sends [OF min len] by simp
  then show thesis using that by (simp add: send_message_with_id_def)
qed

text \<open>The datagrams \<open>ds\<close> a node sends for a handshake message \<open>m\<close> reach another one: whatever their order,
  \<open>m\<close> is handled once.\<close>

definition carries :: "ext \<Rightarrow> bytes \<Rightarrow> nat \<Rightarrow> u32 \<Rightarrow> bytes \<Rightarrow> bytes list \<Rightarrow> bool" where
  "carries E nk k dst m ds \<longleftrightarrow> ds \<noteq> [] \<and> (\<forall>tun n a src xs w. n_network_key n = nk \<longrightarrow> (dst = 0 \<or> dst = n_our_id n) \<longrightarrow> idle_for a src k \<longrightarrow> arrival ds xs \<longrightarrow>
     (\<exists>w'. later w w' \<and> receive_all E tun n a src xs w = map_option (\<lambda>(n, w). (n, a, w)) (handle_packet E tun n src m w')))"

lemma carriesD:
  assumes "carries E nk k dst m ds" "n_network_key n = nk" "dst = 0 \<or> dst = n_our_id n" "idle_for a src k" "arrival ds xs"
  obtains w' where "later w w'" "receive_all E tun n a src xs w = map_option (\<lambda>(n, w). (n, a, w)) (handle_packet E tun n src m w')"
  using assms unfolding carries_def by blast

lemma message_carried:
  assumes "blake3_sized E" "aead_sized E" "aead_correct E" "length m \<le> k"
    and "send_fragmented_with_id E m addr nk max_datagram dst mid w = (Inr (), w')"
  obtains ds where "outbox w' = outbox w @ map (\<lambda>d. (d, addr)) ds" "carries E nk k dst m ds"
proof -
  obtain ds where d: "outbox w' = outbox w @ map (\<lambda>d. (d, addr)) ds" "length ds = length (message_chunks max_datagram m)" "length ds \<le> 255"
    "\<forall>i<length ds. is_fragment E nk mid (length ds) i (message_chunks max_datagram m ! i) (ds ! i)"
    "\<forall>d\<in>set ds. \<exists>h. network_header E d nk = Some h \<and> dst_peer_id h = dst" "concat (message_chunks max_datagram m) = m"
    using message_datagrams [OF assms(1-3,5)] by blast
  have "\<exists>v'. later v v' \<and> receive_all E tun n a src xs v = map_option (\<lambda>(n, w). (n, a, w)) (handle_packet E tun n src m v')"
    if n: "n_network_key n = nk" "dst = 0 \<or> dst = n_our_id n" and a: "idle_for a src k" and x: "arrival ds xs" for tun n a src xs v
  proof -
    have le: "length (concat (message_chunks max_datagram m)) \<le> k" using d(6) assms(4) by simp
    have us: "\<forall>d \<in> set ds. for_us E n d" using d(5) n by (auto simp: for_us_def for_other_def)
    show ?thesis
      using message_received [OF idle_room [OF a le] _ d(2) _ us x, of mid v tun] d(2-4,6) n(1) by metis
  qed
  moreover have "0 < length ds"
    using d(2) message_chunks_facts(2) [of max_datagram m] assms(5) by (auto simp: send_fragmented_with_id_def split: if_splits)
  ultimately show thesis using that [OF d(1)] unfolding carries_def by blast
qed

section \<open>Dialling\<close>

text \<open>What the node that is dialled needs at the time: room to reassemble the message, a socket that
  sends and a living generator, a clock within 300 seconds of the other's, an unknown digest, and that
  the one encapsulation it draws is decapsulated correctly.\<close>

definition can_answer ::
  "ext \<Rightarrow> Node \<Rightarrow> HandshakeInitiate \<Rightarrow> world \<Rightarrow> Node \<Rightarrow> FragmentAssembler \<Rightarrow> SocketAddr \<Rightarrow> world \<Rightarrow> bool" where
  "can_answer E nA ini wA nB aB srcA wB \<longleftrightarrow> idle_for aB srcA (max_handshake_len E (n_cert nA)) \<and> rng_live wB \<and> (\<forall>k. send_ok wB k)
   \<and> within_skew (unix wA 0) (unix wB 0) \<and> in_validity E (n_cert nA) (unix wB 1)
   \<and> (\<forall>t. HandshakeCache_get (n_handshake_cache nB) (blake3_hash E (hi_msg ini)) t = None)
   \<and> (\<forall>w r. later wB w \<longrightarrow> kem_draw E (hi_msg ini) (n_network_key nA) (n_ca_vk nA) w = Some r \<longrightarrow> kem_agrees E (hi_eph_mlkem_sk ini) r)"

text \<open>What the dialling node needs when the answer comes: room, its clock, and that the certificate is still valid.\<close>

definition can_finish :: "ext \<Rightarrow> Node \<Rightarrow> world \<Rightarrow> FragmentAssembler \<Rightarrow> SocketAddr \<Rightarrow> world \<Rightarrow> bool" where
  "can_finish E nB wB aA srcB wC \<longleftrightarrow> idle_for aA srcB (max_handshake_len E (n_cert nB))
   \<and> within_skew (unix wB 2) (unix wC 0) \<and> in_validity E (n_cert nB) (unix wC 1)"

lemma dial_starts:
  assumes "blake3_sized E" "aead_sized E" "aead_correct E" "x25519_correct E" "mlkem_sized E" "signatures_correct E"
    and "ready E ca nA" "rng_live wA" "\<forall>k. send_ok wA k" "list_all (\<lambda>(_, h). \<not> handshake_duplicate addr pid h) (n_pending nA)"
  obtains ini w' t wA1 ds where "create_handshake_1 E (n_cert nA) (n_signing_key nA) (n_network_key nA) (n_am_relay nA) wA = Some (ini, w')"
    "start_handshake E nA addr pid name wA = Some (True, nA\<lparr>n_pending :=
       AList.update (hi_my_rx_session_id ini) (PendingHandshake_new ini addr pid name t) (n_pending nA)\<rparr>, wA1)"
    "outbox wA1 = outbox wA @ map (\<lambda>d. (d, addr)) ds"
    "carries E (n_network_key nA) (max_handshake_len E (n_cert nA)) (case pid of None \<Rightarrow> 0 | Some i \<Rightarrow> i) (hi_msg ini) ds"
proof -
  obtain ini w' where c: "create_handshake_1 E (n_cert nA) (n_signing_key nA) (n_network_key nA) (n_am_relay nA) wA = Some (ini, w')"
    using create_handshake_1_returns [OF assms(8)] by blast
  have w': "outbox w' = outbox wA" "\<forall>k. send_ok w' k" using quiet.created [OF _ c, of "outbox wA"] assms(9) by auto
  note len = handshake_1_len [OF assms(1,2,4-6) c]
  let ?dst = "case pid of None \<Rightarrow> 0 | Some i \<Rightarrow> i"
  obtain w2 where s: "send_message_with_id E nA (hi_msg ini) addr ?dst (hi_my_rx_session_id ini) w' = (True, w2)"
    and f: "send_fragmented_with_id E (hi_msg ini) addr (n_network_key nA) (n_max_datagram nA) ?dst (hi_my_rx_session_id ini) w' = (Inr (), w2)"
    using message_leaves [OF assms(1-3,7) len w'(2)] by blast
  obtain ds where "outbox w2 = outbox w' @ map (\<lambda>d. (d, addr)) ds"
    "carries E (n_network_key nA) (max_handshake_len E (n_cert nA)) ?dst (hi_msg ini) ds"
    using message_carried [OF assms(1-3) len f] by blast
  moreover have "start_handshake E nA addr pid name wA = Some (True, nA\<lparr>n_pending :=
       AList.update (hi_my_rx_session_id ini) (PendingHandshake_new ini addr pid name (fst (instant_now w2))) (n_pending nA)\<rparr>, snd (instant_now w2))"
    using assms(10) c s by (auto simp: start_handshake_def Let_def split_beta list_all_iff list_ex_iff)
  ultimately show thesis using that [OF c] w'(1) by (simp add: instant_now_def)
qed

text \<open>Besides adding the peer, the responder sends its answer.\<close>

lemma log_routes_quiet: "outbox (log_routes E cmd i rs w) = outbox w" "send_ok (log_routes E cmd i rs w) = send_ok w"
proof -
  have "outbox (fold (\<lambda>r. log_route (f r)) rs w) = outbox w \<and> send_ok (fold (\<lambda>r. log_route (f r)) rs w) = send_ok w" for f
    by (induction rs arbitrary: w) (simp_all add: log_route_def)
  then show "outbox (log_routes E cmd i rs w) = outbox w" "send_ok (log_routes E cmd i rs w) = send_ok w"
    by (simp_all add: log_routes_def split: option.split)
qed

lemma add_peer_quiet:
  "outbox (snd (snd (add_peer E n pid key cert addr direct relayed relay tx rx ini sim w))) = outbox w"
  "send_ok (snd (snd (add_peer E n pid key cert addr direct relayed relay tx rx ini sim w))) = send_ok w"
  by (simp_all add: add_peer_def Let_def split_beta log_routes_quiet instant_now_def)

lemma handshake_1_sends:
  assumes "HandshakeCache_get (n_handshake_cache n) (blake3_hash E m) (fst (instant_now w)) = None"
    and "process_handshake_1 E m (n_cert n) (n_signing_key n) (n_network_key n) (n_ca_vk n) (n_am_relay n) (snd (instant_now w))
      = Some (Inr resp, w1)"
    and "node_id_from_cert E (hr_peer_cert resp) \<noteq> n_our_id n" and "\<forall>k. send_ok w k" and "handle_handshake_1 E n src m w = Some (n', w')"
  shows "\<exists>w2. outbox w2 = outbox w \<and> (\<forall>k. send_ok w2 k)
    \<and> snd (send_message_with_id E n' (hr_msg resp) src (node_id_from_cert E (hr_peer_cert resp)) (u32_from_be_bytes (take 4 (blake3_hash E m))) w2) = w'"
proof -
  have i: "outbox (snd (instant_now w)) = outbox w" "\<forall>k. send_ok (snd (instant_now w)) k" using assms(4) by (simp_all add: instant_now_def)
  have "outbox w1 = outbox w \<and> (\<forall>k. send_ok w1 k)"
    using quiet.processed_1 [OF _ assms(2), of "outbox w"] i by auto
  moreover have "\<exists>nn c d e b. let q = add_peer E nn (node_id_from_cert E (hr_peer_cert resp)) (hr_session_key resp) (hr_peer_cert resp) src c d
        (hr_peer_is_relay resp) (hr_peer_rx_session_id resp) (hr_my_rx_session_id resp) e b w1
      in n' = fst (snd q) \<and> w' = snd (send_message_with_id E (fst (snd q)) (hr_msg resp) src (node_id_from_cert E (hr_peer_cert resp))
        (u32_from_be_bytes (take 4 (blake3_hash E m))) (snd (snd q)))"
    using assms(1-3,5) unfolding handle_handshake_1_def Let_def split_beta
    by (simp del: split_paired_Ex) blast
  ultimately show ?thesis by (metis (no_types, lifting) add_peer_quiet)
qed

text \<open>The two nodes of a dial, with what is the same at both ends.\<close>

definition strangers :: "ext \<Rightarrow> CaVerifyKey \<Rightarrow> Node \<Rightarrow> Node \<Rightarrow> bool" where
  "strangers E ca nA nB \<longleftrightarrow> ready E ca nA \<and> ready E ca nB \<and> n_network_key nB = n_network_key nA \<and> n_our_id nA \<noteq> n_our_id nB
   \<and> peer_of nA (n_our_id nB) = None \<and> peer_of nB (n_our_id nA) = None"

lemma ready_with_peer: "ready E ca (with_peer E (n\<lparr>n_handshake_cache := c\<rparr>) pid p) \<longleftrightarrow> ready E ca n"
    "n_cert (with_peer E (n\<lparr>n_handshake_cache := c\<rparr>) pid p) = n_cert n"
  by (simp_all add: ready_def with_peer_def bind_lighthouse_def)

text \<open>The answer \<open>resp\<close> gives the initiator the responder's view of the session.\<close>

definition answered :: "ext \<Rightarrow> Node \<Rightarrow> Node \<Rightarrow> HandshakeInitiate \<Rightarrow> world \<Rightarrow> HandshakeResponse \<Rightarrow> bool" where
  "answered E nA nB ini wB resp \<longleftrightarrow>
     (\<forall>wC. within_skew (unix wB 2) (unix wC 0) \<and> in_validity E (n_cert nB) (unix wC 1) \<longrightarrow>
       (\<exists>res wC'. process_handshake_2 E (hr_msg resp) ini (n_network_key nA) (n_ca_vk nA) wC = (Inr res, wC')
         \<and> hres_session_key res = hr_session_key resp \<and> hres_my_rx_session_id res = hi_my_rx_session_id ini
         \<and> hres_peer_rx_session_id res = hr_my_rx_session_id resp \<and> hres_peer_cert res = n_cert nB))"

lemma dial_agrees:
  assumes "blake3_sized E" "aead_sized E" "aead_correct E" "x25519_correct E" "mlkem_sized E" "signatures_correct E"
    and "strangers E ca nA nB" "can_answer E nA ini wA nB aB srcA wB" "later wB w"
    and "create_handshake_1 E (n_cert nA) (n_signing_key nA) (n_network_key nA) (n_am_relay nA) wA = Some (ini, w0)"
  obtains resp w1 where
    "process_handshake_1 E (hi_msg ini) (n_cert nB) (n_signing_key nB) (n_network_key nB) (n_ca_vk nB) (n_am_relay nB) (snd (instant_now w)) = Some (Inr resp, w1)"
    "hr_peer_cert resp = n_cert nA" "hr_peer_rx_session_id resp = hi_my_rx_session_id ini"
    "answered E nA nB ini wB resp"
proof -
  let ?w = "snd (instant_now w)" and ?P = "\<lambda>w. process_handshake_1 E (hi_msg ini) (n_cert nB) (n_signing_key nB) (n_network_key nA) ca (n_am_relay nB) w"
  note st = assms(7) [unfolded strangers_def ready_def] and an = assms(8) [unfolded can_answer_def]
  have certA: "json_cert_ok E (n_cert nA)" "issued E (n_cert nA) ca" "holds_key E (n_cert nA) (n_signing_key nA)"
    and certB: "json_cert_ok E (n_cert nB)" "issued E (n_cert nB) ca" "holds_key E (n_cert nB) (n_signing_key nB)"
    and eq: "n_ca_vk nA = ca" "n_ca_vk nB = ca" "n_network_key nB = n_network_key nA" using st by auto
  have w: "unix ?w = unix wB" "later wB ?w" using assms(9) by (auto simp: later_def instant_now_def)
  have live: "rng_live ?w" "rng_live (snd (unix_now (snd (unix_now ?w))))"
    using an assms(9) by (auto simp: later_def instant_now_def rng_live_def unix_now_def)
  have clock: "within_skew (unix wA 0) (unix ?w 0)" "in_validity E (n_cert nA) (unix ?w 1)" using an w(1) by simp_all
  have kem: "kem_agrees E (hi_eph_mlkem_sk ini) r" if "kem_draw E (hi_msg ini) (n_network_key nA) ca ?w = Some r" for r
    using an w(2) that eq(1) by blast
  obtain pt where o: "open_handshake E (n_network_key nA) (hi_msg ini) = Some pt"
    and p: "parse_handshake_1 E pt ca ?w = (Inr \<lparr>h1_cert = n_cert nA, h1_rx_session_id = hi_my_rx_session_id ini,
      h1_eph_x25519_pk = x25519_public E (hi_eph_x25519_sk ini), h1_eph_mlkem_pk = mlkem_public E (hi_eph_mlkem_sk ini),
      h1_peer_is_relay = n_am_relay nA\<rparr>, snd (unix_now (snd (unix_now ?w))))"
    using parse_own_handshake_1 [OF assms(1-6) certA assms(10) clock] by blast
  obtain resp w1 where r: "?P ?w = Some (Inr resp, w1)" and c: "hr_peer_cert resp = n_cert nA" "hr_peer_rx_session_id resp = hi_my_rx_session_id ini"
    using process_handshake_1_answer [OF o p live(2), of "n_cert nB" "n_signing_key nB" "n_am_relay nB"] assms(5) by (auto simp: mlkem_sized_def)
  have "\<exists>res wC'. process_handshake_2 E (hr_msg resp) ini (n_network_key nA) ca wC = (Inr res, wC')
        \<and> hres_session_key res = hr_session_key resp \<and> hres_my_rx_session_id res = hi_my_rx_session_id ini
        \<and> hres_peer_rx_session_id res = hr_my_rx_session_id resp \<and> hres_peer_cert res = n_cert nB"
    if "within_skew (unix wB 2) (unix wC 0) \<and> in_validity E (n_cert nB) (unix wC 1)" for wC
    using handshake_agrees [OF assms(1-6) certA certB assms(10) clock live(1) _ _ kem, of wC "n_am_relay nB"] r that w(1) c(2) by auto
  then have "answered E nA nB ini wB resp" using eq(1) unfolding answered_def by blast
  then show thesis using that [OF _ c] r eq by simp
qed

lemma dial_answered:
  assumes "blake3_sized E" "aead_sized E" "aead_correct E" "x25519_correct E" "mlkem_sized E" "signatures_correct E"
    and "strangers E ca nA nB" "can_answer E nA ini wA nB aB srcA wB" "later wB w"
    and "create_handshake_1 E (n_cert nA) (n_signing_key nA) (n_network_key nA) (n_am_relay nA) wA = Some (ini, w0)"
  obtains resp :: HandshakeResponse and c pb w' ds where
    "handle_packet E tun nB srcA (hi_msg ini) w = Some (with_peer E (nB\<lparr>n_handshake_cache := c\<rparr>) (n_our_id nA) pb, w')"
    "fresh_peer E nB (n_our_id nA) (n_cert nA) (hr_session_key resp) (hi_my_rx_session_id ini) (hr_my_rx_session_id resp) pb"
    "outbox w' = outbox wB @ map (\<lambda>d. (d, srcA)) ds"
    "carries E (n_network_key nA) (max_handshake_len E (n_cert nB)) (n_our_id nA) (hr_msg resp) ds"
    "network_header E (hr_msg resp) (n_network_key nA) =
      Some \<lparr>kind = KIND_HANDSHAKE_2, frag_index = 0, frag_total = 0, dst_peer_id = 0, session_id = hi_my_rx_session_id ini\<rparr>"
    "answered E nA nB ini wB resp"
proof -
  note st = assms(7) [unfolded strangers_def] and ca = assms(8) [unfolded can_answer_def]
  obtain resp w1 where r: "process_handshake_1 E (hi_msg ini) (n_cert nB) (n_signing_key nB) (n_network_key nB) (n_ca_vk nB) (n_am_relay nB)
      (snd (instant_now w)) = Some (Inr resp, w1)"
    and c: "hr_peer_cert resp = n_cert nA" and sid: "hr_peer_rx_session_id resp = hi_my_rx_session_id ini"
    and fin: "answered E nA nB ini wB resp"
    using dial_agrees [OF assms] by blast
  have id: "node_id_from_cert E (hr_peer_cert resp) = n_our_id nA" "n_our_id nA \<noteq> n_our_id nB" using c st by (auto simp: ready_def)
  have none: "HandshakeCache_get (n_handshake_cache nB) (blake3_hash E (hi_msg ini)) (fst (instant_now w)) = None" using ca by blast
  have w: "outbox w = outbox wB" "\<forall>k. send_ok w k" using assms(9) ca by (auto simp: later_def)
  obtain cc pb w' where h: "handle_handshake_1 E nB srcA (hi_msg ini) w = Some (with_peer E (nB\<lparr>n_handshake_cache := cc\<rparr>) (n_our_id nA) pb, w')"
    and pb: "fresh_peer E nB (n_our_id nA) (n_cert nA) (hr_session_key resp) (hi_my_rx_session_id ini) (hr_my_rx_session_id resp) pb"
    using handshake_1_adds [OF none r id(1) [symmetric] id(2), of srcA] st c sid by auto
  let ?n = "with_peer E (nB\<lparr>n_handshake_cache := cc\<rparr>) (n_our_id nA) pb" and ?mid = "u32_from_be_bytes (take 4 (blake3_hash E (hi_msg ini)))"
  obtain w2 where w2: "outbox w2 = outbox w" "\<forall>k. send_ok w2 k" "snd (send_message_with_id E ?n (hr_msg resp) srcA (n_our_id nA) ?mid w2) = w'"
    using handshake_1_sends [OF none r _ w(2) h] id by auto
  have nk: "n_network_key ?n = n_network_key nA" using st by (simp add: with_peer_fields)
  have rdy: "ready E ca ?n" and cert: "n_cert ?n = n_cert nB" using st by (simp_all add: ready_with_peer)
  note len = handshake_2_len [OF assms(1,2,4-6) r]
  obtain w3 where s: "send_message_with_id E ?n (hr_msg resp) srcA (n_our_id nA) ?mid w2 = (True, w3)"
    and f: "send_fragmented_with_id E (hr_msg resp) srcA (n_network_key nA) (n_max_datagram ?n) (n_our_id nA) ?mid w2 = (Inr (), w3)"
    using message_leaves [OF assms(1-3) rdy _ w2(2), of "hr_msg resp"] len unfolding cert nk by blast
  obtain ds where ds: "outbox w3 = outbox w2 @ map (\<lambda>d. (d, srcA)) ds"
    "carries E (n_network_key nA) (max_handshake_len E (n_cert nB)) (n_our_id nA) (hr_msg resp) ds"
    using message_carried [OF assms(1-3) len f] by blast
  have "handle_packet E tun nB srcA (hi_msg ini) w = Some (?n, w')"
    using handshake_1_header [OF assms(1-3,10)] h st by (simp add: handle_packet_def)
  moreover have "outbox w' = outbox wB @ map (\<lambda>d. (d, srcA)) ds" using w2(1,3) s ds(1) w(1) by simp
  ultimately show thesis
    using that [OF _ pb _ ds(2)] handshake_2_header [OF assms(1-3) r] fin sid st by simp
qed

lemma dial_finishes:
  assumes "strangers E ca nA nB" "network_header E m (n_network_key nA) =
      Some \<lparr>kind = KIND_HANDSHAKE_2, frag_index = 0, frag_total = 0, dst_peer_id = 0, session_id = sid\<rparr>"
    and "map_of ps sid = Some h" "pred_option ((=) (n_our_id nB)) (ph_peer_id h)"
    and "process_handshake_2 E m (ph_initiate h) (n_network_key nA) (n_ca_vk nA) w = (Inr res, w1)" "hres_peer_cert res = n_cert nB"
  obtains pa w' where
    "handle_packet E tun (nA\<lparr>n_pending := ps\<rparr>) src m w = Some (with_peer E (nA\<lparr>n_pending := AList.delete sid ps\<rparr>) (n_our_id nB) pa, w')"
    "fresh_peer E nA (n_our_id nB) (n_cert nB) (hres_session_key res) (hres_peer_rx_session_id res) (hres_my_rx_session_id res) pa"
proof -
  have id: "n_our_id nB = node_id_from_cert E (hres_peer_cert res)" "peer_of (nA\<lparr>n_pending := ps\<rparr>) (n_our_id nB) = None"
    using assms(1,6) by (auto simp: strangers_def ready_def)
  from handshake_2_adds [of "nA\<lparr>n_pending := ps\<rparr>" sid h E m w res w1 "n_our_id nB" src] assms(3-6) id
  obtain pa where "fst (handle_handshake_2 E (nA\<lparr>n_pending := ps\<rparr>) src m sid w) = with_peer E (nA\<lparr>n_pending := AList.delete sid ps\<rparr>) (n_our_id nB) pa"
    "fresh_peer E (nA\<lparr>n_pending := ps\<rparr>) (n_our_id nB) (n_cert nB) (hres_session_key res) (hres_peer_rx_session_id res) (hres_my_rx_session_id res) pa"
    by auto
  moreover have "KIND_HANDSHAKE_2 \<noteq> KIND_HANDSHAKE_1" by (simp add: kind_defs)
  ultimately show thesis
    using that [of pa "snd (handle_handshake_2 E (nA\<lparr>n_pending := ps\<rparr>) src m sid w)"] assms(2)
    by (simp add: handle_packet_def fresh_peer_def prod_eq_iff)
qed

text \<open>Two nodes with one session: packets can flow both ways, each has the other's certificate and the
  routes it grants, and both directions start counting with an empty replay window.\<close>

definition connected :: "ext \<Rightarrow> Node \<Rightarrow> PeerState \<Rightarrow> Node \<Rightarrow> PeerState \<Rightarrow> bool" where
  "connected E nA pa nB pb \<longleftrightarrow> can_send nA pa nB pb \<and> can_send nB pb nA pa
   \<and> ps_cert pa = n_cert nB \<and> ps_cert pb = n_cert nA
   \<and> ps_routes pa = authorized_peer_routes E (n_cert nB) \<and> ps_routes pb = authorized_peer_routes E (n_cert nA)
   \<and> ps_tx_seq pa = 0 \<and> ps_tx_seq pb = 0 \<and> ps_rx_replay pa = ReplayWindow_new \<and> ps_rx_replay pb = ReplayWindow_new"

lemma fresh_connected:
  assumes "strangers E ca nA nB" and "fresh_peer E nA (n_our_id nB) (n_cert nB) key tx rx pa" "fresh_peer E nB (n_our_id nA) (n_cert nA) key rx tx pb"
  shows "connected E (with_peer E (nA\<lparr>n_pending := ps\<rparr>) (n_our_id nB) pa) pa (with_peer E (nB\<lparr>n_handshake_cache := cc\<rparr>) (n_our_id nA) pb) pb"
proof -
  have cert: "n_cert (with_peer E n pid p) = n_cert n" for n pid p by (simp add: with_peer_def bind_lighthouse_def)
  show ?thesis
    using assms with_peer_fields(2) [of E "nB\<lparr>n_handshake_cache := cc\<rparr>" "n_our_id nA" pb]
      with_peer_fields(2) [of E "nA\<lparr>n_pending := ps\<rparr>" "n_our_id nB" pa]
    by (simp add: connected_def can_send_def fresh_peer_def with_peer_fields strangers_def cert)
qed

lemma dial_second:
  assumes "strangers E ca nA nB" "answered E nA nB ini wB resp" "carries E (n_network_key nA) (max_handshake_len E (n_cert nB)) (n_our_id nA) (hr_msg resp) ds"
    and "network_header E (hr_msg resp) (n_network_key nA) =
      Some \<lparr>kind = KIND_HANDSHAKE_2, frag_index = 0, frag_total = 0, dst_peer_id = 0, session_id = hi_my_rx_session_id ini\<rparr>"
    and "fresh_peer E nB (n_our_id nA) (n_cert nA) (hr_session_key resp) (hi_my_rx_session_id ini) (hr_my_rx_session_id resp) pb"
    and "map_of ps (hi_my_rx_session_id ini) = Some h" "ph_initiate h = ini" "pred_option ((=) (n_our_id nB)) (ph_peer_id h)"
    and "arrival ds ys" "can_finish E nB wB aA srcB wC"
  shows "\<exists>nA2 wC1 pa. receive_all E tun (nA\<lparr>n_pending := ps\<rparr>) aA srcB ys wC = Some (nA2, aA, wC1)
    \<and> connected E nA2 pa (with_peer E (nB\<lparr>n_handshake_cache := cc\<rparr>) (n_our_id nA) pb) pb"
proof -
  obtain v where v: "later wC v" and rA: "receive_all E tun (nA\<lparr>n_pending := ps\<rparr>) aA srcB ys wC =
      map_option (\<lambda>(n, w). (n, aA, w)) (handle_packet E tun (nA\<lparr>n_pending := ps\<rparr>) srcB (hr_msg resp) v)"
    using carriesD [OF assms(3) _ _ _ assms(9), of "nA\<lparr>n_pending := ps\<rparr>" aA srcB wC tun] assms(10) by (auto simp: can_finish_def)
  have "unix v = unix wC" using v by (auto simp: later_def)
  then obtain res v1 where res: "process_handshake_2 E (hr_msg resp) (ph_initiate h) (n_network_key nA) (n_ca_vk nA) v = (Inr res, v1)"
    "hres_session_key res = hr_session_key resp" "hres_my_rx_session_id res = hi_my_rx_session_id ini"
    "hres_peer_rx_session_id res = hr_my_rx_session_id resp" "hres_peer_cert res = n_cert nB"
    using assms(2,7,10) unfolding can_finish_def answered_def by metis
  obtain pa v2 where hA: "handle_packet E tun (nA\<lparr>n_pending := ps\<rparr>) srcB (hr_msg resp) v =
      Some (with_peer E (nA\<lparr>n_pending := AList.delete (hi_my_rx_session_id ini) ps\<rparr>) (n_our_id nB) pa, v2)"
    and pa: "fresh_peer E nA (n_our_id nB) (n_cert nB) (hres_session_key res) (hres_peer_rx_session_id res) (hres_my_rx_session_id res) pa"
    by (rule dial_finishes [OF assms(1,4,6,8) res(1,5)])
  from rA hA fresh_connected [OF assms(1) pa [unfolded res] assms(5)] show ?thesis
    by (intro exI [of _ "with_peer E (nA\<lparr>n_pending := AList.delete (hi_my_rx_session_id ini) ps\<rparr>) (n_our_id nB) pa"] exI [of _ v2] exI [of _ pa]) simp
qed

lemma dial_first:
  assumes "blake3_sized E" "aead_sized E" "aead_correct E" "x25519_correct E" "mlkem_sized E" "signatures_correct E"
    and "strangers E ca nA nB" "pred_option ((=) (n_our_id nB)) pid"
    and "create_handshake_1 E (n_cert nA) (n_signing_key nA) (n_network_key nA) (n_am_relay nA) wA = Some (ini, w0)"
    and "carries E (n_network_key nA) (max_handshake_len E (n_cert nA)) (case pid of None \<Rightarrow> 0 | Some i \<Rightarrow> i) (hi_msg ini) ds"
    and "map_of ps (hi_my_rx_session_id ini) = Some h" "ph_initiate h = ini" "ph_peer_id h = pid"
    and "arrival ds xs" "can_answer E nA ini wA nB aB srcA wB"
  shows "\<exists>nB1 wB1 ds2. receive_all E tunB nB aB srcA xs wB = Some (nB1, aB, wB1)
    \<and> outbox wB1 = outbox wB @ map (\<lambda>d. (d, srcA)) ds2 \<and> ds2 \<noteq> []
    \<and> (\<forall>ys aA srcB wC. arrival ds2 ys \<and> can_finish E nB wB aA srcB wC \<longrightarrow>
        (\<exists>nA2 wC1 pa pb. receive_all E tunA (nA\<lparr>n_pending := ps\<rparr>) aA srcB ys wC = Some (nA2, aA, wC1)
          \<and> connected E nA2 pa nB1 pb))"
proof -
  have "n_network_key nB = n_network_key nA" using assms(7) by (simp add: strangers_def)
  then obtain w where l: "later wB w"
    and rB: "receive_all E tunB nB aB srcA xs wB = map_option (\<lambda>(n, w). (n, aB, w)) (handle_packet E tunB nB srcA (hi_msg ini) w)"
    using carriesD [OF assms(10) _ _ _ assms(14), of nB aB srcA wB tunB] assms(8,15) by (cases pid) (auto simp: can_answer_def)
  obtain resp :: HandshakeResponse and cc pb wB1 ds2
    where hB: "handle_packet E tunB nB srcA (hi_msg ini) w = Some (with_peer E (nB\<lparr>n_handshake_cache := cc\<rparr>) (n_our_id nA) pb, wB1)"
    and pb: "fresh_peer E nB (n_our_id nA) (n_cert nA) (hr_session_key resp) (hi_my_rx_session_id ini) (hr_my_rx_session_id resp) pb"
    and out: "outbox wB1 = outbox wB @ map (\<lambda>d. (d, srcA)) ds2"
    and car: "carries E (n_network_key nA) (max_handshake_len E (n_cert nB)) (n_our_id nA) (hr_msg resp) ds2"
    and hd: "network_header E (hr_msg resp) (n_network_key nA) =
      Some \<lparr>kind = KIND_HANDSHAKE_2, frag_index = 0, frag_total = 0, dst_peer_id = 0, session_id = hi_my_rx_session_id ini\<rparr>"
    and an: "answered E nA nB ini wB resp"
    by (rule dial_answered [OF assms(1-7,15) l assms(9)])
  have "pred_option ((=) (n_our_id nB)) (ph_peer_id h)" using assms(8,13) by simp
  note fin = dial_second [OF assms(7) an car hd pb assms(11,12) this, of _ _ _ _ tunA cc]
  have "ds2 \<noteq> []" using car by (simp add: carries_def)
  with fin rB hB out show ?thesis
    by (intro exI [of _ "with_peer E (nB\<lparr>n_handshake_cache := cc\<rparr>) (n_our_id nA) pb"] exI [of _ wB1] exI [of _ ds2] conjI) (simp, simp, simp, blast)
qed

text \<open>C1. Dialling a node connects it, from the first datagram to the session. Let two nodes of one network that
  do not know each other have valid certificates of the one CA and a datagram size into which their
  handshakes fit. Then \<open>start_handshake\<close> succeeds: it files the first message \<open>ini\<close> that \<open>create_handshake_1\<close>
  makes of the same world among the pending handshakes and sends the datagrams \<open>ds\<close>, all to the dialled
  address. If these reach the other node in any order, any of them repeatedly, at a time at which it can
  answer this very message (\<open>can_answer\<close>: it has room and a working socket, holds no cached answer to it, the
  clocks agree and the key encapsulation succeeds), it sends the datagrams \<open>ds2\<close> back to
  where they came from; and if these reach the first node in any order, both nodes have the session:
  each end's sending key and session id are the other's receiving ones, each has the other's certificate
  and the routes it grants, and both count from zero with an empty replay window. Both assemblers are as
  before.\<close>

theorem dial_connects:
  assumes "blake3_sized E" "aead_sized E" "aead_correct E" "x25519_correct E" "mlkem_sized E" "signatures_correct E"
    and "strangers E ca nA nB" "pred_option ((=) (n_our_id nB)) pid"
    and "rng_live wA" "\<forall>k. send_ok wA k" "list_all (\<lambda>(_, h). \<not> handshake_duplicate addrB pid h) (n_pending nA)"
  shows "\<exists>ini w0 h nA1 wA1 ds. start_handshake E nA addrB pid name wA = Some (True, nA1, wA1)
    \<and> create_handshake_1 E (n_cert nA) (n_signing_key nA) (n_network_key nA) (n_am_relay nA) wA = Some (ini, w0)
    \<and> map_of (n_pending nA1) (hi_my_rx_session_id ini) = Some h \<and> ph_initiate h = ini
    \<and> outbox wA1 = outbox wA @ map (\<lambda>d. (d, addrB)) ds \<and> ds \<noteq> []
    \<and> (\<forall>xs aB srcA wB. arrival ds xs \<and> can_answer E nA ini wA nB aB srcA wB \<longrightarrow>
        (\<exists>nB1 wB1 ds2. receive_all E tunB nB aB srcA xs wB = Some (nB1, aB, wB1)
          \<and> outbox wB1 = outbox wB @ map (\<lambda>d. (d, srcA)) ds2 \<and> ds2 \<noteq> []
          \<and> (\<forall>ys aA srcB wC. arrival ds2 ys \<and> can_finish E nB wB aA srcB wC \<longrightarrow>
              (\<exists>nA2 wC1 pa pb. receive_all E tunA nA1 aA srcB ys wC = Some (nA2, aA, wC1)
                \<and> connected E nA2 pa nB1 pb))))"
proof -
  have rdy: "ready E ca nA" using assms(7) by (simp add: strangers_def)
  obtain ini w0 t wA1 ds where c: "create_handshake_1 E (n_cert nA) (n_signing_key nA) (n_network_key nA) (n_am_relay nA) wA = Some (ini, w0)"
    and start: "start_handshake E nA addrB pid name wA = Some (True, nA\<lparr>n_pending :=
       AList.update (hi_my_rx_session_id ini) (PendingHandshake_new ini addrB pid name t) (n_pending nA)\<rparr>, wA1)"
    and out: "outbox wA1 = outbox wA @ map (\<lambda>d. (d, addrB)) ds"
    and car: "carries E (n_network_key nA) (max_handshake_len E (n_cert nA)) (case pid of None \<Rightarrow> 0 | Some i \<Rightarrow> i) (hi_msg ini) ds"
    by (rule dial_starts [OF assms(1-6) rdy assms(9-11)])
  let ?h = "PendingHandshake_new ini addrB pid name t"
  let ?n = "nA\<lparr>n_pending := AList.update (hi_my_rx_session_id ini) ?h (n_pending nA)\<rparr>"
  have ph: "map_of (AList.update (hi_my_rx_session_id ini) ?h (n_pending nA)) (hi_my_rx_session_id ini) = Some ?h"
    "ph_initiate ?h = ini" "ph_peer_id ?h = pid" by (simp_all add: update_conv' PendingHandshake_new_def)
  have ne: "ds \<noteq> []" using car by (simp add: carries_def)
  have pn: "map_of (n_pending ?n) (hi_my_rx_session_id ini) = Some ?h" using ph(1) by simp
  note first = dial_first [OF assms(1-8) c car ph]
  show ?thesis
    by (rule exI [of _ ini], rule exI [of _ w0], rule exI [of _ ?h], rule exI [of _ ?n], rule exI [of _ wA1], rule exI [of _ ds],
        rule conjI [OF start], rule conjI [OF c], rule conjI [OF pn], rule conjI [OF ph(2)], rule conjI [OF out], rule conjI [OF ne])
      (intro allI impI, elim conjE, rule first)
qed

theorem dial_connects_witness:
  "\<exists>ini w0 nA1 wA1 ds nB1 wB1 ds2 nA2 wC1 pa pb.
      start_handshake demo_ext (demo_node demo_cert demo_sk) default_listen (Some 0x03000000) ''B'' demo_world = Some (True, nA1, wA1)
    \<and> create_handshake_1 demo_ext demo_cert demo_sk [1] False demo_world = Some (ini, w0)
    \<and> can_answer demo_ext (demo_node demo_cert demo_sk) ini demo_world (demo_node demo_cert2 demo_sk2) FragmentAssembler_new default_listen demo_world
    \<and> outbox wA1 = map (\<lambda>d. (d, default_listen)) ds
    \<and> receive_all demo_ext True (demo_node demo_cert2 demo_sk2) FragmentAssembler_new default_listen ds demo_world = Some (nB1, FragmentAssembler_new, wB1)
    \<and> outbox wB1 = map (\<lambda>d. (d, default_listen)) ds2
    \<and> receive_all demo_ext True nA1 FragmentAssembler_new default_listen ds2 demo_world = Some (nA2, FragmentAssembler_new, wC1)
    \<and> connected demo_ext nA2 pa nB1 pb"
proof -
  let ?A = "demo_node demo_cert demo_sk" and ?B = "demo_node demo_cert2 demo_sk2"
  have f: "n_cert (demo_node c k) = c" "n_signing_key (demo_node c k) = k" "n_network_key (demo_node c k) = [1]" "n_ca_vk (demo_node c k) = demo_ca"
    "n_peers (demo_node c k) = []" "n_handshake_cache (demo_node c k) = HandshakeCache_new" "n_pending (demo_node c k) = []"
    "n_max_datagram (demo_node c k) = DEFAULT_MAX_DATAGRAM" "\<not> n_am_relay (demo_node c k)" for c k
    by (simp_all add: demo_node_def new_node_def demo_daemon_config_def demo_config_def udp_payload_limit_def)
  have len: "max_handshake_len demo_ext demo_cert \<le> 5000" "max_handshake_len demo_ext demo_cert2 \<le> 5000"
    by (simp_all add: max_handshake_len_def packet_lens demo_ext_def)
  have st: "strangers demo_ext demo_ca ?A ?B"
    using len by (simp add: strangers_def ready_def f demo_node_ids demo_ids demo_identity demo_identity2 MIN_DATAGRAM_def DEFAULT_MAX_DATAGRAM_def packet_lens)
  have idle: "idle_for FragmentAssembler_new s k" if "k \<le> 5000" for s k
    using that by (simp add: idle_for_def asm_inv_def FragmentAssembler_new_def frag_limits src_messages_def src_bytes_def hm_sum_def)
  have pid: "pred_option ((=) (n_our_id ?B)) (Some 0x03000000)" by (simp add: demo_node_ids)
  have ok: "\<forall>k. send_ok demo_world k" "outbox demo_world = []" by (simp_all add: demo_world_def)
  have an: "can_answer demo_ext ?A ini demo_world ?B FragmentAssembler_new s demo_world" for ini s
    using idle [OF len(1)] ok(1) by (simp add: can_answer_def f demo_validity HandshakeCache_get_def HandshakeCache_new_def)
  have fin: "can_finish demo_ext ?B demo_world FragmentAssembler_new s demo_world" for s
    using idle [OF len(2)] by (simp add: can_finish_def f demo_validity demo_identity2)
  have np: "list_all (\<lambda>(_, h). \<not> handshake_duplicate default_listen (Some 0x03000000) h) (n_pending ?A)" by (simp add: f)
  note dial_connects [OF demo_blake3 demo_aead(2) demo_aead(1) demo_x25519 demo_mlkem(1) demo_signatures st pid demo_rng ok(1) np,
      of "''B''" True True]
  then obtain ini w0 nA1 wA1 ds where 0: "create_handshake_1 demo_ext demo_cert demo_sk [1] False demo_world = Some (ini, w0)"
    and 1: "start_handshake demo_ext ?A default_listen (Some 0x03000000) ''B'' demo_world = Some (True, nA1, wA1)"
      "outbox wA1 = map (\<lambda>d. (d, default_listen)) ds" "ds \<noteq> []"
    and more1: "\<forall>xs aB srcA wB. arrival ds xs \<and> can_answer demo_ext ?A ini demo_world ?B aB srcA wB \<longrightarrow>
        (\<exists>nB1 wB1 ds2. receive_all demo_ext True ?B aB srcA xs wB = Some (nB1, aB, wB1)
          \<and> outbox wB1 = outbox wB @ map (\<lambda>d. (d, srcA)) ds2 \<and> ds2 \<noteq> []
          \<and> (\<forall>ys aA srcB wC. arrival ds2 ys \<and> can_finish demo_ext ?B wB aA srcB wC \<longrightarrow>
              (\<exists>nA2 wC1 pa pb. receive_all demo_ext True nA1 aA srcB ys wC = Some (nA2, aA, wC1)
                \<and> connected demo_ext nA2 pa nB1 pb)))"
    using ok(2) by (elim exE conjE) (simp add: f)
  from more1 [rule_format, OF conjI [OF arrival_self [OF 1(3)] an], of default_listen]
  obtain nB1 wB1 ds2 where 2: "receive_all demo_ext True ?B FragmentAssembler_new default_listen ds demo_world = Some (nB1, FragmentAssembler_new, wB1)"
      "outbox wB1 = map (\<lambda>d. (d, default_listen)) ds2" "ds2 \<noteq> []"
    and more2: "\<forall>ys aA srcB wC. arrival ds2 ys \<and> can_finish demo_ext ?B demo_world aA srcB wC \<longrightarrow>
              (\<exists>nA2 wC1 pa pb. receive_all demo_ext True nA1 aA srcB ys wC = Some (nA2, aA, wC1)
                \<and> connected demo_ext nA2 pa nB1 pb)"
    using ok(2) by (elim exE conjE) simp
  from more2 [rule_format, OF conjI [OF arrival_self [OF 2(3)] fin], of default_listen] 0 1 2 an show ?thesis by meson
qed

end
