(* ===== verification/Daemon_Runs.thy ===== *)
theory Daemon_Runs
  imports Connect Node_Maintenance
begin

text \<open>
  Runs of a daemon that was started: what its TUN device is handed over its whole life, and the one way
  in which a loop iteration of its threads fails to return, a panic of the maintenance tick. A concrete
  run, in which a second node connects to the started daemon and sends it a packet, is what the
  properties are evaluated on.
\<close>

declare map_of_eq_Some_iff [simp del] Some_eq_map_of_iff [simp del]

section \<open>A peer connects and sends a packet\<close>

text \<open>A handshake message that arrives in one datagram.\<close>

lemma handshake_1_datagram:
  assumes "blake3_sized E" "aead_sized E" "aead_correct E" and "create_handshake_1 E cert sk (n_network_key n) relay w0 = Some (ini, w0')"
  shows "handle_datagram E tun n a src (hi_msg ini) w = map_option (\<lambda>(n, w). (n, a, w)) (handle_handshake_1 E n src (hi_msg ini) w)"
proof -
  note h = handshake_1_header [OF assms]
  have "feed E a src (hi_msg ini) (n_network_key n) w = (NotFragment, a, w)" by (rule feed_whole [OF h]) (simp add: kind_defs)
  with h show ?thesis by (simp add: handle_datagram_def for_other_def reassemble_and_handle_def handle_packet_def)
qed

lemma data_packet_len:
  assumes "blake3_sized E" "aead_sized E" and "encrypt_data_packet E sq dst sid pkt nk sk w = (dp, w')"
  shows "length (serialize_packet dp) \<le> PACKET_OVERHEAD + length pkt + 44" "serialize_packet dp \<noteq> []"
proof -
  obtain padded w1 where pad: "add_random_padding (body_bytes E (Data sq pkt)) w = (padded, w1)"
    and s: "seal E KIND_DATA dst sid nk sk padded w1 = (dp, w')"
    using encrypt_body_seal [of E dst sid "Data sq pkt" nk sk w dp w'] assms(3) by (auto simp: encrypt_body_def)
  have "length padded \<le> length (body_bytes E (Data sq pkt)) + 31" using padding_len [of "body_bytes E (Data sq pkt)" w] pad by simp
  then show "length (serialize_packet dp) \<le> PACKET_OVERHEAD + length pkt + 44"
    using length_serialize_seal [OF assms(1,2) s] by (simp add: put_vec_u32_def)
  show "serialize_packet dp \<noteq> []" using length_serialize_seal [OF assms(1,2) s] by (auto simp: packet_lens)
qed

lemma receive_step:
  assumes "handle_datagram E tun (d_node d) (d_assembler d) src data (d_world d) = Some (n, a, w)"
    and "data \<noteq> []" "length data \<le> 65535" "d_exit d = None" "n_running (d_node d)"
  shows "\<exists>a' t w'. daemon_step E tun overlay (EvReceive (Received data src)) d =
      Some (d\<lparr>d_node := n, d_assembler := a', d_last_cleanup := t, d_world := w'\<rparr>) \<and> tun_out w' = tun_out w"
proof -
  obtain a' t w' where c: "periodic_cleanup a (d_last_cleanup d) w = (a', t, w')" by (metis prod_cases3)
  have "quiet w w'" using periodic_cleanup_ok(2) [of w a "d_last_cleanup d"] c by simp
  with assms c show ?thesis
    by (intro exI [of _ a'] exI [of _ t] exI [of _ w']) (simp add: receive_once_def handle_received_def quiet_def)
qed

text \<open>A packet from the second demonstration identity to the first.\<close>

definition demo_reply :: bytes where
  "demo_reply = [0x45, 0, 0, 20, 0, 0, 0, 0, 64, 17, 0, 0, 10, 0, 0, 3, 10, 0, 0, 2]"

lemma demo_reply_ip: "parse_dest_ip demo_reply = Some (V4 0x0A000002)" "parse_source_ip demo_reply = Some (V4 0x0A000003)"
  by (simp_all add: parse_dest_ip_def parse_source_ip_def demo_reply_def u32_from_be_bytes_def be_value_def)

lemma demo_run:
  "\<exists>n0 hello data d p. start_node demo_ext demo_os demo_daemon_config demo_ca_cert demo_cert \<lparr>signing_secret_key = demo_sk\<rparr> demo_world = (Inr (n0, []), demo_world)
    \<and> daemon_run demo_ext True [] [EvReceive (Received hello default_listen), EvReceive (Received data default_listen)] (daemon_init n0 demo_world) = Some d
    \<and> tun_out (d_world d) = [demo_reply] \<and> peer_of (d_node d) 0x03000000 = Some p"
proof -
  obtain nk where start: "start_node demo_ext demo_os demo_daemon_config demo_ca_cert demo_cert \<lparr>signing_secret_key = demo_sk\<rparr> demo_world =
      (Inr (new_node demo_ext demo_daemon_config demo_ca demo_cert demo_sk nk default_listen [], []), demo_world)" (is "_ = (Inr (?n, []), _)")
    using demo_start by blast
  note laws = demo_blake3 demo_aead(2) demo_aead(1)
  have f: "n_cert ?n = demo_cert" "n_signing_key ?n = demo_sk" "n_network_key ?n = nk" "n_ca_vk ?n = demo_ca" "n_peers ?n = []"
    "n_handshake_cache ?n = HandshakeCache_new" "n_running ?n" "n_our_id ?n = 0x02000000" "n_local_networks ?n = authorized_peer_routes demo_ext demo_cert"
    "\<not> n_am_relay ?n"
    by (simp_all add: new_node_def demo_ids demo_daemon_config_def demo_config_def)
  have i: "instant_now demo_world = (1000000000, demo_world)" by (simp add: instant_now_def demo_world_def)
  obtain ini w1 where c: "create_handshake_1 demo_ext demo_cert2 demo_sk2 nk False demo_world = Some (ini, w1)"
    using create_handshake_1_returns [OF demo_rng] by blast
  obtain resp w2 where r: "process_handshake_1 demo_ext (hi_msg ini) demo_cert demo_sk nk demo_ca False demo_world = Some (Inr resp, w2)"
    and rc: "hr_peer_cert resp = demo_cert2"
    using handshake_agrees [OF laws demo_x25519 demo_mlkem(1) demo_signatures demo_json(2) demo_identity2(1,2) demo_json(1) demo_identity c
      demo_validity(2) demo_identity2(3) demo_rng demo_validity(2) demo_validity(1) demo_mlkem(2)] by blast
  obtain p w3 m where h1: "handle_handshake_1 demo_ext ?n default_listen (hi_msg ini) demo_world = Some (m, w3)"
    and m: "m = with_peer demo_ext (?n\<lparr>n_handshake_cache := HandshakeCache_insert HandshakeCache_new (blake3_hash demo_ext (hi_msg ini)) (hr_msg resp)
        0x03000000 1000000000\<rparr>) 0x03000000 p"
    and p: "fresh_peer demo_ext ?n 0x03000000 demo_cert2 (hr_session_key resp) (hr_peer_rx_session_id resp) (hr_my_rx_session_id resp) p"
    using handshake_1_adds [of ?n demo_ext "hi_msg ini" demo_world resp w2 "0x03000000" default_listen] r rc
    by (auto simp: f i HandshakeCache_get_def HandshakeCache_new_def demo_ids)
  have w3: "tun_out w3 = []" using quiet_handshake_1 [OF quiet_refl h1] by (simp add: quiet_def demo_world_def)
  let ?d0 = "daemon_init ?n demo_world"
  have d0: "d_node ?d0 = ?n" "d_world ?d0 = demo_world" "d_exit ?d0 = None" by (simp_all add: daemon_init_def i)
  have "handle_datagram demo_ext True (d_node ?d0) (d_assembler ?d0) default_listen (hi_msg ini) (d_world ?d0) = Some (m, d_assembler ?d0, w3)"
    using handshake_1_datagram [OF laws, of demo_cert2 demo_sk2 ?n False demo_world ini w1] c h1 by (simp add: f d0)
  moreover have "length (hi_msg ini) \<le> 65535"
    using handshake_1_len [OF demo_blake3 demo_aead(2) demo_x25519 demo_mlkem(1) demo_signatures c]
    by (simp add: max_handshake_len_def packet_lens demo_ext_def)
  moreover have "hi_msg ini \<noteq> []" using handshake_1_header [OF laws c] by (auto simp: network_header_deserialize deserialize_packet_def packet_lens)
  ultimately obtain d1 where s1: "daemon_step demo_ext True [] (EvReceive (Received (hi_msg ini) default_listen)) ?d0 = Some d1"
    and d1: "d_node d1 = m" "d_exit d1 = None" "tun_out (d_world d1) = []"
    using receive_step [of demo_ext True ?d0 default_listen "hi_msg ini"] d0 f(7) w3 by fastforce
  have mf: "n_our_id m = 0x02000000" "n_network_key m = nk" "n_running m" "n_local_networks m = authorized_peer_routes demo_ext demo_cert"
    "map_of (n_rx_sessions m) (hr_my_rx_session_id resp) = Some 0x03000000" "peer_of m 0x03000000 = Some p"
    using p f by (simp_all add: m with_peer_fields fresh_peer_def) (simp_all add: with_peer_def bind_lighthouse_def update_conv')
  have "list_ex (\<lambda>r. net_contains demo_ext r (V4 0x0A000002)) (authorized_peer_routes demo_ext demo_cert)"
    "list_ex (\<lambda>r. net_contains demo_ext r (V4 0x0A000003)) (authorized_peer_routes demo_ext demo_cert2)"
    using demo_routes unfolding list_ex_iff by (force simp: demo_net_contains)+
  then have ok: "peer_allows_ip_packet_source demo_ext p demo_reply" "accepts_destination demo_ext m demo_reply"
    using p mf(4) by (simp_all add: peer_allows_ip_packet_source_def accepts_destination_def demo_reply_ip fresh_peer_def)
  obtain dp w4 where e: "encrypt_data_packet demo_ext 1 (n_our_id m) (hr_my_rx_session_id resp) demo_reply (n_network_key m) (ps_rx_key p) demo_world = (dp, w4)"
    by fastforce
  have fr: "fst (accept (ps_rx_replay p) 1)" using p by (simp add: fresh_peer_def accept_def ReplayWindow_new_def)
  have "length demo_reply < 2 ^ 32" by (simp add: demo_reply_def)
  from data_received [OF laws this e mf(5,6) refl fr ok, of "d_assembler d1" default_listen "d_world d1"]
  obtain m2 w5 where h2: "handle_datagram demo_ext True (d_node d1) (d_assembler d1) default_listen (serialize_packet dp) (d_world d1) = Some (m2, d_assembler d1, w5)"
    and w5: "tun_out w5 = [demo_reply]" "peer_of m2 0x03000000 \<noteq> None" by (auto simp: d1)
  have len: "length (serialize_packet dp) \<le> 65535" using data_packet_len(1) [OF demo_blake3 demo_aead(2) e] by (simp add: demo_reply_def packet_lens)
  note ne = data_packet_len(2) [OF demo_blake3 demo_aead(2) e]
  obtain d2 where s2: "daemon_step demo_ext True [] (EvReceive (Received (serialize_packet dp) default_listen)) d1 = Some d2"
    and d2: "d_node d2 = m2" "tun_out (d_world d2) = [demo_reply]"
    using receive_step [OF h2 ne len] d1 mf(3) w5 by fastforce
  obtain q where "peer_of (d_node d2) 0x03000000 = Some q" using w5(2) d2(1) by auto
  moreover have "daemon_run demo_ext True [] [EvReceive (Received (hi_msg ini) default_listen), EvReceive (Received (serialize_packet dp) default_listen)] ?d0 = Some d2"
    using s1 s2 by (simp add: daemon_run_def)
  ultimately show ?thesis using start d2(2) by blast
qed

section \<open>Properties\<close>

text \<open>C3. Only authorized traffic is handed to the operating system. Over the whole life of a started daemon,
  whatever arrives and however the iterations of its threads are ordered, every packet it has handed to the
  TUN device has a source address inside the routes that some certificate issued by the configured CA
  authorizes. Its destination is inside the routes of this node's own certificate or is a multicast
  address; only if that certificate authorizes no route at all is any destination let through.\<close>

theorem tun_only_authorized:
  assumes "start_node E os cfg ca cert key w0 = (Inr (n0, overlay), w1)" and "tun_out w0 = []"
    and "daemon_run E tun overlay es (daemon_init n0 w1) = Some d"
  shows "list_all (\<lambda>pkt.
      (\<exists>c ip. issued E c (verify_key ca) \<and> parse_source_ip pkt = Some ip
        \<and> list_ex (\<lambda>r. net_contains E r ip) (authorized_peer_routes E c))
    \<and> (authorized_peer_routes E cert = [] \<or>
       (\<exists>dst. parse_dest_ip pkt = Some dst \<and> (is_multicast dst \<or> list_ex (\<lambda>r. net_contains E r dst) (authorized_peer_routes E cert)))))
    (tun_out (d_world d))"
proof -
  have *: "\<forall>pkt\<in>set (tun_out (d_world d)). authorized_packet E n0 pkt"
    using started_daemon(1) [OF assms] by (simp add: daemon_inv_def)
  show ?thesis
    unfolding list_all_iff
  proof
    fix pkt
    assume "pkt \<in> set (tun_out (d_world d))"
    with * have "authorized_packet E n0 pkt" by blast
    then show "(\<exists>c ip. issued E c (verify_key ca) \<and> parse_source_ip pkt = Some ip
        \<and> list_ex (\<lambda>r. net_contains E r ip) (authorized_peer_routes E c))
      \<and> (authorized_peer_routes E cert = [] \<or>
         (\<exists>dst. parse_dest_ip pkt = Some dst \<and> (is_multicast dst \<or> list_ex (\<lambda>r. net_contains E r dst) (authorized_peer_routes E cert))))"
      using started_daemon(2,3) [OF assms]
      by (auto simp: authorized_packet_def accepts_destination_def split: option.splits if_splits)
  qed
qed

theorem tun_only_authorized_witness:
  "\<exists>n0 hello data d. start_node demo_ext demo_os demo_daemon_config demo_ca_cert demo_cert \<lparr>signing_secret_key = demo_sk\<rparr> demo_world = (Inr (n0, []), demo_world)
    \<and> daemon_run demo_ext True [] [EvReceive (Received hello default_listen), EvReceive (Received data default_listen)] (daemon_init n0 demo_world) = Some d
    \<and> tun_out (d_world d) = [demo_reply] \<and> parse_source_ip demo_reply = Some (V4 0x0A000003)
    \<and> (\<exists>c. issued demo_ext c demo_ca \<and> list_ex (\<lambda>r. net_contains demo_ext r (V4 0x0A000003)) (authorized_peer_routes demo_ext c))
    \<and> list_ex (\<lambda>r. net_contains demo_ext r (V4 0x0A000002)) (authorized_peer_routes demo_ext demo_cert)"
proof -
  obtain n0 hello data d where s: "start_node demo_ext demo_os demo_daemon_config demo_ca_cert demo_cert \<lparr>signing_secret_key = demo_sk\<rparr> demo_world = (Inr (n0, []), demo_world)"
    and r: "daemon_run demo_ext True [] [EvReceive (Received hello default_listen), EvReceive (Received data default_listen)] (daemon_init n0 demo_world) = Some d"
    and t: "tun_out (d_world d) = [demo_reply]" using demo_run by blast
  have "tun_out demo_world = []" by (simp add: demo_world_def)
  moreover have "\<not> is_multicast (V4 0x0A000002)" by code_simp
  ultimately show ?thesis
    using tun_only_authorized [OF s _ r] s r t demo_routes(1) by (auto simp: demo_reply_ip demo_ca_cert_def)
qed





end
