(* ===== verification/Daemon_Types.thy ===== *)
theory Daemon_Types
  imports Daemon_Startup Daemon_Runs
begin

text \<open>
  The sizes that the source writes into its types. The model has byte strings of any length where the
  code has \<open>[u8; 32]\<close>, and association lists where it has hash maps; here it is shown that a running
  daemon only ever holds values the types of the code admit.
\<close>

declare map_of_eq_Some_iff [simp del] Some_eq_map_of_iff [simp del]

lemma peer_keys_sized: "blake3_sized E \<Longrightarrow> peer_ok E n pid p \<Longrightarrow> length (ps_tx_key p) = 32 \<and> length (ps_rx_key p) = 32"
  by (auto simp: peer_ok_def derive_traffic_key_def derive_labeled_key_def blake3_sized_def)

lemma started_limits:
  assumes "blake3_sized E" and "start_node E os cfg ca cert key w0 = (Inr (n0, overlay), w1)"
  shows "length (n_network_key n0) = 32" "MIN_DATAGRAM \<le> n_max_datagram n0 \<and> n_max_datagram n0 \<le> DEFAULT_MAX_DATAGRAM"
proof -
  show "length (n_network_key n0) = 32"
    by (rule start_node_ok [OF assms(2)]) (use assms(1) in \<open>auto simp: new_node_def derive_network_key_def blake3_sized_def\<close>)
  show "MIN_DATAGRAM \<le> n_max_datagram n0 \<and> n_max_datagram n0 \<le> DEFAULT_MAX_DATAGRAM"
    by (rule start_node_ok [OF assms(2)])
      (simp add: new_node_def udp_payload_limit_def MIN_DATAGRAM_def DEFAULT_MAX_DATAGRAM_def packet_lens Let_def split: option.split)
qed

lemma daemon_config_sizes:
  assumes "daemon_config n' = daemon_config n"
  shows "n_max_datagram n' = n_max_datagram n" "n_timings n' = n_timings n"
  using assms by (cases n; cases n'; simp add: node_config_def daemon_config_def)+

text \<open>The hash maps of a daemon have every key once.\<close>

definition maps_wf :: "daemon \<Rightarrow> bool" where
  "maps_wf d \<longleftrightarrow> hm_wf (n_peers (d_node d)) \<and> hm_wf (n_rx_sessions (d_node d)) \<and> hm_wf (n_pending (d_node d))
   \<and> hm_wf (n_discovery_pending (d_node d)) \<and> hm_wf (hc_entries (n_handshake_cache (d_node d))) \<and> hm_wf (fa_pending (d_assembler d))"

text \<open>C16. A running daemon holds well-typed values. In every state it can reach, whatever arrives, its network
  key and the traffic keys of every peer are 32 bytes long, as are the X25519 secrets of its pending
  handshakes, whose ML-KEM secrets have 64 bytes; its datagram limit lies between the smallest that
  carries a fragment and 1200; a message in reassembly has at most 255 slots, one of which is still
  empty, and its byte count is that of its slots; and every map has each key once.\<close>

theorem daemon_values_typed:
  assumes "blake3_sized E" and "start_node E os cfg ca cert key w0 = (Inr (n0, overlay), w1)" and "tun_out w0 = []"
    and "daemon_run E tun overlay es (daemon_init n0 w1) = Some d"
  shows "length (n_network_key (d_node d)) = 32
    \<and> MIN_DATAGRAM \<le> n_max_datagram (d_node d) \<and> n_max_datagram (d_node d) \<le> DEFAULT_MAX_DATAGRAM
    \<and> (\<forall>pid p. peer_of (d_node d) pid = Some p \<longrightarrow> length (ps_tx_key p) = 32 \<and> length (ps_rx_key p) = 32)
    \<and> (\<forall>sid h. map_of (n_pending (d_node d)) sid = Some h \<longrightarrow>
        length (hi_eph_x25519_sk (ph_initiate h)) = 32 \<and> length (hi_eph_mlkem_sk (ph_initiate h)) = 64)
    \<and> (\<forall>k m. map_of (fa_pending (d_assembler d)) k = Some m \<longrightarrow>
        length (pm_chunks m) \<le> 255 \<and> None \<in> set (pm_chunks m) \<and> pm_bytes m = chunks_len (pm_chunks m))
    \<and> maps_wf d"
proof -
  have inv: "daemon_config (d_node d) = daemon_config n0" "node_inv E (d_node d)" "asm_inv (d_assembler d)"
    using started_daemon(1) [OF assms(2-4)] by (simp_all add: daemon_inv_def)
  note cfg = daemon_config_fields(3) [OF inv(1)] daemon_config_sizes(1) [OF inv(1)] started_limits [OF assms(1,2)]
  have peers: "length (ps_tx_key p) = 32 \<and> length (ps_rx_key p) = 32" if "peer_of (d_node d) pid = Some p" for pid p
    using inv(2) that peer_keys_sized [OF assms(1)] unfolding node_inv_def sessions_inv_def by blast
  have pending: "length (hi_eph_x25519_sk (ph_initiate h)) = 32 \<and> length (hi_eph_mlkem_sk (ph_initiate h)) = 64"
    if "map_of (n_pending (d_node d)) sid = Some h" for sid h
    using inv(2) map_of_SomeD [OF that] by (auto simp: node_inv_def pending_inv_def initiate_sized_def MLKEM_SK_LEN_def)
  have asm: "length (pm_chunks m) \<le> 255 \<and> None \<in> set (pm_chunks m) \<and> pm_bytes m = chunks_len (pm_chunks m)"
    if "map_of (fa_pending (d_assembler d)) k = Some m" for k m
    using inv(3) map_of_SomeD [OF that] by (auto simp: asm_inv_def pending_ok_def)
  have "maps_wf d"
    using inv(2,3) by (simp add: maps_wf_def node_inv_def sessions_inv_def pending_inv_def cache_inv_def asm_inv_def)
  with cfg peers pending asm show ?thesis by simp
qed

theorem daemon_values_typed_witness:
  "\<exists>n0 hello data d p. start_node demo_ext demo_os demo_daemon_config demo_ca_cert demo_cert \<lparr>signing_secret_key = demo_sk\<rparr> demo_world = (Inr (n0, []), demo_world)
    \<and> daemon_run demo_ext True [] [EvReceive (Received hello default_listen), EvReceive (Received data default_listen)] (daemon_init n0 demo_world) = Some d
    \<and> peer_of (d_node d) 0x03000000 = Some p \<and> length (ps_tx_key p) = 32 \<and> length (n_network_key (d_node d)) = 32 \<and> maps_wf d"
proof -
  obtain n0 hello data d p where s: "start_node demo_ext demo_os demo_daemon_config demo_ca_cert demo_cert \<lparr>signing_secret_key = demo_sk\<rparr> demo_world = (Inr (n0, []), demo_world)"
    and r: "daemon_run demo_ext True [] [EvReceive (Received hello default_listen), EvReceive (Received data default_listen)] (daemon_init n0 demo_world) = Some d"
    and p: "peer_of (d_node d) 0x03000000 = Some p" using demo_run by blast
  have t: "tun_out demo_world = []" by (simp add: demo_world_def)
  from daemon_values_typed [OF demo_blake3 s t r] s r p show ?thesis by blast
qed

end
