(* ===== verification/Interleave.thy ===== *)
theory Interleave
  imports "HOL-Library.Multiset"
begin

text \<open>
  Threads that share a state. A thread is the list of atomic sections it still has to run, first one
  first; running a section changes the shared state and may put further sections in front of the rest
  of its thread. Nothing here is about the daemon: what a section is and what it does is a parameter.

  \<open>sched\<close> lets any thread that is not finished run its next section; \<open>solo\<close> runs one thread to its end.
  The locale \<open>ranked_threads\<close> shows that no schedule runs forever, \<open>pool_invariant\<close> that what every
  section keeps holds under every schedule. Both forget which thread a section belongs to and see the
  sections still to be run as one multiset, the pool.
\<close>

section \<open>Schedules\<close>

inductive sched :: "('a \<Rightarrow> 's \<Rightarrow> 'a list \<times> 's) \<Rightarrow> 'a list list \<times> 's \<Rightarrow> 'a list list \<times> 's \<Rightarrow> bool"
  for run :: "'a \<Rightarrow> 's \<Rightarrow> 'a list \<times> 's" where
  sched_run: "i < length ts \<Longrightarrow> ts ! i = a # as \<Longrightarrow> run a s = (more, s') \<Longrightarrow> sched run (ts, s) (ts[i := more @ as], s')"

inductive_cases schedE: "sched run (ts, s) c"

inductive_simps sched_one_iff: "sched run ([as], s) c"

inductive solo :: "('a \<Rightarrow> 's \<Rightarrow> 'a list \<times> 's) \<Rightarrow> 'a list \<Rightarrow> 's \<Rightarrow> 's \<Rightarrow> bool"
  for run :: "'a \<Rightarrow> 's \<Rightarrow> 'a list \<times> 's" where
  solo_done [intro!]: "solo run [] s s"
| solo_next: "run a s = (more, s1) \<Longrightarrow> solo run (more @ as) s1 s2 \<Longrightarrow> solo run (a # as) s s2"

inductive_simps solo_Nil [simp]: "solo run [] s s'"
inductive_cases solo_ConsE: "solo run (a # as) s s'"

definition finished :: "'a list list \<times> 's \<Rightarrow> bool" where
  "finished c \<longleftrightarrow> (\<forall>t \<in> set (fst c). t = [])"

definition pool :: "'a list list \<Rightarrow> 'a multiset" where
  "pool ts = mset (concat ts)"

section \<open>One thread alone\<close>

lemma solo_Cons: "solo run (a # as) s s' \<longleftrightarrow> solo run (fst (run a s) @ as) (snd (run a s)) s'"
  by (cases "run a s") (auto elim: solo_ConsE intro: solo_next)

lemma solo_deterministic: "solo run as s s1 \<Longrightarrow> solo run as s s2 \<Longrightarrow> s1 = s2"
proof (induction arbitrary: s2 rule: solo.induct)
  case (solo_next a s more s1 as s2')
  then show ?case by (simp add: solo_Cons)
qed simp

lemma solo_append: "solo run xs s s1 \<Longrightarrow> solo run ys s1 s2 \<Longrightarrow> solo run (xs @ ys) s s2"
  by (induction rule: solo.induct) (auto simp: solo_Cons)

lemma solo_append_iff: "solo run (xs @ ys) s s' \<longleftrightarrow> (\<exists>s1. solo run xs s s1 \<and> solo run ys s1 s')"
proof
  assume "solo run (xs @ ys) s s'"
  then show "\<exists>s1. solo run xs s s1 \<and> solo run ys s1 s'"
  proof (induction "xs @ ys" s s' arbitrary: xs rule: solo.induct)
    case (solo_next a s more s1 as s2)
    show ?case
    proof (cases xs)
      case Nil
      then show ?thesis using solo_next(1,2,4) by (auto intro: solo.solo_next)
    next
      case (Cons x xs')
      then show ?thesis using solo_next(1,4) solo_next(3) [of "more @ xs'"] by (auto intro: solo.solo_next)
    qed
  qed auto
qed (auto intro: solo_append)

lemma solo_iff: "solo run as s0 s1 \<Longrightarrow> solo run as s0 s \<longleftrightarrow> s = s1"
  using solo_deterministic by metis

text \<open>A section that stays where it is and changes nothing never gets done.\<close>

lemma solo_stuck: "run a s = ([a], s) \<Longrightarrow> \<not> solo run (a # as) s s'"
proof
  assume "solo run (a # as) s s'" and "run a s = ([a], s)"
  then show False by (induction "a # as" s s' rule: solo.induct) auto
qed

lemma solo_map: "(\<And>x s. solo run [f x] s (g x s)) \<Longrightarrow> solo run (map f xs) s (fold g xs s)"
proof (induction xs arbitrary: s)
  case (Cons x xs)
  from solo_append [OF Cons.prems Cons.IH [OF Cons.prems]] show ?case by simp
qed auto

text \<open>A thread that is scheduled without interruption, in whatever company, does what it does alone.\<close>

lemma sched_solo_prefix:
  assumes "solo run as s s'" and "i < length ts" and "ts ! i = as @ bs"
  shows "(sched run)\<^sup>*\<^sup>* (ts, s) (ts[i := bs], s')"
  using assms
proof (induction arbitrary: ts rule: solo.induct)
  case (solo_done s)
  then have "ts[i := bs] = ts" by (metis append_Nil list_update_id)
  then show ?case by simp
next
  case (solo_next a s more s1 as s2)
  then have "sched run (ts, s) (ts[i := more @ as @ bs], s1)" by (intro sched_run) simp_all
  moreover have "(sched run)\<^sup>*\<^sup>* (ts[i := more @ as @ bs], s1) (ts[i := bs], s2)"
    using solo_next.IH [of "ts[i := more @ as @ bs]"] solo_next.prems by simp
  ultimately show ?case by (rule converse_rtranclp_into_rtranclp)
qed

lemma sched_solo: "solo run as s s' \<Longrightarrow> i < length ts \<Longrightarrow> ts ! i = as \<Longrightarrow> (sched run)\<^sup>*\<^sup>* (ts, s) (ts[i := []], s')"
  using sched_solo_prefix [of run as s s' i ts "[]"] by simp

text \<open>Two threads: one of them runs its next section, or all it has left.\<close>

lemma sched_first_prefix: "solo run as s s' \<Longrightarrow> (sched run)\<^sup>*\<^sup>* ([as', bs], s') c \<Longrightarrow> (sched run)\<^sup>*\<^sup>* ([as @ as', bs], s) c"
  using sched_solo_prefix [of run as s s' 0 "[as @ as', bs]" as'] by (auto intro: rtranclp_trans)

lemma sched_first: "run a s = (more, s') \<Longrightarrow> (sched run)\<^sup>*\<^sup>* ([more @ as, bs], s') c \<Longrightarrow> (sched run)\<^sup>*\<^sup>* ([a # as, bs], s) c"
  using sched_run [of 0 "[a # as, bs]" a as run s more s'] by (auto intro: converse_rtranclp_into_rtranclp)

lemma sched_second_solo: "solo run bs s s' \<Longrightarrow> (sched run)\<^sup>*\<^sup>* ([as, []], s') c \<Longrightarrow> (sched run)\<^sup>*\<^sup>* ([as, bs], s) c"
  using sched_solo [of run bs s s' 1 "[as, bs]"] by (auto intro: rtranclp_trans)

lemma sched_first_solo: "solo run as s s' \<Longrightarrow> (sched run)\<^sup>*\<^sup>* ([as, []], s) ([[], []], s')"
  using sched_solo [of run as s s' 0 "[as, []]"] by auto

section \<open>The pool\<close>

lemma mset_concat_update:
  "i < length ts \<Longrightarrow> mset (concat (ts[i := t])) + mset (ts ! i) = mset (concat ts) + mset t"
proof (induction ts arbitrary: i)
  case (Cons u ts)
  then show ?case by (cases i) (auto simp: ac_simps)
qed simp

lemma sched_pool:
  assumes "sched run (ts, s) (ts', s')"
  obtains a more P where "pool ts = add_mset a P" "pool ts' = mset more + P" "run a s = (more, s')"
  using assms
proof (rule schedE)
  fix i a as more s''
  assume c: "(ts', s') = (ts[i := more @ as], s'')" "i < length ts" "ts ! i = a # as" "run a s = (more, s'')"
  have "a \<in> set (concat ts)" using c(2,3) by (auto simp: in_set_conv_nth intro!: bexI [of _ "ts ! i"])
  then have a: "pool ts = add_mset a (pool ts - {#a#})" by (simp add: pool_def)
  have "pool ts' + {#a#} = mset more + pool ts"
    using mset_concat_update [OF c(2), of "more @ as"] c by (simp add: pool_def ac_simps)
  then have "pool ts' = mset more + (pool ts - {#a#})"
    by (metis a add.assoc add_mset_add_single add_right_imp_eq)
  with a show thesis using that c by blast
qed

lemma finished_pool: "finished (ts, s) \<longleftrightarrow> pool ts = {#}"
  by (auto simp: finished_def pool_def)

lemma sched_progress: "\<not> finished c \<Longrightarrow> \<exists>c'. sched run c c'"
proof -
  assume "\<not> finished c"
  then obtain i where "i < length (fst c)" "fst c ! i \<noteq> []" by (auto simp: finished_def in_set_conv_nth)
  then show ?thesis
    by (cases c; cases "fst c ! i"; cases "run (hd (fst c ! i)) (snd c)") (auto intro: sched_run)
qed

text \<open>A ranking of the sections under which, as long as the state satisfies \<open>calm\<close>, a section only ever
  puts smaller ones into its thread.\<close>

locale ranked_threads =
  fixes run :: "'a \<Rightarrow> 's \<Rightarrow> 'a list \<times> 's"
    and rank :: "'a \<Rightarrow> nat"
    and calm :: "'s \<Rightarrow> bool"
  assumes calm_stays: "calm s \<Longrightarrow> run a s = (more, s') \<Longrightarrow> calm s'"
    and rank_falls: "calm s \<Longrightarrow> run a s = (more, s') \<Longrightarrow> b \<in> set more \<Longrightarrow> rank b < rank a"
begin

lemma sched_falls:
  assumes "calm (snd c)" and "sched run c c'"
  shows "(image_mset rank (pool (fst c')), image_mset rank (pool (fst c))) \<in> mult less_than" "calm (snd c')"
proof -
  obtain ts s ts' s' where c: "c = (ts, s)" "c' = (ts', s')" by fastforce
  with assms obtain a more P where p: "pool ts = add_mset a P" "pool ts' = mset more + P" "run a s = (more, s')"
    by (auto elim: sched_pool)
  then show "(image_mset rank (pool (fst c')), image_mset rank (pool (fst c))) \<in> mult less_than"
    using c assms(1) one_step_implies_mult [of "{#rank a#}" "image_mset rank (mset more)" less_than "image_mset rank P"] rank_falls
    by (auto simp: ac_simps)
  show "calm (snd c')" using p c assms(1) calm_stays by auto
qed

lemma sched_wf: "wfP (\<lambda>c' c. calm (snd c) \<and> sched run c c')"
proof -
  have "wf (inv_image (mult less_than) (\<lambda>c. image_mset rank (pool (fst c))))"
    by (intro wf_inv_image wf_mult wf_less_than)
  then show ?thesis
    unfolding wfp_def by (rule wf_subset) (use sched_falls(1) in \<open>auto simp: inv_image_def\<close>)
qed

lemma calm_schedule: "(sched run)\<^sup>*\<^sup>* c (ts, s) \<Longrightarrow> calm (snd c) \<Longrightarrow> calm s"
proof -
  have "(sched run)\<^sup>*\<^sup>* c c' \<Longrightarrow> calm (snd c) \<Longrightarrow> calm (snd c')" for c'
    by (induction rule: rtranclp_induct) (auto dest: sched_falls(2))
  then show "(sched run)\<^sup>*\<^sup>* c (ts, s) \<Longrightarrow> calm (snd c) \<Longrightarrow> calm s" by fastforce
qed

lemma no_infinite_schedule:
  assumes "calm (snd c)"
  shows "\<not> (\<exists>f. f 0 = c \<and> (\<forall>i. sched run (f i) (f (Suc i))))"
proof
  assume "\<exists>f. f 0 = c \<and> (\<forall>i. sched run (f i) (f (Suc i)))"
  then obtain f where f: "f 0 = c" "\<And>i. sched run (f i) (f (Suc i))" by blast
  have "calm (snd (f i))" for i by (induction i) (use f assms sched_falls(2) in auto)
  then have "\<forall>i. (f (Suc i), f i) \<in> {(c', c). calm (snd c) \<and> sched run c c'}" using f(2) by simp
  then show False using sched_wf unfolding wfp_def wf_iff_no_infinite_down_chain by blast
qed

text \<open>So every schedule can be carried to the end, and a run that is not at its end can go on.\<close>

lemma sched_finishes: "calm (snd c) \<Longrightarrow> \<exists>c'. (sched run)\<^sup>*\<^sup>* c c' \<and> finished c'"
proof (induction c rule: wfp_induct_rule [OF sched_wf])
  case (1 c)
  show ?case
  proof (cases "finished c")
    case False
    then obtain c1 where "sched run c c1" using sched_progress by blast
    with 1 sched_falls(2) show ?thesis by (meson converse_rtranclp_into_rtranclp)
  qed blast
qed

lemma solo_returns: assumes "calm s" shows "\<exists>s'. solo run as s s'"
proof -
  obtain ts s' where run: "(sched run)\<^sup>*\<^sup>* ([as], s) (ts, s')" "finished (ts, s')" using sched_finishes [of "([as], s)"] assms by auto
  have "length (fst c) = 1 \<and> solo run (hd (fst c)) (snd c) s'" if "(sched run)\<^sup>*\<^sup>* c (ts, s')" "length (fst c) = 1" for c
    using that
  proof (induction rule: converse_rtranclp_induct)
    case base
    then show ?case using run(2) by (cases ts) (auto simp: finished_def)
  next
    case (step c c1)
    obtain as1 s1 where c: "c = ([as1], s1)" using step.prems by (cases c; cases "fst c") auto
    with step show ?case by (auto simp: sched_one_iff solo_Cons)
  qed
  from this [OF run(1)] show ?thesis by auto
qed

end

text \<open>An invariant of the pool and the state that every section keeps.\<close>

locale pool_invariant =
  fixes run :: "'a \<Rightarrow> 's \<Rightarrow> 'a list \<times> 's"
    and inv :: "'a multiset \<Rightarrow> 's \<Rightarrow> bool"
  assumes inv_section: "inv (add_mset a P) s \<Longrightarrow> run a s = (more, s') \<Longrightarrow> inv (mset more + P) s'"
begin

lemma inv_sched: "sched run (ts, s) (ts', s') \<Longrightarrow> inv (pool ts) s \<Longrightarrow> inv (pool ts') s'"
  by (erule sched_pool) (auto dest: inv_section)

lemma inv_schedule:
  assumes "(sched run)\<^sup>*\<^sup>* (ts, s) (ts', s')" and "inv (pool ts) s"
  shows "inv (pool ts') s'"
  using assms by (induction rule: rtranclp_induct2) (auto intro: inv_sched)

lemma inv_finished:
  assumes "(sched run)\<^sup>*\<^sup>* (ts, s) (ts', s')" and "finished (ts', s')" and "inv (pool ts) s"
  shows "inv {#} s'"
  using inv_schedule [OF assms(1,3)] assms(2) by (simp add: finished_pool)

end

end
