(* ===== verification/Threads.thy ===== *)
theory Threads
  imports Interleave Node_Maintenance
begin

text \<open>
  The operations that the daemon's threads run on the shared node, split at the points where another
  thread may come in. The sources keep every table behind a lock of its own, take one lock at a time
  and release it before the next, so an operation is a sequence of atomic sections: what is done while
  one lock is held, with the local work up to the next lock. \<open>Node\<close> and \<open>Node_Recv\<close> run each operation
  as a unit; the receive path and the lighthouse round are in \<open>Recv_Threads\<close>; here \<open>add_peer\<close>, \<open>remove_peer\<close>, \<open>request_discovery\<close>, \<open>send_to_overlay\<close>,
  \<open>notify_shutdown\<close> and the whole maintenance tick are sections that the receive, maintenance and TUN
  threads interleave. Alone, a thread does exactly what the unit does. A tick whose path probe panics does
  nothing more; that the lock of the peers is poisoned from then on is not modelled.
\<close>

declare map_of_eq_Some_iff [simp del] Some_eq_map_of_iff [simp del]

section \<open>Sections\<close>

text \<open>The arguments of \<open>add_peer\<close>.\<close>

record add_args =
  aa_id :: u32
  aa_session_key :: bytes
  aa_cert :: Cert
  aa_addr :: SocketAddr
  aa_direct_addr :: "SocketAddr option"
  aa_relayed :: bool
  aa_is_relay :: bool
  aa_tx_session_id :: u32
  aa_rx_session_id :: u32
  aa_initiator_id :: u32
  aa_simultaneous :: bool

datatype sect =
    AddStart add_args
  | AddPeers add_args instant
  | AddSession "u32 option" u32 u32
  | AddRoutes "IpNetwork list" u32
  | AddKernelRoutes "IpNetwork list"
  | BindLighthouse SocketAddr string u32
  | RemovePeers u32
  | RemoveSession u32
  | RemoveRoutes u32
  | UnbindLighthouse u32
  | RemoveKernelRoutes "IpNetwork list"
  | Discover IpAddr
  | DiscoverTargets IpAddr
  | DiscoverQuery IpAddr u32
  | Outbound bytes "IpNetwork list"
  | OutboundSend u32 bytes
  | SendWire SocketAddr bytes
  | Shutdown
  | ShutdownSend "u32 \<times> PeerTx"
  | Tick
  | TickRelays instant
  | TickPending instant "(u32 \<times> SocketAddr) list"
  | TickResend Retransmission
  | TickPeers instant
  | TickDiscovery instant
  | TickCache instant

fun action_sect :: "action \<Rightarrow> sect" where
  "action_sect (ActSend addr wire) = SendWire addr wire"
| "action_sect (ActLookup ip) = Discover ip"

section \<open>What a section does\<close>

text \<open>The section of \<open>add_peer\<close> under the lock of \<open>peers\<close>: the choice between sessions, the entry, and
  what is left to do for the other tables.\<close>

definition add_peers_section :: "ext \<Rightarrow> add_args \<Rightarrow> instant \<Rightarrow> Node \<Rightarrow> sect list \<times> Node" where
  "add_peers_section E a now n =
     (let previous = peer_of n (aa_id a);
          rs = authorized_peer_routes E (aa_cert a)
      in if \<not> accept_handshake_session (n_our_id n) (aa_id a) (map_option ps_handshake_initiator_id previous)
               (aa_initiator_id a) (aa_simultaneous a)
         then ([], n)
         else ([AddSession (map_option ps_rx_session_id previous) (aa_rx_session_id a) (aa_id a), AddRoutes rs (aa_id a),
                AddKernelRoutes rs, BindLighthouse (aa_addr a) (meta_name (meta (body (aa_cert a)))) (aa_id a)],
               put_peer (aa_id a)
                 (new_peer E n (aa_id a) (aa_session_key a) (aa_cert a) (aa_addr a) (aa_direct_addr a) (aa_relayed a)
                    (aa_is_relay a) (aa_tx_session_id a) (aa_rx_session_id a) (aa_initiator_id a) now) n))"

text \<open>The section of \<open>remove_peer\<close> under the lock of \<open>peers\<close>.\<close>

definition remove_peers_section :: "u32 \<Rightarrow> Node \<Rightarrow> sect list \<times> Node" where
  "remove_peers_section pid n =
     (case peer_of n pid of
        None \<Rightarrow> ([], n)
      | Some p \<Rightarrow>
          ([RemoveSession (ps_rx_session_id p), RemoveRoutes pid, UnbindLighthouse pid, RemoveKernelRoutes (ps_routes p)],
           n\<lparr>n_peers := AList.delete pid (n_peers n)\<rparr>))"

definition discover_section :: "IpAddr \<Rightarrow> Node \<Rightarrow> world \<Rightarrow> sect list \<times> Node \<times> world" where
  "discover_section dst n w =
     (let (now, w) = instant_now w
      in if (case map_of (n_discovery_pending n) dst of None \<Rightarrow> False | Some asked \<Rightarrow> now - asked < DISCOVERY_RETRY)
         then ([], n, w)
         else ([DiscoverTargets dst], n\<lparr>n_discovery_pending := AList.update dst now (n_discovery_pending n)\<rparr>, w))"

definition outbound_section :: "ext \<Rightarrow> bytes \<Rightarrow> IpNetwork list \<Rightarrow> Node \<Rightarrow> sect list" where
  "outbound_section E pkt overlay n =
     (case parse_dest_ip pkt of
        None \<Rightarrow> []
      | Some dst \<Rightarrow>
          if is_multicast dst \<or> is_link_local dst then []
          else if is_overlay_broadcast E dst overlay then []
          else
            (case RouteTable_lookup E (n_routes n) dst of
               None \<Rightarrow> [Discover dst]
             | Some pid \<Rightarrow> [OutboundSend pid pkt]))"

definition outbound_send_section :: "ext \<Rightarrow> u32 \<Rightarrow> bytes \<Rightarrow> Node \<Rightarrow> world \<Rightarrow> Node \<times> world" where
  "outbound_send_section E pid pkt n w =
     (case peer_tx n pid of
        None \<Rightarrow> (n, w)
      | Some (tx, n) \<Rightarrow>
          let (p, w) = encrypt_data_packet E (tx_seq tx) pid (tx_session_id tx) pkt (n_network_key n) (tx_key tx) w
          in (n, send_wire (serialize_packet p) (tx_addr tx) w))"

definition shutdown_section :: "Node \<Rightarrow> sect list \<times> Node" where
  "shutdown_section n =
     (map ShutdownSend (map (\<lambda>(i, p). let (s, p') = next_seq p
         in (i, \<lparr>tx_addr = ps_addr p, tx_seq = s, tx_session_id = ps_tx_session_id p, tx_key = ps_tx_key p\<rparr>)) (n_peers n)),
      n\<lparr>n_peers := map (\<lambda>(i, p). (i, snd (next_seq p))) (n_peers n)\<rparr>)"

definition tick_pending_section :: "instant \<Rightarrow> (u32 \<times> SocketAddr) list \<Rightarrow> Node \<Rightarrow> sect list \<times> Node" where
  "tick_pending_section now relays n =
     (let alive = filter (\<lambda>(_, h). \<not> expired h now (n_timings n)) (n_pending n);
          stepped = map (\<lambda>(sid, h). (sid, retransmit_one relays now (n_timings n) h)) alive
      in (map TickResend (List.map_filter (\<lambda>(_, _, r). r) stepped),
          n\<lparr>n_pending := map (\<lambda>(sid, h, _). (sid, h)) stepped\<rparr>))"

fun run_sect :: "ext \<Rightarrow> sect \<Rightarrow> Node \<times> world \<Rightarrow> sect list \<times> Node \<times> world" where
  "run_sect E (AddStart a) (n, w) = (let (now, w) = instant_now w in ([AddPeers a now], n, w))"
| "run_sect E (AddPeers a now) (n, w) = (let (todo, n) = add_peers_section E a now n in (todo, n, w))"
| "run_sect E (AddSession old sid pid) (n, w) =
     (let sessions = (case old of None \<Rightarrow> n_rx_sessions n | Some prev \<Rightarrow> AList.delete prev (n_rx_sessions n))
      in ([], n\<lparr>n_rx_sessions := AList.update sid pid sessions\<rparr>, w))"
| "run_sect E (AddRoutes rs pid) (n, w) = ([], n\<lparr>n_routes := fold (\<lambda>r t. RouteTable_insert t r pid) rs (n_routes n)\<rparr>, w)"
| "run_sect E (AddKernelRoutes rs) (n, w) = ([], n, log_routes E RouteAdd (n_iface_name n) rs w)"
| "run_sect E (BindLighthouse addr name pid) (n, w) = ([], bind_lighthouse addr name pid n, w)"
| "run_sect E (RemovePeers pid) (n, w) = (let (todo, n) = remove_peers_section pid n in (todo, n, w))"
| "run_sect E (RemoveSession sid) (n, w) = ([], n\<lparr>n_rx_sessions := AList.delete sid (n_rx_sessions n)\<rparr>, w)"
| "run_sect E (RemoveRoutes pid) (n, w) = ([], n\<lparr>n_routes := RouteTable_remove_peer (n_routes n) pid\<rparr>, w)"
| "run_sect E (UnbindLighthouse pid) (n, w) =
     ([], n\<lparr>n_lighthouses := map (\<lambda>l. if ls_peer_id l = Some pid then l\<lparr>ls_peer_id := None\<rparr> else l) (n_lighthouses n)\<rparr>, w)"
| "run_sect E (RemoveKernelRoutes rs) (n, w) = ([], n, log_routes E RouteDel (n_iface_name n) rs w)"
| "run_sect E (Discover dst) (n, w) = discover_section dst n w"
| "run_sect E (DiscoverTargets dst) (n, w) = (map (DiscoverQuery dst) (List.map_filter ls_peer_id (n_lighthouses n)), n, w)"
| "run_sect E (DiscoverQuery dst pid) (n, w) = ([], query_loop E dst [pid] n w)"
| "run_sect E (Outbound pkt overlay) (n, w) = (outbound_section E pkt overlay n, n, w)"
| "run_sect E (OutboundSend pid pkt) (n, w) = ([], outbound_send_section E pid pkt n w)"
| "run_sect E (SendWire addr wire) (n, w) = ([], n, send_wire wire addr w)"
| "run_sect E Shutdown (n, w) = (let (todo, n) = shutdown_section n in (todo, n, w))"
| "run_sect E (ShutdownSend t) (n, w) = ([], n, send_disconnect E (n_network_key n) t w)"
| "run_sect E Tick (n, w) =
     (let (now, w) = instant_now w in ([TickRelays now, TickPeers now], n, w))"
| "run_sect E (TickRelays now) (n, w) =
     ([TickPending now (map (\<lambda>(i, p). (i, ps_addr p)) (filter (\<lambda>(_, p). ps_is_relay p) (n_peers n)))], n, w)"
| "run_sect E (TickPending now relays) (n, w) = (let (todo, n) = tick_pending_section now relays n in (todo, n, w))"
| "run_sect E (TickResend r) (n, w) = ([], n, send_retransmission E n r w)"
| "run_sect E (TickPeers now) (n, w) =
     (case maintain_loop E n now (n_peers n) w of
        None \<Rightarrow> ([], n, w)
      | Some (ps, drops, actions, w) \<Rightarrow>
          (map (\<lambda>(pid, _). RemovePeers pid) drops @ map action_sect actions @ [TickDiscovery now, TickCache now], n\<lparr>n_peers := ps\<rparr>, w))"
| "run_sect E (TickDiscovery now) (n, w) =
     ([], n\<lparr>n_discovery_pending := filter (\<lambda>(_, asked). now - asked < DISCOVERY_ENTRY_TTL) (n_discovery_pending n)\<rparr>, w)"
| "run_sect E (TickCache now) (n, w) = ([], n\<lparr>n_handshake_cache := HandshakeCache_cleanup (n_handshake_cache n) now\<rparr>, w)"

fun sect_rank :: "sect \<Rightarrow> nat" where
  "sect_rank (AddStart _) = 2"
| "sect_rank (AddPeers _ _) = 1"
| "sect_rank (RemovePeers _) = 1"
| "sect_rank (Discover _) = 2"
| "sect_rank (DiscoverTargets _) = 1"
| "sect_rank (Outbound _ _) = 3"
| "sect_rank Shutdown = 1"
| "sect_rank Tick = 4"
| "sect_rank (TickRelays _) = 2"
| "sect_rank (TickPending _ _) = 1"
| "sect_rank (TickPeers _) = 3"
| "sect_rank _ = 0"

section \<open>Every schedule ends\<close>

lemma action_sect_rank: "sect_rank (action_sect act) \<le> 2"
  by (cases act) simp_all

interpretation threads: ranked_threads "run_sect E" sect_rank "\<lambda>_. True" for E
proof (unfold_locales, simp)
  fix a s todo s' b
  assume "run_sect E a s = (todo, s')" and "b \<in> set todo"
  then show "sect_rank b < sect_rank a"
    using action_sect_rank le_less_trans
    by (cases "(E, a, s)" rule: run_sect.cases)
       (fastforce simp: Let_def split_beta add_peers_section_def remove_peers_section_def discover_section_def
          outbound_section_def shutdown_section_def tick_pending_section_def split: if_splits option.splits)+
qed

section \<open>One thread alone\<close>

abbreviation add_peer_args :: "ext \<Rightarrow> Node \<Rightarrow> add_args \<Rightarrow> world \<Rightarrow> AddPeerOutcome \<times> Node \<times> world" where
  "add_peer_args E n a w \<equiv>
     add_peer E n (aa_id a) (aa_session_key a) (aa_cert a) (aa_addr a) (aa_direct_addr a) (aa_relayed a) (aa_is_relay a)
       (aa_tx_session_id a) (aa_rx_session_id a) (aa_initiator_id a) (aa_simultaneous a) w"

lemma solo_add: "solo (run_sect E) [AddStart a] (n, w) (snd (add_peer_args E n a w))"
  by (simp add: solo_Cons add_peer_def add_peers_section_def Let_def split_beta put_peer_def bind_lighthouse_def
      split: option.splits)

lemma solo_remove: "solo (run_sect E) [RemovePeers pid] (n, w) (remove_peer E n pid w)"
  by (simp add: solo_Cons remove_peer_def remove_peers_section_def Let_def split: option.splits)

lemma query_loop_fold: "query_loop E dst pids n w = fold (\<lambda>pid (n, w). query_loop E dst [pid] n w) pids (n, w)"
proof (induction pids arbitrary: n w)
  case (Cons pid pids)
  show ?case by (simp add: Let_def split_beta Cons.IH split: option.splits)
qed simp

lemma solo_queries: "solo (run_sect E) (map (DiscoverQuery dst) pids) (n, w) (query_loop E dst pids n w)"
proof (subst query_loop_fold, rule solo_map)
  fix pid s
  show "solo (run_sect E) [DiscoverQuery dst pid] s ((\<lambda>(n, w). query_loop E dst [pid] n w) s)"
    by (cases s) (simp add: solo_Cons del: query_loop.simps)
qed

lemma solo_discover: "solo (run_sect E) [Discover dst] (n, w) (request_discovery E n dst w)"
  using solo_queries
  by (auto simp add: solo_Cons request_discovery_def discover_section_def Let_def split_beta)

lemma solo_outbound: "solo (run_sect E) [Outbound pkt overlay] (n, w) (send_to_overlay E n pkt overlay w)"
  using solo_discover [of E _ n w]
  by (simp add: solo_Cons send_to_overlay_def outbound_section_def outbound_send_section_def split: option.splits)

lemma solo_action: "solo (run_sect E) [action_sect act] s (do_action E act s)"
  using solo_discover by (cases act; cases s) (auto simp: solo_Cons)

lemma solo_shutdown: "solo (run_sect E) [Shutdown] (n, w) (notify_shutdown E n w)"
proof -
  have "solo (run_sect E) (map ShutdownSend ts) (m, w) (m, fold (send_disconnect E (n_network_key m)) ts w)" for ts m w
    by (induction ts arbitrary: w) (auto simp: solo_Cons)
  from this [of _ "n\<lparr>n_peers := map (\<lambda>(i, p). (i, snd (next_seq p))) (n_peers n)\<rparr>" w]
  show ?thesis
    by (simp add: solo_Cons [of _ Shutdown] shutdown_section_def notify_shutdown_def Let_def del: map_map)
qed

lemma solo_resend: "solo (run_sect E) (map TickResend rs) (n, w) (n, fold (send_retransmission E n) rs w)"
  by (induction rs arbitrary: w) (auto simp: solo_Cons)

lemma solo_retransmit: "solo (run_sect E) [TickRelays now] (n, w) (retransmit_handshakes E n now w)"
  using solo_resend
  by (auto simp: solo_Cons tick_pending_section_def retransmit_handshakes_def Let_def)

text \<open>What is left of \<open>maintain_peers\<close> once the lock on the peers is released.\<close>

lemma solo_drops:
  "solo (run_sect E) (map (\<lambda>(pid, _). RemovePeers pid) drops @ map action_sect acts) s
     (fold (do_action E) acts (fold (\<lambda>(pid, _) (n, w). remove_peer E n pid w) drops s))"
proof (rule solo_append)
  show "solo (run_sect E) (map (\<lambda>(pid, _). RemovePeers pid) drops) s (fold (\<lambda>(pid, _) (n, w). remove_peer E n pid w) drops s)"
    by (rule solo_map) (use solo_remove in \<open>auto split: prod.splits\<close>)
  show "solo (run_sect E) (map action_sect acts) s1 (fold (do_action E) acts s1)" for s1
    by (rule solo_map) (rule solo_action)
qed

lemma solo_maintain:
  assumes "maintain_peers E n now w = Some (n1, w1)"
  shows "solo (run_sect E) [TickPeers now] (n, w)
    (n1\<lparr>n_discovery_pending := filter (\<lambda>(_, asked). now - asked < DISCOVERY_ENTRY_TTL) (n_discovery_pending n1),
       n_handshake_cache := HandshakeCache_cleanup (n_handshake_cache n1) now\<rparr>, w1)"
proof -
  obtain ps drops acts w2 where l: "maintain_loop E n now (n_peers n) w = Some (ps, drops, acts, w2)"
    and f: "fold (do_action E) acts (fold (\<lambda>(pid, _) (n, w). remove_peer E n pid w) drops (n\<lparr>n_peers := ps\<rparr>, w2)) = (n1, w1)"
    using assms by (auto simp: maintain_peers_def Let_def bind_eq_Some_conv)
  note solo_append [OF solo_drops [of E drops acts "(n\<lparr>n_peers := ps\<rparr>, w2)", unfolded f], of "[TickDiscovery now, TickCache now]"]
  then show ?thesis by (simp add: solo_Cons [of _ "TickPeers now"] l) (simp add: solo_Cons)
qed

lemma solo_tick:
  assumes "maintenance_tick E n w = Some s"
  shows "solo (run_sect E) [Tick] (n, w) s"
proof -
  obtain now w1 where now: "instant_now w = (now, w1)" by fastforce
  obtain n2 w2 where r: "retransmit_handshakes E n now w1 = (n2, w2)" by fastforce
  obtain n3 w3 where m: "maintain_peers E n2 now w2 = Some (n3, w3)"
    using assms by (auto simp: maintenance_tick_def now r bind_eq_Some_conv)
  have "solo (run_sect E) ([TickRelays now] @ [TickPeers now]) (n, w1) s"
    by (rule solo_append [OF solo_retransmit [of E now n w1, unfolded r]])
      (use solo_maintain [OF m] assms in \<open>simp add: maintenance_tick_def now r m\<close>)
  then show ?thesis by (simp add: solo_Cons [of _ Tick] now)
qed

end
