(* ===== verification/Threads_Safety.thy ===== *)
theory Threads_Safety
  imports Threads
begin

text \<open>
  What holds of the shared tables under every schedule of the daemon's threads, and what does not. The
  peers stay certified and the routes backed by certificates; a peer's receive session id leads to it
  once the threads are done. What the code relies on and a schedule can break: that the peer
  \<open>remove_peer\<close> cleans up after is the peer it took out, and that the peer a maintenance tick drops is
  the one it found dead.
\<close>

declare map_of_eq_Some_iff [simp del] Some_eq_map_of_iff [simp del]

section \<open>What a section leaves alone\<close>

text \<open>The tables that decide who may send what, with the part of a peer that lasts as long as its session.\<close>

definition tables :: "Node \<Rightarrow> Node \<times> (u32 \<times> string \<times> Cert \<times> bytes \<times> bytes \<times> bool \<times> u32 \<times> u32 \<times> IpNetwork list \<times> u32) list
    \<times> (u32, u32) hashmap \<times> RouteTable" where
  "tables n = (node_config n, peer_view (n_peers n), n_rx_sessions n, n_routes n)"

fun quiet_sect :: "sect \<Rightarrow> bool" where
  "quiet_sect (AddPeers _ _) = False"
| "quiet_sect (AddSession _ _ _) = False"
| "quiet_sect (AddRoutes _ _) = False"
| "quiet_sect (RemovePeers _) = False"
| "quiet_sect (RemoveSession _) = False"
| "quiet_sect (RemoveRoutes _) = False"
| "quiet_sect _ = True"

lemma peer_view_map_static: "(\<And>p. peer_static (g p) = peer_static p) \<Longrightarrow> peer_view (map (\<lambda>(i, p). (i, g p)) ps) = peer_view ps"
  by (simp add: peer_view_def split_beta comp_def)

lemma tables_tx: "peer_tx n pid = Some (tx, n') \<Longrightarrow> tables n' = tables n"
  by (auto simp: peer_tx_def tables_def node_config_def put_peer_def Let_def split_beta static_simps peer_view_update split: option.splits)

lemma tables_node_simps:
  "tables (n\<lparr>n_pending := v1\<rparr>) = tables n"
  "tables (n\<lparr>n_discovery_pending := v2\<rparr>) = tables n"
  "tables (n\<lparr>n_handshake_cache := v3\<rparr>) = tables n"
  "tables (n\<lparr>n_lighthouses := v4\<rparr>) = tables n"
  by (simp_all add: tables_def node_config_def)

lemma tables_peers: "peer_view ps = peer_view (n_peers n) \<Longrightarrow> tables (n\<lparr>n_peers := ps\<rparr>) = tables n"
  by (simp add: tables_def node_config_def)

lemma quiet_tables:
  assumes "quiet_sect a" and "run_sect E a (n, w) = (todo, n', w')"
  shows "tables n' = tables n"
  using assms
  by (cases a)
     (auto simp: Let_def split_beta discover_section_def outbound_section_def outbound_send_section_def shutdown_section_def
        tick_pending_section_def bind_lighthouse_def tables_node_simps static_simps
        intro!: tables_peers peer_view_map_static dest!: tables_tx maintain_loop_view split: if_splits option.splits)

section \<open>Certificates under every schedule\<close>

definition route_backed :: "ext \<Rightarrow> CaVerifyKey \<Rightarrow> IpNetwork \<Rightarrow> u32 \<Rightarrow> bool" where
  "route_backed E vk net pid \<longleftrightarrow>
     (\<exists>cert. issued E cert vk \<and> node_id_from_cert E cert = pid \<and> net \<in> set (authorized_peer_routes E cert))"

definition args_ok :: "ext \<Rightarrow> CaVerifyKey \<Rightarrow> add_args \<Rightarrow> bool" where
  "args_ok E vk a \<longleftrightarrow> issued E (aa_cert a) vk \<and> aa_id a = node_id_from_cert E (aa_cert a)"

fun sect_ok :: "ext \<Rightarrow> CaVerifyKey \<Rightarrow> sect \<Rightarrow> bool" where
  "sect_ok E vk (AddStart a) = args_ok E vk a"
| "sect_ok E vk (AddPeers a _) = args_ok E vk a"
| "sect_ok E vk (AddRoutes rs pid) = (\<forall>net \<in> set rs. route_backed E vk net pid)"
| "sect_ok E vk _ = True"

definition peers_ok :: "ext \<Rightarrow> Node \<Rightarrow> bool" where
  "peers_ok E n \<longleftrightarrow> hm_wf (n_peers n) \<and> (\<forall>pid p. peer_of n pid = Some p \<longrightarrow> peer_ok E n pid p)"

definition routes_ok :: "ext \<Rightarrow> Node \<Rightarrow> bool" where
  "routes_ok E n \<longleftrightarrow> routes_wf (n_routes n) \<and> (\<forall>(net, pid) \<in> set (routes (n_routes n)). route_backed E (n_ca_vk n) net pid)"

text \<open>All peers are certified, all routes are backed by a certificate, and so is all that is still to be done.\<close>

fun certified_pool :: "ext \<Rightarrow> Node \<Rightarrow> sect multiset \<Rightarrow> Node \<times> world \<Rightarrow> bool" where
  "certified_pool E n0 P (n, w) \<longleftrightarrow>
     node_config n = node_config n0 \<and> peers_ok E n \<and> routes_ok E n \<and> (\<forall>a \<in># P. sect_ok E (n_ca_vk n0) a)"

lemma peers_ok_view:
  assumes "peer_view (n_peers n') = peer_view (n_peers n)" and "node_config n' = node_config n"
  shows "peers_ok E n' = peers_ok E n"
proof -
  have imp: "peers_ok E b" if "peers_ok E a" "peer_view (n_peers b) = peer_view (n_peers a)" "node_config b = node_config a" for a b
  proof -
    have "\<exists>p'. peer_of a pid = Some p' \<and> peer_static p' = peer_static p" if "peer_of b pid = Some p" for pid p
      using arg_cong [OF \<open>peer_view (n_peers b) = peer_view (n_peers a)\<close>, of "\<lambda>v. map_of v pid"] that
      by (cases "peer_of a pid") (auto simp: peer_view_of)
    moreover have "peer_ok E b pid p = peer_ok E a pid p" for pid p
      using node_config_fields [OF that(3)] by (simp add: peer_ok_def)
    ultimately show ?thesis
      using that(1) peer_view_keys peer_ok_static unfolding peers_ok_def by (metis that(2))
  qed
  from imp [of n n'] imp [of n' n] assms show ?thesis by auto
qed

lemma section_frames:
  "node_config (snd (add_peers_section E a now n)) = node_config n"
  "n_routes (snd (add_peers_section E a now n)) = n_routes n"
  "n_rx_sessions (snd (add_peers_section E a now n)) = n_rx_sessions n"
  "node_config (snd (remove_peers_section pid n)) = node_config n"
  "n_routes (snd (remove_peers_section pid n)) = n_routes n"
  "n_rx_sessions (snd (remove_peers_section pid n)) = n_rx_sessions n"
  by (auto simp: add_peers_section_def remove_peers_section_def Let_def put_peer_def node_config_def split: option.splits)

lemma table_updates:
  "node_config (n\<lparr>n_rx_sessions := v\<rparr>) = node_config n" "node_config (n\<lparr>n_routes := t\<rparr>) = node_config n"
  "peers_ok E (n\<lparr>n_rx_sessions := v\<rparr>) = peers_ok E n" "peers_ok E (n\<lparr>n_routes := t\<rparr>) = peers_ok E n"
  "routes_ok E (n\<lparr>n_rx_sessions := v\<rparr>) = routes_ok E n"
  by (simp_all add: node_config_def peers_ok_def peer_ok_def routes_ok_def)

lemma routes_ok_same: "node_config n' = node_config n \<Longrightarrow> n_routes n' = n_routes n \<Longrightarrow> routes_ok E n' = routes_ok E n"
  using node_config_fields [of n' n] by (simp add: routes_ok_def)

lemma peers_ok_add:
  assumes "peers_ok E n" and "args_ok E (n_ca_vk n) a"
  shows "peers_ok E (snd (add_peers_section E a now n))"
proof -
  have "peer_ok E n (aa_id a) (new_peer E n (aa_id a) (aa_session_key a) (aa_cert a) (aa_addr a) (aa_direct_addr a) (aa_relayed a)
      (aa_is_relay a) (aa_tx_session_id a) (aa_rx_session_id a) (aa_initiator_id a) now)"
    using assms(2) by (auto simp: peer_ok_def new_peer_def Let_def args_ok_def)
  then show ?thesis
    using assms(1)
    by (auto simp: add_peers_section_def peers_ok_def put_peer_def Let_def peer_ok_def hm_wf_update update_conv' split: if_splits)
qed

lemma peers_ok_remove: "peers_ok E n \<Longrightarrow> peers_ok E (snd (remove_peers_section pid n))"
  by (auto simp: remove_peers_section_def peers_ok_def peer_ok_def hm_wf_delete delete_conv' split: option.splits if_splits)

lemma routes_ok_add:
  assumes "routes_ok E n" and "\<forall>net \<in> set rs. route_backed E (n_ca_vk n) net pid"
  shows "routes_ok E (n\<lparr>n_routes := fold (\<lambda>r t. RouteTable_insert t r pid) rs (n_routes n)\<rparr>)"
  using assms
proof (induction rs arbitrary: n)
  case (Cons r rs)
  have "routes_ok E (n\<lparr>n_routes := RouteTable_insert (n_routes n) r pid\<rparr>)"
    using Cons.prems by (auto simp: routes_ok_def routes_wf_insert) (auto simp: RouteTable_insert_def)
  from Cons.IH [OF this] Cons.prems show ?case by simp
qed simp

lemma routes_ok_remove: "routes_ok E n \<Longrightarrow> routes_ok E (n\<lparr>n_routes := RouteTable_remove_peer (n_routes n) pid\<rparr>)"
  by (auto simp: routes_ok_def routes_wf_remove) (auto simp: RouteTable_remove_peer_def)

lemma args_backed: "args_ok E vk a \<Longrightarrow> net \<in> set (authorized_peer_routes E (aa_cert a)) \<Longrightarrow> route_backed E vk net (aa_id a)"
  by (auto simp: args_ok_def route_backed_def)

lemma todo_ok:
  assumes "run_sect E a (n, w) = (todo, n', w')" and "sect_ok E vk a" and "b \<in> set todo"
  shows "sect_ok E vk b"
proof -
  have "sect_ok E vk (action_sect act)" for act by (cases act) simp_all
  with assms show ?thesis
    by (cases a)
       (auto simp: Let_def split_beta add_peers_section_def remove_peers_section_def discover_section_def outbound_section_def
          shutdown_section_def tick_pending_section_def args_backed split: if_splits option.splits)
qed

interpretation certified: pool_invariant "run_sect E" "certified_pool E n0" for E n0
proof
  fix a P s todo s'
  assume inv: "certified_pool E n0 (add_mset a P) s" and run: "run_sect E a s = (todo, s')"
  obtain n w n' w' where s: "s = (n, w)" "s' = (n', w')" by fastforce
  have ok: "node_config n = node_config n0" "peers_ok E n" "routes_ok E n" "sect_ok E (n_ca_vk n) a" and vk: "n_ca_vk n = n_ca_vk n0"
    using inv s node_config_fields [of n n0] by auto
  have "node_config n' = node_config n \<and> peers_ok E n' \<and> routes_ok E n'"
  proof (cases "quiet_sect a")
    case True
    then have "tables n' = tables n" using run s by (blast intro: quiet_tables)
    with ok show ?thesis
      using peers_ok_view [of n' n] node_config_fields [of n' n] by (simp add: tables_def routes_ok_def)
  next
    case False
    with run s ok show ?thesis
      by (cases a)
        (auto simp: Let_def split_beta table_updates section_frames routes_ok_same [OF section_frames(1,2)]
           routes_ok_same [OF section_frames(4,5)] peers_ok_add peers_ok_remove routes_ok_add routes_ok_remove)
  qed
  then show "certified_pool E n0 (mset todo + P) s'"
    using s ok inv todo_ok [OF run [unfolded s]] vk by auto
qed

section \<open>Sessions under every schedule\<close>

text \<open>The receive session ids a section accounts for: the one it is about to give to a peer, or the one
  it is about to take from the table. \<open>live_sids\<close> are those of the peers.\<close>

fun fresh_sid :: "sect \<Rightarrow> u32 multiset" where
  "fresh_sid (AddStart a) = {#aa_rx_session_id a#}"
| "fresh_sid (AddPeers a _) = {#aa_rx_session_id a#}"
| "fresh_sid _ = {#}"

fun stale_sid :: "sect \<Rightarrow> u32 multiset" where
  "stale_sid (AddSession (Some old) _ _) = {#old#}"
| "stale_sid (RemoveSession sid) = {#sid#}"
| "stale_sid _ = {#}"

definition live_sids :: "Node \<Rightarrow> (u32, u32) hashmap" where
  "live_sids n = map (\<lambda>(i, p). (i, ps_rx_session_id p)) (n_peers n)"

definition sids_of :: "(sect \<Rightarrow> u32 multiset) \<Rightarrow> sect multiset \<Rightarrow> u32 multiset" where
  "sids_of f P = sum_mset (image_mset f P)"

definition all_sids :: "sect multiset \<Rightarrow> Node \<Rightarrow> u32 multiset" where
  "all_sids P n = sids_of fresh_sid P + sids_of stale_sid P + image_mset snd (mset (live_sids n))"

definition sids_unique :: "sect multiset \<Rightarrow> Node \<Rightarrow> bool" where
  "sids_unique P n \<longleftrightarrow> (\<forall>x. count (all_sids P n) x \<le> 1)"

text \<open>Every session id has one owner, and a peer's session id leads to the peer or is about to.\<close>

definition entering :: "sect multiset \<Rightarrow> u32 \<Rightarrow> u32 \<Rightarrow> bool" where
  "entering P sid pid \<longleftrightarrow> (\<exists>old. AddSession old sid pid \<in># P)"

definition entries_ok :: "sect multiset \<Rightarrow> Node \<Rightarrow> bool" where
  "entries_ok P n \<longleftrightarrow> (\<forall>sid pid. entering P sid pid \<longrightarrow>
     sid \<notin># sids_of fresh_sid P \<and> (\<forall>i. map_of (live_sids n) i = Some sid \<longrightarrow> i = pid))"

definition peers_reached :: "sect multiset \<Rightarrow> Node \<Rightarrow> bool" where
  "peers_reached P n \<longleftrightarrow> (\<forall>pid sid. map_of (live_sids n) pid = Some sid \<longrightarrow>
     map_of (n_rx_sessions n) sid = Some pid \<or> entering P sid pid)"

fun session_pool :: "sect multiset \<Rightarrow> Node \<times> world \<Rightarrow> bool" where
  "session_pool P (n, w) \<longleftrightarrow> hm_wf (n_peers n) \<and> sids_unique P n \<and> entries_ok P n \<and> peers_reached P n"

lemma entering_simps [simp]:
  "entering {#} sid pid = False"
  "entering (add_mset a P) sid pid = ((\<exists>old. a = AddSession old sid pid) \<or> entering P sid pid)"
  "entering (P + Q) sid pid = (entering P sid pid \<or> entering Q sid pid)"
  by (auto simp: entering_def)

lemma sids_of_simps [simp]:
  "sids_of f {#} = {#}" "sids_of f (add_mset a P) = f a + sids_of f P" "sids_of f (P + Q) = sids_of f P + sids_of f Q"
  by (simp_all add: sids_of_def)

lemma map_of_live: "map_of (live_sids n) pid = map_option ps_rx_session_id (peer_of n pid)"
  by (simp add: live_sids_def map_of_map)

lemma hm_wf_live: "hm_wf (live_sids n) = hm_wf (n_peers n)"
  by (simp add: live_sids_def comp_def split_beta)

lemma live_tables: "tables n' = tables n \<Longrightarrow> live_sids n' = live_sids n"
proof -
  assume "tables n' = tables n"
  moreover have "live_sids m = map (\<lambda>(i, v). (i, fst (snd (snd (snd (snd (snd (snd v)))))))) (peer_view (n_peers m))" for m
    by (simp add: live_sids_def peer_view_def split_beta comp_def peer_static_def)
  ultimately show ?thesis by (simp add: tables_def)
qed

lemma live_put: "live_sids (put_peer pid p n) = AList.update pid (ps_rx_session_id p) (live_sids n)"
proof -
  have "map (\<lambda>(i, p). (i, f p)) (AList.update pid p m) = AList.update pid (f p) (map (\<lambda>(i, p). (i, f p)) m)" for f :: "PeerState \<Rightarrow> u32" and m
    by (induction m) auto
  then show ?thesis by (simp add: live_sids_def put_peer_def)
qed

lemma live_delete: "live_sids (n\<lparr>n_peers := AList.delete pid (n_peers n)\<rparr>) = AList.delete pid (live_sids n)"
proof -
  have "map (\<lambda>(i, p). (i, f p)) (AList.delete pid m) = AList.delete pid (map (\<lambda>(i, p). (i, f p)) m)" for f :: "PeerState \<Rightarrow> u32" and m
    by (induction m) auto
  then show ?thesis by (simp add: live_sids_def)
qed

lemma values_delete:
  "hm_wf m \<Longrightarrow> image_mset snd (mset m) = (case map_of m k of None \<Rightarrow> {#} | Some v \<Rightarrow> {#v#}) + image_mset snd (mset (AList.delete k m))"
proof (induction m)
  case (Cons x m)
  then show ?case by (cases "fst x = k") (auto simp: ac_simps simp flip: fun_upd_def)
qed simp

lemma values_update:
  "hm_wf m \<Longrightarrow> image_mset snd (mset (AList.update k v m)) = add_mset v (image_mset snd (mset (AList.delete k m)))"
  by (induction m) auto

text \<open>What a section that is not about sessions leaves to do: nothing that gives, takes or enters a
  session id, except that \<open>add_peer\<close> goes on to its own section.\<close>

lemma quiet_todo:
  assumes "quiet_sect a" and "run_sect E a (n, w) = (todo, n', w')"
  shows "sids_of fresh_sid (mset todo) = fresh_sid a" "sids_of stale_sid (mset todo) = stale_sid a" "\<not> entering (mset todo) sid pid"
proof -
  have acts: "fresh_sid (action_sect act) = {#}" "stale_sid (action_sect act) = {#}" "action_sect act \<noteq> AddSession old sid pid" for act old
    by (cases act; simp)+
  have none: "sids_of f (mset (map g xs)) = {#}" if "\<And>x. f (g x) = {#}" for f and g :: "'b \<Rightarrow> sect" and xs
    using that by (induction xs) auto
  have out: "entering (mset (map g xs)) sid pid = False" if "\<And>x old. g x \<noteq> AddSession old sid pid" for g :: "'b \<Rightarrow> sect" and xs
    using that by (induction xs) auto
  note simps = out Let_def split_beta discover_section_def outbound_section_def shutdown_section_def tick_pending_section_def none acts
  show "sids_of fresh_sid (mset todo) = fresh_sid a" "sids_of stale_sid (mset todo) = stale_sid a" "\<not> entering (mset todo) sid pid"
    using assms by (cases a; auto simp: simps simp flip: mset_map split: if_splits option.splits)+
qed

lemma sids_unique_sub: "sids_unique Q n \<Longrightarrow> all_sids P n' \<subseteq># all_sids Q n \<Longrightarrow> sids_unique P n'"
  unfolding sids_unique_def by (meson le_trans mset_subset_eq_count)

lemma one_owner:
  assumes "sids_unique P n" and "map_of (live_sids n) pid = Some sid"
  shows "sid \<notin># sids_of stale_sid P" "sid \<notin># sids_of fresh_sid P"
proof -
  have "sid \<in># image_mset snd (mset (live_sids n))" using map_of_SomeD [OF assms(2)] by force
  then have "0 < count (image_mset snd (mset (live_sids n))) sid" by (simp only: count_greater_zero_iff)
  with assms(1) [unfolded sids_unique_def all_sids_def count_union, rule_format, of sid]
  have "count (sids_of stale_sid P) sid = 0" "count (sids_of fresh_sid P) sid = 0" by linarith+
  then show "sid \<notin># sids_of stale_sid P" "sid \<notin># sids_of fresh_sid P" by (simp_all only: not_in_iff)
qed

lemma session_quiet:
  assumes "quiet_sect a" and "session_pool (add_mset a P) (n, w)" and "run_sect E a (n, w) = (todo, n', w')"
  shows "session_pool (mset todo + P) (n', w')"
proof -
  note q = quiet_todo [OF assms(1,3)]
  have t: "live_sids n' = live_sids n" "n_rx_sessions n' = n_rx_sessions n"
    using quiet_tables [OF assms(1,3)] live_tables [of n' n] by (simp_all add: tables_def)
  then have "hm_wf (n_peers n')" using assms(2) by (simp flip: hm_wf_live)
  moreover have "sids_unique (mset todo + P) n'"
    by (rule sids_unique_sub [of "add_mset a P" n]) (use assms(2) q(1,2) t in \<open>simp_all add: all_sids_def\<close>)
  moreover have "entering (mset todo + P) sid pid = entering (add_mset a P) sid pid" for sid pid using assms(1) q(3) by auto
  ultimately show ?thesis using assms(2) q(1) t by (simp add: entries_ok_def peers_reached_def)
qed

lemma session_add:
  assumes "session_pool (add_mset (AddPeers a now) P) (n, w)" and "add_peers_section E a now n = (todo, n')"
  shows "session_pool (mset todo + P) (n', w)"
proof (cases "n' = n \<and> todo = []")
  case True
  then show ?thesis
    using assms(1) sids_unique_sub [of "add_mset (AddPeers a now) P" n P n]
    by (auto simp: all_sids_def entries_ok_def peers_reached_def)
next
  case False
  let ?sid = "aa_rx_session_id a" and ?old = "map_of (live_sids n) (aa_id a)"
  have todo: "todo = [AddSession ?old ?sid (aa_id a), AddRoutes (authorized_peer_routes E (aa_cert a)) (aa_id a),
      AddKernelRoutes (authorized_peer_routes E (aa_cert a)), BindLighthouse (aa_addr a) (meta_name (meta (body (aa_cert a)))) (aa_id a)]"
    and n': "live_sids n' = AList.update (aa_id a) ?sid (live_sids n)" "n_rx_sessions n' = n_rx_sessions n" "hm_wf (n_peers n) \<Longrightarrow> hm_wf (n_peers n')"
    using assms(2) False section_frames(3) [of E a now n]
    by (auto simp: add_peers_section_def Let_def live_put map_of_live new_peer_def hm_wf_update split: if_splits) (auto simp: put_peer_def hm_wf_update)
  have inv: "hm_wf (live_sids n)" "sids_unique (add_mset (AddPeers a now) P) n" "entries_ok (add_mset (AddPeers a now) P) n"
    "peers_reached (add_mset (AddPeers a now) P) n"
    using assms(1) by (auto simp: hm_wf_live)
  have "all_sids (mset todo + P) n' = all_sids (add_mset (AddPeers a now) P) n"
    using values_delete [OF inv(1), of "aa_id a"] values_update [OF inv(1), of "aa_id a" ?sid]
    by (simp add: all_sids_def todo n' split: option.splits)
  then have uniq: "sids_unique (mset todo + P) n'" using inv(2) by (auto intro: sids_unique_sub)
  have new: "?sid \<notin># sids_of fresh_sid P" "map_of (live_sids n) i \<noteq> Some ?sid" for i
    using inv(2) [unfolded sids_unique_def all_sids_def count_union, rule_format, of ?sid] one_owner(2) [OF inv(2), of i ?sid]
    by (auto simp: not_in_iff)
  have "\<not> entering P ?sid pid" for pid using inv(3) by (auto simp: entries_ok_def)
  then have "entries_ok (mset todo + P) n'"
    using inv(3) new by (auto simp: entries_ok_def todo n' update_conv' split: if_splits)
  moreover have "peers_reached (mset todo + P) n'"
    using inv(4) by (auto simp: peers_reached_def todo n' update_conv' split: if_splits)
  ultimately show ?thesis using assms(1) uniq n'(3) by simp
qed

lemma session_remove:
  assumes "session_pool (add_mset (RemovePeers pid) P) (n, w)" and "remove_peers_section pid n = (todo, n')"
  shows "session_pool (mset todo + P) (n', w)"
proof (cases "peer_of n pid")
  case None
  then show ?thesis using assms by (simp add: remove_peers_section_def all_sids_def sids_unique_def entries_ok_def peers_reached_def)
next
  case (Some p)
  let ?sid = "ps_rx_session_id p"
  have todo: "todo = [RemoveSession ?sid, RemoveRoutes pid, UnbindLighthouse pid, RemoveKernelRoutes (ps_routes p)]"
    and n': "live_sids n' = AList.delete pid (live_sids n)" "n_rx_sessions n' = n_rx_sessions n" "hm_wf (n_peers n) \<Longrightarrow> hm_wf (n_peers n')"
    using assms(2) Some by (auto simp: remove_peers_section_def live_delete hm_wf_delete)
  have "all_sids (mset todo + P) n' = all_sids (add_mset (RemovePeers pid) P) n"
    using values_delete [of "live_sids n" pid] assms(1) Some
    by (simp add: all_sids_def todo n' hm_wf_live map_of_live)
  then have "sids_unique (mset todo + P) n'" using assms(1) by (auto intro: sids_unique_sub)
  with assms(1) n' show ?thesis by (auto simp: todo entries_ok_def peers_reached_def delete_conv' split: if_splits)
qed

text \<open>The sections under the lock of \<open>rx_sessions\<close>: they take out only a session id that no peer has.\<close>

lemma session_table:
  assumes "session_pool (add_mset a P) (n, w)" and "fresh_sid a = {#}"
    and "\<And>pid sid. map_of (live_sids n) pid = Some sid \<Longrightarrow> map_of (n_rx_sessions n) sid = Some pid \<or> (\<exists>old. a = AddSession old sid pid) \<Longrightarrow>
          map_of m sid = Some pid"
  shows "session_pool P (n\<lparr>n_rx_sessions := m\<rparr>, w)"
proof -
  have live: "live_sids (n\<lparr>n_rx_sessions := m\<rparr>) = live_sids n" by (simp add: live_sids_def)
  have "sids_unique P (n\<lparr>n_rx_sessions := m\<rparr>)"
    using assms(1) by (auto simp: all_sids_def live intro: sids_unique_sub [of "add_mset a P" n])
  moreover have "entries_ok P (n\<lparr>n_rx_sessions := m\<rparr>)" using assms(1,2) by (simp add: entries_ok_def live)
  moreover have "peers_reached P (n\<lparr>n_rx_sessions := m\<rparr>)"
    unfolding peers_reached_def live
  proof (intro allI impI)
    fix pid sid
    assume p: "map_of (live_sids n) pid = Some sid"
    then have "map_of (n_rx_sessions n) sid = Some pid \<or> (\<exists>old. a = AddSession old sid pid) \<or> entering P sid pid"
      using assms(1) by (auto simp: peers_reached_def)
    with assms(3) [OF p] show "map_of (n_rx_sessions (n\<lparr>n_rx_sessions := m\<rparr>)) sid = Some pid \<or> entering P sid pid" by auto
  qed
  ultimately show ?thesis using assms(1) by simp
qed

lemma session_enter:
  assumes "session_pool (add_mset (AddSession old sid pid) P) (n, w)"
  shows "session_pool P (n\<lparr>n_rx_sessions := AList.update sid pid (case old of None \<Rightarrow> n_rx_sessions n | Some prev \<Rightarrow> AList.delete prev (n_rx_sessions n))\<rparr>, w)"
proof (rule session_table [OF assms])
  fix i x
  assume live: "map_of (live_sids n) i = Some x"
    and at: "map_of (n_rx_sessions n) x = Some i \<or> (\<exists>old'. AddSession old sid pid = AddSession old' x i)"
  have "sids_unique (add_mset (AddSession old sid pid) P) n" and ok: "entries_ok (add_mset (AddSession old sid pid) P) n" using assms by simp_all
  from one_owner(1) [OF this(1) live] have old: "old \<noteq> Some x" by auto
  have same: "i = pid" if "x = sid"
    using ok [unfolded entries_ok_def, rule_format, of sid pid] live that by simp
  show "map_of (AList.update sid pid (case old of None \<Rightarrow> n_rx_sessions n | Some prev \<Rightarrow> AList.delete prev (n_rx_sessions n))) x = Some i"
  proof (cases "x = sid")
    case True
    with same show ?thesis by (simp add: update_conv')
  next
    case False
    with at have "map_of (n_rx_sessions n) x = Some i" by auto
    with False old show ?thesis by (cases old) (simp_all add: update_conv' delete_conv')
  qed
qed simp

lemma session_leave:
  assumes "session_pool (add_mset (RemoveSession sid) P) (n, w)"
  shows "session_pool P (n\<lparr>n_rx_sessions := AList.delete sid (n_rx_sessions n)\<rparr>, w)"
proof (rule session_table [OF assms])
  fix i x
  assume live: "map_of (live_sids n) i = Some x" and at: "map_of (n_rx_sessions n) x = Some i \<or> (\<exists>old'. RemoveSession sid = AddSession old' x i)"
  have "sid \<noteq> x" using one_owner(1) [OF _ live, of "add_mset (RemoveSession sid) P"] assms by auto
  with at show "map_of (AList.delete sid (n_rx_sessions n)) x = Some i" by simp
qed simp

lemma session_routes:
  "session_pool (add_mset (AddRoutes rs pid) P) (n, w) \<Longrightarrow> session_pool P (n\<lparr>n_routes := t\<rparr>, w')"
  "session_pool (add_mset (RemoveRoutes pid) P) (n, w) \<Longrightarrow> session_pool P (n\<lparr>n_routes := t\<rparr>, w')"
  by (simp_all add: live_sids_def all_sids_def sids_unique_def entries_ok_def peers_reached_def)

interpretation sessions: pool_invariant "run_sect E" session_pool for E
proof
  fix a P s todo s'
  assume inv: "session_pool (add_mset a P) s" and run: "run_sect E a s = (todo, s')"
  obtain n w n' w' where s: "s = (n, w)" "s' = (n', w')" by fastforce
  show "session_pool (mset todo + P) s'"
  proof (cases "quiet_sect a")
    case True
    with inv run s show ?thesis by (blast intro: session_quiet)
  next
    case False
    have "add_peers_section E b now n = (fst (add_peers_section E b now n), snd (add_peers_section E b now n))"
      "remove_peers_section i n = (fst (remove_peers_section i n), snd (remove_peers_section i n))" for b now i by simp_all
    note rules = session_add [OF _ this(1)] session_remove [OF _ this(2)] session_enter session_leave session_routes
    with inv run s False show ?thesis
      by (cases a) (auto simp: Let_def split_beta simp del: session_pool.simps intro: rules)
  qed
qed

section \<open>Programs\<close>

text \<open>A thread starts with whole operations, never in the middle of one.\<close>

fun starts_operation :: "sect \<Rightarrow> bool" where
  "starts_operation (AddStart _) = True"
| "starts_operation (RemovePeers _) = True"
| "starts_operation (Discover _) = True"
| "starts_operation (Outbound _ _) = True"
| "starts_operation Shutdown = True"
| "starts_operation Tick = True"
| "starts_operation _ = False"

definition program :: "sect list list \<Rightarrow> bool" where
  "program ts \<longleftrightarrow> list_all (list_all starts_operation) ts"

fun new_args :: "sect \<Rightarrow> add_args list" where
  "new_args (AddStart a) = [a]"
| "new_args _ = []"

definition added :: "sect list list \<Rightarrow> add_args list" where
  "added ts = concat (map new_args (concat ts))"

lemma program_sect: "program ts \<Longrightarrow> a \<in># pool ts \<Longrightarrow> starts_operation a"
  by (auto simp: program_def pool_def list_all_iff)

lemma program_sids:
  assumes "program ts"
  shows "sids_of fresh_sid (pool ts) = mset (map aa_rx_session_id (added ts))" "sids_of stale_sid (pool ts) = {#}" "\<not> entering (pool ts) sid pid"
proof -
  have one: "fresh_sid a = mset (map aa_rx_session_id (new_args a))" if "starts_operation a" for a
    using that by (cases a rule: starts_operation.cases) auto
  have "sids_of fresh_sid (mset as) = mset (map aa_rx_session_id (concat (map new_args as)))" if "list_all starts_operation as" for as
    using that by (induction as) (auto simp: one)
  then show "sids_of fresh_sid (pool ts) = mset (map aa_rx_session_id (added ts))"
    using assms by (simp add: pool_def added_def program_def list_all_iff)
  have "stale_sid a = {#}" if "a \<in># pool ts" for a using program_sect [OF assms that] by (cases a rule: stale_sid.cases) auto
  then show "sids_of stale_sid (pool ts) = {#}" by (simp add: sids_of_def)
  show "\<not> entering (pool ts) sid pid" using program_sect [OF assms, of "AddSession _ sid pid"] by (auto simp: entering_def)
qed

lemma live_distinct:
  assumes "hm_wf m" and "\<And>i x. map_of m i = Some x \<Longrightarrow> map_of t x = Some i"
  shows "distinct (map snd m)"
proof -
  have "inj_on snd (set m)"
  proof (rule inj_onI)
    fix x y
    assume *: "x \<in> set m" "y \<in> set m" "snd x = snd y"
    have "map_of m (fst x) = Some (snd x)" "map_of m (fst y) = Some (snd y)"
      using *(1,2) by (simp_all add: map_of_is_SomeI [OF assms(1)])
    from assms(2) [OF this(1)] assms(2) [OF this(2)] *(3) show "x = y" by (simp add: prod_eq_iff)
  qed
  then show ?thesis using assms(1) by (simp add: distinct_map)
qed

lemma program_sessions:
  assumes "program ts" and "hm_wf (n_peers n)"
    and reached: "\<forall>pid p. peer_of n pid = Some p \<longrightarrow> map_of (n_rx_sessions n) (ps_rx_session_id p) = Some pid"
    and fresh: "distinct (map aa_rx_session_id (added ts))" "\<forall>a \<in> set (added ts). aa_rx_session_id a \<notin> dom (map_of (n_rx_sessions n))"
  shows "session_pool (pool ts) (n, w)"
proof -
  have live: "map_of (n_rx_sessions n) x = Some i" if "map_of (live_sids n) i = Some x" for i x
    using that reached by (auto simp: map_of_live)
  have "set (map aa_rx_session_id (added ts)) \<inter> set (map snd (live_sids n)) = {}"
  proof -
    have "x \<in> dom (map_of (n_rx_sessions n))" if "x \<in> set (map snd (live_sids n))" for x
      using that live assms(2) hm_wf_live [of n] by (fastforce simp: map_of_eq_Some_iff)
    with fresh(2) show ?thesis by fastforce
  qed
  then have "distinct (map aa_rx_session_id (added ts) @ map snd (live_sids n))"
    using live_distinct [OF _ live] fresh(1) assms(2) by (simp add: hm_wf_live)
  then have "sids_unique (pool ts) n"
    unfolding sids_unique_def all_sids_def program_sids [OF assms(1)] by (auto simp: distinct_count_atmost_1 simp flip: mset_map mset_append)
  then show ?thesis
    using assms(2) program_sids(3) [OF assms(1)] live by (simp add: entries_ok_def peers_reached_def)
qed

section \<open>A peer that comes back\<close>

lemma route_map_removed: "route_map (RouteTable_remove_peer t pid) net \<noteq> Some pid"
  by (auto simp: route_map_def RouteTable_remove_peer_def dest!: map_of_SomeD)

lemma add_readded:
  assumes "peer_of n (aa_id a) = None" and "n' = fst (snd (add_peer_args E n a w))"
  shows "\<exists>p. peer_of n' (aa_id a) = Some p \<and> ps_rx_session_id p = aa_rx_session_id a \<and> ps_routes p = authorized_peer_routes E (aa_cert a)"
    and "net \<in> set (authorized_peer_routes E (aa_cert a)) \<Longrightarrow> route_map (n_routes n') net = Some (aa_id a)"
  using assms by (simp_all add: add_peer_eq accept_handshake_session_def with_peer_fields with_peer_tables new_peer_fields)

text \<open>A new handshake of the second demonstration identity.\<close>

definition demo_args :: add_args where
  "demo_args = \<lparr>aa_id = 0x03000000, aa_session_key = [6], aa_cert = demo_cert2, aa_addr = default_listen, aa_direct_addr = None,
     aa_relayed = False, aa_is_relay = False, aa_tx_session_id = 8, aa_rx_session_id = 11, aa_initiator_id = 0x03000000, aa_simultaneous = False\<rparr>"

lemma demo_args_routes: "authorized_peer_routes demo_ext demo_cert2 \<noteq> []"
  using demo_routes(2) by auto

section \<open>Properties\<close>

text \<open>C5. Receive sessions survive every interleaving. Let any number of threads run any operations on a node
  whose peers are all reachable through their receive session, each handshake bringing a session id
  that is not in use. Once the threads are done, every peer in the table is reachable through its
  receive session, whichever sessions were replaced, dropped or added meanwhile: no thread takes out
  the table entry of a session another thread has just set up.\<close>

theorem threads_keep_sessions:
  assumes "(sched (run_sect E))\<^sup>*\<^sup>* (ts, (n, w)) (ts', (n', w'))" and "finished (ts', (n', w'))" and "program ts" and "hm_wf (n_peers n)"
    and "\<forall>pid p. peer_of n pid = Some p \<longrightarrow> map_of (n_rx_sessions n) (ps_rx_session_id p) = Some pid"
    and "distinct (map aa_rx_session_id (added ts))" and "\<forall>a \<in> set (added ts). aa_rx_session_id a \<notin> dom (map_of (n_rx_sessions n))"
  shows "\<forall>pid p. peer_of n' pid = Some p \<longrightarrow> map_of (n_rx_sessions n') (ps_rx_session_id p) = Some pid"
proof -
  have "session_pool {#} (n', w')"
    by (rule sessions.inv_finished [OF assms(1,2) program_sessions [OF assms(3-7)]])
  then show ?thesis by (simp add: peers_reached_def map_of_live)
qed

theorem threads_keep_sessions_witness:
  "\<exists>ts' n' w'. (sched (run_sect demo_ext))\<^sup>*\<^sup>* ([[RemovePeers 0x03000000, Tick], [AddStart demo_args]], (demo_linked, demo_world)) (ts', (n', w'))
    \<and> finished (ts', (n', w')) \<and> (\<forall>pid p. peer_of n' pid = Some p \<longrightarrow> map_of (n_rx_sessions n') (ps_rx_session_id p) = Some pid)"
proof -
  let ?ts = "[[RemovePeers 0x03000000, Tick], [AddStart demo_args]]"
  obtain ts' n' w' where run: "(sched (run_sect demo_ext))\<^sup>*\<^sup>* (?ts, (demo_linked, demo_world)) (ts', (n', w'))" "finished (ts', (n', w'))"
    using threads.sched_finishes [of demo_ext "(?ts, (demo_linked, demo_world))"] by auto
  have peers: "n_peers demo_linked = [(0x03000000, demo_link)]" "n_rx_sessions demo_linked = [(9, 0x03000000)]" "ps_rx_session_id demo_link = 9"
    by (simp_all add: demo_linked_def with_peer_def bind_lighthouse_def demo_node_def new_node_def without_session_def demo_link_def new_peer_fields)
  have "\<forall>pid p. peer_of n' pid = Some p \<longrightarrow> map_of (n_rx_sessions n') (ps_rx_session_id p) = Some pid"
    by (rule threads_keep_sessions [OF run]) (simp_all add: program_def peers added_def demo_args_def)
  with run show ?thesis by blast
qed

text \<open>C25. Routes do not survive every interleaving. A thread that removes a peer takes it out of the table
  first and its routes afterwards; if the receive thread completes a new handshake with the peer in
  between, the cleanup hits the new session. Both operations done, the peer is in the table with the
  routes its certificate authorizes, but no entry of the routing table leads to it and no
  lighthouse slot names it, although neither order of the two operations, run one after the other,
  has this outcome.\<close>

theorem readded_peer_loses_routes:
  assumes "peer_of n (aa_id a) = Some old" and "authorized_peer_routes E (aa_cert a) \<noteq> []"
  shows "\<exists>n' w' p. (sched (run_sect E))\<^sup>*\<^sup>* ([[RemovePeers (aa_id a)], [AddStart a]], (n, w)) ([[], []], (n', w'))
    \<and> peer_of n' (aa_id a) = Some p \<and> ps_rx_session_id p = aa_rx_session_id a \<and> ps_routes p = authorized_peer_routes E (aa_cert a)
    \<and> (\<forall>net. route_map (n_routes n') net \<noteq> Some (aa_id a)) \<and> (\<forall>ip. RouteTable_lookup E (n_routes n') ip \<noteq> Some (aa_id a))
    \<and> list_all (\<lambda>l. ls_peer_id l \<noteq> Some (aa_id a)) (n_lighthouses n')
    \<and> (\<forall>n1 w1. remove_peer E n (aa_id a) w = (n1, w1) \<longrightarrow> n' \<noteq> fst (snd (add_peer_args E n1 a w1)))
    \<and> (\<forall>n1 w1 r. add_peer_args E n a w = (r, n1, w1) \<longrightarrow> n' \<noteq> fst (remove_peer E n1 (aa_id a) w1))"
  (is "\<exists>n' w' p. ?run n' w' \<and> _")
proof -
  let ?pid = "aa_id a" and ?rs = "authorized_peer_routes E (aa_cert a)"
  let ?rest = "[RemoveSession (ps_rx_session_id old), RemoveRoutes ?pid, UnbindLighthouse ?pid, RemoveKernelRoutes (ps_routes old)]"
  define n1 where "n1 = n\<lparr>n_peers := AList.delete ?pid (n_peers n)\<rparr>"
  obtain r n2 w2 where add: "add_peer_args E n1 a w = (r, n2, w2)" by (metis prod_cases3)
  obtain n3 w3 where rest: "solo (run_sect E) ?rest (n2, w2) (n3, w3)" using threads.solo_returns [of E ?rest "(n2, w2)"] by auto
  have first: "run_sect E (RemovePeers ?pid) (n, w) = (?rest, (n1, w))"
    using assms(1) by (simp add: remove_peers_section_def n1_def)
  have gone: "peer_of n1 ?pid = None" by (simp add: n1_def delete_conv')
  have run: "?run n3 w3"
    by (rule sched_first [where run = "run_sect E", OF first], simp only: append_Nil2)
       (rule sched_second_solo [OF solo_add [of E a n1 w, unfolded add snd_conv]], rule sched_first_solo [OF rest])
  have n2: "n2 = fst (snd (add_peer_args E n1 a w))" using add by simp
  from add_readded(1) [OF gone n2] obtain p where p: "peer_of n2 ?pid = Some p" "ps_rx_session_id p = aa_rx_session_id a" "ps_routes p = ?rs"
    by blast
  have n3: "n_peers n3 = n_peers n2" "n_routes n3 = RouteTable_remove_peer (n_routes n2) ?pid"
    "n_lighthouses n3 = map (\<lambda>l. if ls_peer_id l = Some ?pid then l\<lparr>ls_peer_id := None\<rparr> else l) (n_lighthouses n2)"
    using rest by (auto simp: solo_Cons)
  have "n3 \<noteq> fst (snd (add_peer_args E m a u))" if m: "remove_peer E n ?pid w = (m, u)" for m u
  proof -
    have "peer_of m ?pid = None" using m assms(1) by (auto simp: remove_peer_def delete_conv')
    from add_readded(2) [OF this refl, of "hd ?rs"] have "route_map (n_routes (fst (snd (add_peer_args E m a u)))) (hd ?rs) = Some ?pid"
      using assms(2) by simp
    then show ?thesis using n3(2) by (metis route_map_removed)
  qed
  moreover have "n3 \<noteq> fst (remove_peer E m ?pid u)" for m u
  proof -
    have "peer_of (fst (remove_peer E m ?pid u)) ?pid = None" by (simp add: remove_peer_def delete_conv' split: option.splits)
    then show ?thesis using p(1) n3(1) by auto
  qed
  moreover have "route_map (n_routes n3) net \<noteq> Some ?pid" "RouteTable_lookup E (n_routes n3) ip \<noteq> Some ?pid" for net ip
    using n3(2) lookup_not_removed route_map_removed by metis+
  moreover have "list_all (\<lambda>l. ls_peer_id l \<noteq> Some ?pid) (n_lighthouses n3)" using n3(3) by (auto simp: list_all_iff)
  ultimately show ?thesis using run p n3(1) by (intro exI [of _ n3] exI [of _ w3] exI [of _ p]) simp
qed

theorem readded_peer_loses_routes_witness:
  "\<exists>n' w' p. (sched (run_sect demo_ext))\<^sup>*\<^sup>* ([[RemovePeers 0x03000000], [AddStart demo_args]], (demo_linked, demo_world)) ([[], []], (n', w'))
    \<and> peer_of n' 0x03000000 = Some p \<and> (\<forall>ip. RouteTable_lookup demo_ext (n_routes n') ip \<noteq> Some 0x03000000)"
  using readded_peer_loses_routes [of demo_linked demo_args demo_link demo_ext demo_world] demo_linked(2) demo_args_routes
  by (auto simp: demo_args_def)

text \<open>C24. The sessions and routes of a peer can outlive it. If a peer is removed, as a maintenance tick does, between
  the moment a handshake enters it into the table and the moment its session and routes are entered, it is
  gone from the table while its receive session and all its routes lead to it, which neither order of the
  two operations as units leaves behind. From then on every packet routed to it is dropped without a trace:
  nothing is sent, and since a route is there nothing is looked up either.\<close>

theorem removed_peer_keeps_routes:
  assumes "\<not> aa_simultaneous a" and "authorized_peer_routes E (aa_cert a) \<noteq> []"
  shows "\<exists>n' w'. (sched (run_sect E))\<^sup>*\<^sup>* ([[AddStart a], [RemovePeers (aa_id a)]], (n, w)) ([[], []], (n', w'))
    \<and> peer_of n' (aa_id a) = None \<and> map_of (n_rx_sessions n') (aa_rx_session_id a) = Some (aa_id a)
    \<and> (\<forall>net \<in> set (authorized_peer_routes E (aa_cert a)). route_map (n_routes n') net = Some (aa_id a))
    \<and> (\<forall>pkt dst overlay u. parse_dest_ip pkt = Some dst \<and> RouteTable_lookup E (n_routes n') dst = Some (aa_id a) \<longrightarrow>
         send_to_overlay E n' pkt overlay u = (n', u))
    \<and> n' \<noteq> fst (remove_peer E (fst (snd (add_peer_args E n a w))) (aa_id a) (snd (snd (add_peer_args E n a w))))
    \<and> n' \<noteq> fst (snd (add_peer_args E (fst (remove_peer E n (aa_id a) w)) a (snd (remove_peer E n (aa_id a) w))))"
  (is "\<exists>n' w'. ?run n' w' \<and> _")
proof -
  let ?pid = "aa_id a" and ?rs = "authorized_peer_routes E (aa_cert a)" and ?old = "peer_of n (aa_id a)"
  let ?rest = "[AddSession (map_option ps_rx_session_id ?old) (aa_rx_session_id a) ?pid, AddRoutes ?rs ?pid,
    AddKernelRoutes ?rs, BindLighthouse (aa_addr a) (meta_name (meta (body (aa_cert a)))) ?pid]"
  obtain now w1 where now: "instant_now w = (now, w1)" by fastforce
  obtain n1 where peers: "run_sect E (AddPeers a now) (n, w1) = (?rest, (n1, w1))" and n1: "peer_of n1 ?pid \<noteq> None"
    using assms(1) by (simp add: add_peers_section_def accept_handshake_session_def Let_def put_peer_def update_conv')
  obtain m u where rm: "remove_peer E n1 ?pid w1 = (m, u)" by fastforce
  obtain n3 w3 where rest: "solo (run_sect E) ?rest (m, u) (n3, w3)" using threads.solo_returns [of E ?rest "(m, u)"] by auto
  have start: "run_sect E (AddStart a) (n, w) = ([AddPeers a now], (n, w1))" by (simp add: now)
  have run: "?run n3 w3"
    by (rule sched_first [where run = "run_sect E", OF start], simp only: append_Nil2)
      (rule sched_first [where run = "run_sect E", OF peers], simp only: append_Nil2,
       rule sched_second_solo [OF solo_remove [of E ?pid n1 w1, unfolded rm]], rule sched_first_solo [OF rest])
  have gone: "peer_of m ?pid = None" using rm by (auto simp: remove_peer_def delete_conv' split: option.splits)
  have n3: "n_peers n3 = n_peers m" "map_of (n_rx_sessions n3) (aa_rx_session_id a) = Some ?pid"
    "n_routes n3 = fold (\<lambda>r t. RouteTable_insert t r ?pid) ?rs (n_routes m)"
    using rest by (auto simp: solo_Cons bind_lighthouse_def update_conv')
  have routes: "route_map (n_routes n3) net = Some ?pid" if "net \<in> set ?rs" for net
    using that by (simp add: n3(3) route_map_fold)
  have "n3 \<noteq> fst (remove_peer E k ?pid v)" if "peer_of k ?pid \<noteq> None" for k v
  proof -
    have "route_map (n_routes (fst (remove_peer E k ?pid v))) (hd ?rs) \<noteq> Some ?pid"
      using that by (auto simp: remove_peer_def route_map_removed)
    then show ?thesis using routes [of "hd ?rs"] assms(2) by auto
  qed
  moreover have added: "peer_of (fst (snd (add_peer_args E k a v))) ?pid \<noteq> None" for k v
    using assms(1) by (simp add: add_peer_eq with_peer_fields accept_handshake_session_def)
  moreover have "n3 \<noteq> fst (snd (add_peer_args E k a v))" for k v using added [of k v] gone n3(1) by metis
  moreover have "send_to_overlay E n3 pkt overlay v = (n3, v)"
    if "parse_dest_ip pkt = Some dst" "RouteTable_lookup E (n_routes n3) dst = Some ?pid" for pkt dst overlay v
    using that gone n3(1) by (simp add: send_to_overlay_def peer_tx_def)
  ultimately show ?thesis
    using run gone n3(1,2) routes by (intro exI [of _ n3] exI [of _ w3]) simp
qed

theorem removed_peer_keeps_routes_witness:
  "\<exists>n' w'. (sched (run_sect demo_ext))\<^sup>*\<^sup>* ([[AddStart demo_args], [RemovePeers 0x03000000]], (demo_linked, demo_world)) ([[], []], (n', w'))
    \<and> peer_of n' 0x03000000 = None \<and> map_of (n_rx_sessions n') 11 = Some 0x03000000
    \<and> route_map (n_routes n') (IpNetwork (V4 0x0A000003) 32) = Some 0x03000000"
  using removed_peer_keeps_routes [of demo_args demo_ext demo_linked demo_world] demo_args_routes demo_routes(2)
  by (auto simp: demo_args_def)

text \<open>C26. A maintenance tick can drop a session it never looked at. It decides under the lock of the peers
  which of them are dead, and removes them by id afterwards. If the peer comes back with a new
  handshake in between, its new session is dropped with everything that belongs to it, although the
  tick before the handshake, as a unit, would have left the new session in place.\<close>

theorem tick_drops_fresh_session:
  assumes "peer_of n (aa_id a) = Some old" and "hm_wf (n_peers n)" and "peer_lost n (fst (instant_now w)) old" and "\<not> aa_simultaneous a"
    and "maintenance_tick E n w = Some (nt, wt)"
  shows "\<exists>n' w'. (sched (run_sect E))\<^sup>*\<^sup>* ([[Tick], [AddStart a]], (n, w)) ([[], []], (n', w'))
    \<and> peer_of n' (aa_id a) = None
    \<and> (\<exists>p. peer_of (fst (snd (add_peer_args E nt a wt))) (aa_id a) = Some p \<and> ps_rx_session_id p = aa_rx_session_id a)"
proof -
  let ?pid = "aa_id a"
  obtain now w1 where now: "instant_now w = (now, w1)" by fastforce
  obtain n2 w2 where rt: "retransmit_handshakes E n now w1 = (n2, w2)" by fastforce
  obtain ps drops acts w3 where l: "maintain_loop E n2 now (n_peers n2) w2 = Some (ps, drops, acts, w3)"
    using assms(5) by (auto simp: maintenance_tick_def maintain_peers_def now rt bind_eq_Some_conv)
  obtain n4 w4 where add: "snd (add_peer_args E (n2\<lparr>n_peers := ps\<rparr>) a w3) = (n4, w4)" by fastforce
  define s where "s = fold (do_action E) acts (fold (\<lambda>(pid, _) (n, w). remove_peer E n pid w) drops (n4, w4))"
  have tail: "solo (run_sect E) ((map (\<lambda>(pid, _). RemovePeers pid) drops @ map action_sect acts) @ [TickDiscovery now, TickCache now]) (n4, w4)
      (fst s\<lparr>n_discovery_pending := filter (\<lambda>(_, asked). now - asked < DISCOVERY_ENTRY_TTL) (n_discovery_pending (fst s)),
        n_handshake_cache := HandshakeCache_cleanup (n_handshake_cache (fst s)) now\<rparr>, snd s)" (is "solo _ _ _ (?n5, _)")
    by (rule solo_append [OF solo_drops]) (cases s, simp add: solo_Cons flip: s_def)
  have "(sched (run_sect E))\<^sup>*\<^sup>* ([[Tick], [AddStart a]], (n, w)) ([[], []], (?n5, snd s))"
  proof (rule sched_first)
    show "run_sect E Tick (n, w) = ([TickRelays now, TickPeers now], (n, w1))" by (simp add: now)
    have "(sched (run_sect E))\<^sup>*\<^sup>* ([[TickPeers now], [AddStart a]], (n2, w2)) ([[], []], (?n5, snd s))"
    proof (rule sched_first)
      show "run_sect E (TickPeers now) (n2, w2) =
          ((map (\<lambda>(pid, _). RemovePeers pid) drops @ map action_sect acts) @ [TickDiscovery now, TickCache now], (n2\<lparr>n_peers := ps\<rparr>, w3))"
        by (simp add: l)
    qed (simp only: append_Nil2, rule sched_second_solo [OF solo_add [of E a "n2\<lparr>n_peers := ps\<rparr>" w3, unfolded add] sched_first_solo [OF tail]])
    from sched_first_prefix [OF solo_retransmit [of E now n w1, unfolded rt] this]
    show "(sched (run_sect E))\<^sup>*\<^sup>* ([[TickRelays now, TickPeers now] @ [], [AddStart a]], (n, w1)) ([[], []], (?n5, snd s))"
      by simp
  qed
  moreover have n2: "n_peers n2 = n_peers n" "peer_lost n2 = peer_lost n"
    using retransmit_peers [of E n now w1] rt by (auto simp: peer_lost_def fun_eq_iff split: option.splits)
  have "?pid \<in> fst ` set drops"
    using arg_cong [OF maintain_loop_drops [OF l], of set] map_of_SomeD [OF assms(1)] assms(3) now n2 by force
  then have "peer_of (fst (fold (\<lambda>(pid, _) (n, w). remove_peer E n pid w) drops (n4, w4))) ?pid = None" by (simp add: remove_peers(1))
  then have "peer_of ?n5 ?pid = None"
    using arg_cong [OF actions_same [of "fold (\<lambda>(pid, _) (n, w). remove_peer E n pid w) drops (n4, w4)" E acts, unfolded same_peers_def, THEN conjunct1],
      of "\<lambda>v. map_of v ?pid"] by (simp add: peer_view_of flip: s_def)
  moreover have "\<exists>p. peer_of (fst (snd (add_peer_args E m a u))) ?pid = Some p \<and> ps_rx_session_id p = aa_rx_session_id a" for m u
    using assms(4) by (simp add: add_peer_eq with_peer_fields new_peer_fields accept_handshake_session_def)
  ultimately show ?thesis by blast
qed

theorem tick_drops_fresh_session_witness:
  "\<exists>n' w'. (sched (run_sect demo_ext))\<^sup>*\<^sup>* ([[Tick], [AddStart demo_args]], (demo_linked, demo_world\<lparr>mono := \<lambda>_. 10 ^ 15\<rparr>)) ([[], []], (n', w'))
    \<and> peer_of n' 0x03000000 = None"
proof -
  let ?w = "demo_world\<lparr>mono := \<lambda>_. 10 ^ 15\<rparr>"
  have "hm_wf (n_peers demo_linked)" using demo_linked(1) by (simp add: node_inv_def sessions_inv_def)
  moreover obtain nt wt where "maintenance_tick demo_ext demo_linked ?w = Some (nt, wt)" using demo_tick by auto
  ultimately show ?thesis
    using tick_drops_fresh_session [of demo_linked demo_args demo_link ?w demo_ext nt wt] demo_linked(2) demo_lost by (auto simp: demo_args_def)
qed

end
