(* ===== verification/Recv_Threads.thy ===== *)
theory Recv_Threads
  imports Threads_Safety
begin

text \<open>
  The rest of the daemon's operations split at their locks: what the receive thread does with a packet
  (relaying, both handshake messages, every kind of session packet) and what the lighthouse thread does
  in one round. The sections of \<open>Threads\<close> are embedded as they are. Reassembly is not a section: the
  assembler belongs to the receive thread alone, so a packet here is a message that is already complete.

  A section consists of what is done under one lock together with the work on local values before and
  after it. The two sections that draw a session id do not return if the generator delivers zeros only;
  such a section stays in its thread and runs again.
\<close>

declare map_of_eq_Some_iff [simp del] Some_eq_map_of_iff [simp del]

section \<open>Sections\<close>

datatype rsect =
    Op sect
  | Packet bool SocketAddr bytes
  | Relay bytes u32
  | Hs1Cache SocketAddr bytes
  | Hs1Process SocketAddr bytes instant
  | Hs1Relay SocketAddr HandshakeResponse u32
  | Hs1Pending SocketAddr HandshakeResponse u32 bool
  | NoteRelay u32 SocketAddr
  | NoteEndpoint u32 SocketAddr
  | SendAnswer bytes SocketAddr u32 u32
  | Hs2Pending SocketAddr bytes u32
  | Hs2Relay SocketAddr HandshakeResult SocketAddr
  | Hs2Existing SocketAddr HandshakeResult SocketAddr bool
  | SessLookup bool SocketAddr bytes NetworkHeader
  | SessOpen bool SocketAddr bytes NetworkHeader u32
  | DataCheck bool u32 bytes
  | QueryRoute u32 IpAddr
  | QueryPeers u32 IpAddr "u32 option"
  | SendResponse "SocketAddr \<times> u32 \<times> bytes"
  | ResponsePeers IpAddr u32 SocketAddr Cert
  | KeepaliveTx u32 u64 SocketAddr
  | AckPeer u32 u64
  | StartPending SocketAddr "u32 option" string
  | StartSend SocketAddr "u32 option" string
  | ConnectSlots
  | ConnectPeers "LighthouseSlot list"
  | ConnectOne LighthouseSlot "u32 option"

section \<open>What a section does\<close>

text \<open>\<open>handle_datagram\<close> after reassembly: local work, then the first section of the handler.\<close>

definition packet_section :: "ext \<Rightarrow> bool \<Rightarrow> SocketAddr \<Rightarrow> bytes \<Rightarrow> Node \<Rightarrow> rsect list" where
  "packet_section E tun src packet n =
     (case network_header E packet (n_network_key n) of
        None \<Rightarrow> []
      | Some header \<Rightarrow>
          if kind header = KIND_HANDSHAKE_1 then [Hs1Cache src packet]
          else if kind header = KIND_HANDSHAKE_2 then [Hs2Pending src packet (session_id header)]
          else if for_other n header then [Relay packet (dst_peer_id header)]
          else [SessLookup tun src packet header])"

text \<open>\<open>handle_handshake_1\<close>: the look into the cache; after it the processing and the entry in the cache; the
  question whether the source is a relay; the search among the pending handshakes, which fixes the
  arguments of \<open>add_peer\<close>.\<close>

definition answer_id :: "ext \<Rightarrow> bytes \<Rightarrow> u32" where
  "answer_id E packet = u32_from_be_bytes (take 4 (blake3_hash E packet))"

definition hs1_cache_section :: "ext \<Rightarrow> SocketAddr \<Rightarrow> bytes \<Rightarrow> Node \<Rightarrow> world \<Rightarrow> rsect list \<times> world" where
  "hs1_cache_section E src packet n w =
     (let (now, w) = instant_now w
      in case HandshakeCache_get (n_handshake_cache n) (blake3_hash E packet) now of
           Some entry \<Rightarrow> ([NoteRelay (ch_peer_id entry) src, SendAnswer (ch_response entry) src (ch_peer_id entry) (answer_id E packet)], w)
         | None \<Rightarrow> ([Hs1Process src packet now], w))"

definition hs1_process_section ::
  "ext \<Rightarrow> SocketAddr \<Rightarrow> bytes \<Rightarrow> instant \<Rightarrow> Node \<Rightarrow> world \<Rightarrow> rsect list \<times> Node \<times> world" where
  "hs1_process_section E src packet now n w =
     (case process_handshake_1 E packet (n_cert n) (n_signing_key n) (n_network_key n) (n_ca_vk n) (n_am_relay n) w of
        None \<Rightarrow> ([Hs1Process src packet now], n, w)
      | Some (Inl _, w) \<Rightarrow> ([], n, w)
      | Some (Inr response, w) \<Rightarrow>
          let pid = node_id_from_cert E (hr_peer_cert response)
          in if pid = n_our_id n then ([], n, w)
             else ([Hs1Relay src response (answer_id E packet)],
                   n\<lparr>n_handshake_cache := HandshakeCache_insert (n_handshake_cache n) (blake3_hash E packet) (hr_msg response) pid now\<rparr>, w))"

definition hs1_pending_section :: "ext \<Rightarrow> SocketAddr \<Rightarrow> HandshakeResponse \<Rightarrow> u32 \<Rightarrow> bool \<Rightarrow> Node \<Rightarrow> rsect list" where
  "hs1_pending_section E src response mid relayed n =
     (let pid = node_id_from_cert E (hr_peer_cert response);
          entry = find (\<lambda>(_, p). ph_peer_id p = Some pid) (n_pending n);
          direct = (case entry of
              Some (_, p) \<Rightarrow> Some (ph_direct_addr p)
            | None \<Rightarrow> if relayed then None else Some src)
      in [Op (AddStart \<lparr>aa_id = pid, aa_session_key = hr_session_key response, aa_cert = hr_peer_cert response, aa_addr = src,
            aa_direct_addr = direct, aa_relayed = relayed, aa_is_relay = hr_peer_is_relay response,
            aa_tx_session_id = hr_peer_rx_session_id response, aa_rx_session_id = hr_my_rx_session_id response,
            aa_initiator_id = pid, aa_simultaneous = (entry \<noteq> None)\<rparr>),
          SendAnswer (hr_msg response) src pid mid])"

text \<open>\<open>note_direct_endpoint\<close> under the second lock.\<close>

definition note_section :: "u32 \<Rightarrow> SocketAddr \<Rightarrow> Node \<Rightarrow> Node" where
  "note_section pid addr n =
     (case peer_of n pid of
        None \<Rightarrow> n
      | Some p \<Rightarrow>
          if ps_direct_addr p = Some addr then n
          else put_peer pid (p\<lparr>ps_direct_addr := Some addr, ps_next_probe := None\<rparr>) n)"

text \<open>\<open>handle_handshake_2\<close>: processing under the lock of the pending handshakes, the relay question (asked
  only when the answer came from where it was sent to), and the session that may already be there.\<close>

definition hs2_pending_section :: "ext \<Rightarrow> SocketAddr \<Rightarrow> bytes \<Rightarrow> u32 \<Rightarrow> Node \<Rightarrow> world \<Rightarrow> rsect list \<times> Node \<times> world" where
  "hs2_pending_section E src packet sid n w =
     (case map_of (n_pending n) sid of
        None \<Rightarrow> ([], n, w)
      | Some h \<Rightarrow>
          (case process_handshake_2 E packet (ph_initiate h) (n_network_key n) (n_ca_vk n) w of
             (Inl _, w) \<Rightarrow> ([], n, w)
           | (Inr result, w) \<Rightarrow>
               if (case ph_peer_id h of None \<Rightarrow> False | Some expected \<Rightarrow> expected \<noteq> node_id_from_cert E (hres_peer_cert result))
               then ([], n, w)
               else ([Hs2Relay src result (ph_direct_addr h)], n\<lparr>n_pending := AList.delete sid (n_pending n)\<rparr>, w)))"

definition hs2_existing_section :: "ext \<Rightarrow> SocketAddr \<Rightarrow> HandshakeResult \<Rightarrow> SocketAddr \<Rightarrow> bool \<Rightarrow> Node \<Rightarrow> rsect list" where
  "hs2_existing_section E src result direct relayed n =
     (let pid = node_id_from_cert E (hres_peer_cert result);
          simultaneous = (case peer_of n pid of
              None \<Rightarrow> False
            | Some existing \<Rightarrow> ps_handshake_initiator_id existing \<noteq> n_our_id n)
      in [Op (AddStart \<lparr>aa_id = pid, aa_session_key = hres_session_key result, aa_cert = hres_peer_cert result, aa_addr = src,
            aa_direct_addr = Some direct, aa_relayed = relayed, aa_is_relay = hres_peer_is_relay result,
            aa_tx_session_id = hres_peer_rx_session_id result, aa_rx_session_id = hres_my_rx_session_id result,
            aa_initiator_id = n_our_id n, aa_simultaneous = simultaneous\<rparr>)])"

text \<open>\<open>handle_session_packet\<close> after the packet is opened: the first section of the handler of its kind.\<close>

fun dispatch_sects :: "bool \<Rightarrow> SocketAddr \<Rightarrow> u32 \<Rightarrow> PacketBody \<Rightarrow> Node \<Rightarrow> rsect list" where
  "dispatch_sects tun src pid (Data _ pkt) n = [DataCheck tun pid pkt]"
| "dispatch_sects tun src pid (LighthouseQuery _ target) n = (if n_am_lighthouse n then [QueryRoute pid target] else [])"
| "dispatch_sects tun src pid (LighthouseResponse _ target found_id addr cert relay) n = [ResponsePeers target found_id addr cert]"
| "dispatch_sects tun src pid (LighthouseNotFound _ _) n = []"
| "dispatch_sects tun src pid (Keepalive _ tok) n = [KeepaliveTx pid tok src]"
| "dispatch_sects tun src pid (KeepaliveAck _ tok) n = [AckPeer pid tok]"
| "dispatch_sects tun src pid (RelayForward _ next inner) n = (if n_am_relay n then [Relay inner next] else [])"
| "dispatch_sects tun src pid (Disconnect _) n = [Op (RemovePeers pid)]"

definition session_section ::
  "ext \<Rightarrow> bool \<Rightarrow> SocketAddr \<Rightarrow> bytes \<Rightarrow> NetworkHeader \<Rightarrow> u32 \<Rightarrow> Node \<Rightarrow> world \<Rightarrow> rsect list \<times> Node \<times> world" where
  "session_section E tun src packet header pid n w =
     (case open_session_packet E n src packet header pid w of
        None \<Rightarrow> ([], n, w)
      | Some (b, n, w) \<Rightarrow> (dispatch_sects tun src pid b n, n, w))"

text \<open>The lock section of \<open>handle_lighthouse_query\<close>, after the lock of the routes is released.\<close>

definition query_section :: "ext \<Rightarrow> u32 \<Rightarrow> IpAddr \<Rightarrow> u32 option \<Rightarrow> Node \<Rightarrow> world \<Rightarrow> rsect list \<times> Node \<times> world" where
  "query_section E requester_id target target_id n w =
     (case peer_of n requester_id of
        None \<Rightarrow> ([], n, w)
      | Some requester \<Rightarrow>
          let found = Option.bind target_id (\<lambda>i. map_option (\<lambda>p. (i, p)) (peer_of n i));
              (responses, n, w) = lighthouse_answers E n requester_id target requester found w
          in (map SendResponse responses, n, w))"

definition response_section :: "ext \<Rightarrow> IpAddr \<Rightarrow> u32 \<Rightarrow> SocketAddr \<Rightarrow> Cert \<Rightarrow> Node \<Rightarrow> world \<Rightarrow> rsect list \<times> Node \<times> world" where
  "response_section E target pid addr cert n w =
     (if pid = n_our_id n then ([], n, w)
      else
        let (ok, w) = Cert_verify E cert (n_ca_vk n) w
        in if \<not> ok then ([], n, w)
           else if node_id_from_cert E cert \<noteq> pid then ([], n, w)
           else if \<not> list_ex (\<lambda>route. net_contains E route target) (authorized_peer_routes E cert) then ([], n, w)
           else
             case peer_of n pid of
               Some p \<Rightarrow> ([], note_section pid addr n, w)
             | None \<Rightarrow> ([StartPending addr (Some pid) (meta_name (meta (body cert)))], n, w))"

text \<open>\<open>start_handshake\<close> after the lock for the search of duplicates is released.\<close>

definition start_section ::
  "ext \<Rightarrow> SocketAddr \<Rightarrow> u32 option \<Rightarrow> string \<Rightarrow> Node \<Rightarrow> world \<Rightarrow> rsect list \<times> Node \<times> world" where
  "start_section E addr pid name n w =
     (case create_handshake_1 E (n_cert n) (n_signing_key n) (n_network_key n) (n_am_relay n) w of
        None \<Rightarrow> ([StartSend addr pid name], n, w)
      | Some (initiate, w) \<Rightarrow>
          let sid = hi_my_rx_session_id initiate;
              (sent, w) = send_message_with_id E n (hi_msg initiate) addr (case pid of None \<Rightarrow> 0 | Some i \<Rightarrow> i) sid w
          in if \<not> sent then ([], n, w)
             else
               let (now, w) = instant_now w
               in ([], n\<lparr>n_pending := AList.update sid (PendingHandshake_new initiate addr pid name now) (n_pending n)\<rparr>, w))"

text \<open>One round of \<open>connect_lighthouses\<close>. The sources leave the loop when \<open>running\<close> is found false; \<open>running\<close> is
  never set again, so that the remaining slots, which ask as well, then do nothing either.\<close>

definition connect_peers_section :: "LighthouseSlot list \<Rightarrow> Node \<Rightarrow> rsect list" where
  "connect_peers_section ls n =
     map (\<lambda>l. ConnectOne l (case ls_peer_id l of
            None \<Rightarrow> None
          | Some pid \<Rightarrow> if peer_of n pid \<noteq> None then Some pid else None)) ls"

definition connect_section :: "LighthouseSlot \<Rightarrow> u32 option \<Rightarrow> Node \<Rightarrow> world \<Rightarrow> rsect list \<times> Node \<times> world" where
  "connect_section l connected n w =
     (if \<not> n_running n \<or> connected \<noteq> None then ([], n, w)
      else
        let (address, n, w) = refresh_lighthouse_address n l w
        in ([StartPending address None (ls_name l)], n, w))"

fun run_rsect :: "ext \<Rightarrow> rsect \<Rightarrow> Node \<times> world \<Rightarrow> rsect list \<times> Node \<times> world" where
  "run_rsect E (Op a) s = (let (todo, s) = run_sect E a s in (map Op todo, s))"
| "run_rsect E (Packet tun src packet) (n, w) = (packet_section E tun src packet n, n, w)"
| "run_rsect E (Relay data dst) (n, w) = ([], n, relay_datagram n data dst w)"
| "run_rsect E (Hs1Cache src packet) (n, w) = (let (todo, w) = hs1_cache_section E src packet n w in (todo, n, w))"
| "run_rsect E (Hs1Process src packet now) (n, w) = hs1_process_section E src packet now n w"
| "run_rsect E (Hs1Relay src response mid) (n, w) = ([Hs1Pending src response mid (addr_is_relay n src)], n, w)"
| "run_rsect E (Hs1Pending src response mid relayed) (n, w) = (hs1_pending_section E src response mid relayed n, n, w)"
| "run_rsect E (NoteRelay pid addr) (n, w) = (if addr_is_relay n addr then [] else [NoteEndpoint pid addr], n, w)"
| "run_rsect E (NoteEndpoint pid addr) (n, w) = ([], note_section pid addr n, w)"
| "run_rsect E (SendAnswer m addr pid mid) (n, w) = ([], n, snd (send_message_with_id E n m addr pid mid w))"
| "run_rsect E (Hs2Pending src packet sid) (n, w) = hs2_pending_section E src packet sid n w"
| "run_rsect E (Hs2Relay src result direct) (n, w) =
     ([Hs2Existing src result direct (src \<noteq> direct \<or> addr_is_relay n src)], n, w)"
| "run_rsect E (Hs2Existing src result direct relayed) (n, w) = (hs2_existing_section E src result direct relayed n, n, w)"
| "run_rsect E (SessLookup tun src packet header) (n, w) =
     ((case map_of (n_rx_sessions n) (session_id header) of None \<Rightarrow> [] | Some pid \<Rightarrow> [SessOpen tun src packet header pid]), n, w)"
| "run_rsect E (SessOpen tun src packet header pid) (n, w) = session_section E tun src packet header pid n w"
| "run_rsect E (DataCheck tun pid pkt) (n, w) = ([], n, handle_data E tun n pid pkt w)"
| "run_rsect E (QueryRoute pid target) (n, w) = ([QueryPeers pid target (RouteTable_lookup E (n_routes n) target)], n, w)"
| "run_rsect E (QueryPeers pid target tid) (n, w) = query_section E pid target tid n w"
| "run_rsect E (SendResponse r) (n, w) = ([], n, case r of (addr, pid, wire) \<Rightarrow> snd (send_message E n wire addr pid w))"
| "run_rsect E (ResponsePeers target pid addr cert) (n, w) = response_section E target pid addr cert n w"
| "run_rsect E (KeepaliveTx pid tok reply_to) (n, w) = ([], answer_keepalive E n pid tok reply_to w)"
| "run_rsect E (AckPeer pid tok) (n, w) = ([], handle_keepalive_ack n pid tok w)"
| "run_rsect E (StartPending addr pid name) (n, w) =
     (if list_ex (\<lambda>(_, p). handshake_duplicate addr pid p) (n_pending n) then [] else [StartSend addr pid name], n, w)"
| "run_rsect E (StartSend addr pid name) (n, w) = start_section E addr pid name n w"
| "run_rsect E ConnectSlots (n, w) = ([ConnectPeers (n_lighthouses n)], n, w)"
| "run_rsect E (ConnectPeers ls) (n, w) = (connect_peers_section ls n, n, w)"
| "run_rsect E (ConnectOne l connected) (n, w) = connect_section l connected n w"

fun rsect_rank :: "rsect \<Rightarrow> nat" where
  "rsect_rank (Op a) = sect_rank a"
| "rsect_rank (Packet _ _ _) = 8"
| "rsect_rank (Hs1Cache _ _) = 7"
| "rsect_rank (Hs1Process _ _ _) = 5"
| "rsect_rank (Hs1Relay _ _ _) = 4"
| "rsect_rank (Hs1Pending _ _ _ _) = 3"
| "rsect_rank (NoteRelay _ _) = 1"
| "rsect_rank (Hs2Pending _ _ _) = 5"
| "rsect_rank (Hs2Relay _ _ _) = 4"
| "rsect_rank (Hs2Existing _ _ _ _) = 3"
| "rsect_rank (SessLookup _ _ _ _) = 5"
| "rsect_rank (SessOpen _ _ _ _ _) = 4"
| "rsect_rank (QueryRoute _ _) = 2"
| "rsect_rank (QueryPeers _ _ _) = 1"
| "rsect_rank (ResponsePeers _ _ _ _) = 3"
| "rsect_rank (StartPending _ _ _) = 2"
| "rsect_rank (StartSend _ _ _) = 1"
| "rsect_rank ConnectSlots = 5"
| "rsect_rank (ConnectPeers _) = 4"
| "rsect_rank (ConnectOne _ _) = 3"
| "rsect_rank _ = 0"

section \<open>One thread alone\<close>

lemma solo_ops: "solo (run_rsect E) (map Op as) s s' \<longleftrightarrow> solo (run_sect E) as s s'"
proof -
  have lift: "solo (run_sect E) as s s' \<Longrightarrow> solo (run_rsect E) (map Op as) s s'" for as s s'
    by (induction rule: solo.induct) (auto simp: solo_Cons)
  obtain t where "solo (run_sect E) as s t" using threads.solo_returns [of E as s] by auto
  with lift [OF this] show ?thesis using solo_deterministic lift by metis
qed

lemma solo_op: "solo (run_rsect E) [Op a] s s' \<longleftrightarrow> solo (run_sect E) [a] s s'"
  using solo_ops [of E "[a]"] by simp

lemma solo_op_iff:
  "solo (run_rsect E) (Op (AddStart a) # as) (n, w) s \<longleftrightarrow>
     solo (run_rsect E) as (fst (snd (add_peer_args E n a w)), snd (snd (add_peer_args E n a w))) s"
  "solo (run_rsect E) [Op (RemovePeers pid)] (n, w) s \<longleftrightarrow> s = remove_peer E n pid w"
proof -
  have "solo (run_rsect E) [Op (AddStart a)] (n, w) t \<longleftrightarrow> t = snd (add_peer_args E n a w)" for t
    unfolding solo_op by (rule solo_iff [OF solo_add])
  then show "solo (run_rsect E) (Op (AddStart a) # as) (n, w) s \<longleftrightarrow>
      solo (run_rsect E) as (fst (snd (add_peer_args E n a w)), snd (snd (add_peer_args E n a w))) s"
    using solo_append_iff [of "run_rsect E" "[Op (AddStart a)]" as "(n, w)" s] by simp
  show "solo (run_rsect E) [Op (RemovePeers pid)] (n, w) s \<longleftrightarrow> s = remove_peer E n pid w"
    unfolding solo_op by (rule solo_iff [OF solo_remove])
qed

lemma solo_start: "solo (run_rsect E) [StartPending addr pid name] (n, w) s \<longleftrightarrow> map_option snd (start_handshake E n addr pid name w) = Some s"
proof (cases "create_handshake_1 E (n_cert n) (n_signing_key n) (n_network_key n) (n_am_relay n) w")
  case None
  have "\<not> solo (run_rsect E) [StartSend addr pid name] (n, w) s"
    by (rule solo_stuck) (simp add: start_section_def None)
  then show ?thesis by (auto simp: solo_Cons [of _ "StartPending addr pid name"] start_handshake_def None)
next
  case (Some iw)
  obtain ini w1 where c: "create_handshake_1 E (n_cert n) (n_signing_key n) (n_network_key n) (n_am_relay n) w = Some (ini, w1)"
    using Some by (cases iw) simp
  obtain sent w2 where m: "send_message_with_id E n (hi_msg ini) addr (case pid of None \<Rightarrow> 0 | Some i \<Rightarrow> i) (hi_my_rx_session_id ini) w1 = (sent, w2)"
    by fastforce
  show ?thesis
    by (cases sent) (auto simp: solo_Cons start_handshake_def start_section_def c m split_beta Let_def)
qed

lemma solo_connect_loop:
  "solo (run_rsect E) (map (\<lambda>(l, c). ConnectOne l c) ls) (n, w) s \<longleftrightarrow> connect_loop E ls n w = Some s"
proof (induction ls arbitrary: n w)
  case (Cons x ls)
  obtain l c where x: "x = (l, c)" by fastforce
  obtain a n1 w1 where r: "refresh_lighthouse_address n l w = (a, n1, w1)" by (metis prod_cases3)
  show ?case
  proof (cases "n_running n")
    case False
    have "connect_loop E ls n w = Some (n, w)" using False by (induction ls) auto
    then show ?thesis using Cons.IH [of n w] False by (auto simp: x solo_Cons connect_section_def)
  next
    case True
    have "solo (run_rsect E) (StartPending a None (ls_name l) # map (\<lambda>(l, c). ConnectOne l c) ls) (n1, w1) s
        \<longleftrightarrow> (\<exists>n2 w2. map_option snd (start_handshake E n1 a None (ls_name l) w1) = Some (n2, w2) \<and> connect_loop E ls n2 w2 = Some s)"
      using solo_append_iff [of "run_rsect E" "[StartPending a None (ls_name l)]" "map (\<lambda>(l, c). ConnectOne l c) ls" "(n1, w1)" s]
        solo_start [of E a None "ls_name l" n1 w1] Cons.IH by simp
    then show ?thesis
      using True Cons.IH [of n w]
      by (cases c) (auto simp: x solo_Cons [of _ "ConnectOne _ _"] connect_section_def r split: option.splits)
  qed
qed auto

lemma solo_connect: "solo (run_rsect E) [ConnectSlots] (n, w) s \<longleftrightarrow> connect_lighthouses E n w = Some s"
  using solo_connect_loop [of E "map (\<lambda>l. (l, case ls_peer_id l of None \<Rightarrow> None
      | Some pid \<Rightarrow> if peer_of n pid \<noteq> None then Some pid else None)) (n_lighthouses n)" n w s]
  by (simp add: solo_Cons [of _ ConnectSlots] solo_Cons [of _ "ConnectPeers _"] connect_peers_section_def connect_lighthouses_def comp_def)

lemma solo_note: "solo (run_rsect E) (NoteRelay pid addr # as) (n, w) s \<longleftrightarrow> solo (run_rsect E) as (note_direct_endpoint n pid addr, w) s"
  by (simp add: solo_Cons [of _ "NoteRelay _ _"] solo_Cons [of _ "NoteEndpoint _ _"] note_section_def note_direct_endpoint_def)

lemma solo_handshake_1: "solo (run_rsect E) [Hs1Cache src packet] (n, w) s \<longleftrightarrow> handle_handshake_1 E n src packet w = Some s"
proof -
  let ?d = "blake3_hash E packet"
  obtain now w0 where i: "instant_now w = (now, w0)" by fastforce
  show ?thesis
  proof (cases "HandshakeCache_get (n_handshake_cache n) ?d now")
    case (Some e)
    then show ?thesis
      by (auto simp: solo_Cons [of _ "Hs1Cache _ _"] solo_Cons [of _ "SendAnswer _ _ _ _"] hs1_cache_section_def i solo_note
          handle_handshake_1_def answer_id_def Let_def split_beta)
  next
    case None
    note head = None solo_Cons [of _ "Hs1Cache _ _"] hs1_cache_section_def i handle_handshake_1_def
    show ?thesis
    proof (cases "process_handshake_1 E packet (n_cert n) (n_signing_key n) (n_network_key n) (n_ca_vk n) (n_am_relay n) w0")
      case stuck: None
      have "\<not> solo (run_rsect E) [Hs1Process src packet now] (n, w0) s"
        by (rule solo_stuck) (simp add: hs1_process_section_def stuck)
      then show ?thesis by (simp add: head stuck)
    next
      case (Some rw)
      obtain r w1 where rw: "rw = (r, w1)" by fastforce
      show ?thesis
        by (cases r; cases "node_id_from_cert E (hr_peer_cert (projr r)) = n_our_id n")
           (auto simp: head Some rw solo_Cons [of _ "Hs1Process _ _ _"] hs1_process_section_def solo_Cons [of _ "Hs1Relay _ _ _"]
              solo_Cons [of _ "Hs1Pending _ _ _ _"] hs1_pending_section_def solo_op_iff solo_Cons [of _ "SendAnswer _ _ _ _"]
              addr_is_relay_def answer_id_def Let_def split_beta simp del: prod.collapse)
    qed
  qed
qed

lemma solo_handshake_2: "solo (run_rsect E) [Hs2Pending src packet sid] (n, w) s \<longleftrightarrow> s = handle_handshake_2 E n src packet sid w"
proof (cases "map_of (n_pending n) sid")
  case None
  then show ?thesis by (auto simp: solo_Cons hs2_pending_section_def handle_handshake_2_def)
next
  case (Some h)
  obtain r w1 where r: "process_handshake_2 E packet (ph_initiate h) (n_network_key n) (n_ca_vk n) w = (r, w1)" by fastforce
  note steps = Some r solo_Cons [of _ "Hs2Pending _ _ _"] hs2_pending_section_def handle_handshake_2_def
  show ?thesis
  proof (cases r)
    case (Inl e)
    then show ?thesis by (auto simp: steps)
  next
    case (Inr res)
    show ?thesis
    proof (cases "case ph_peer_id h of None \<Rightarrow> False | Some expected \<Rightarrow> expected \<noteq> node_id_from_cert E (hres_peer_cert res)")
      case True
      then show ?thesis using Inr by (auto simp: steps split: option.splits)
    next
      case False
      then show ?thesis using Inr
        by (auto simp: steps solo_Cons [of _ "Hs2Relay _ _ _"] solo_Cons [of _ "Hs2Existing _ _ _ _"] hs2_existing_section_def
            solo_op_iff addr_is_relay_def Let_def split_beta)
    qed
  qed
qed

lemma solo_responses:
  "solo (run_rsect E) (map SendResponse rs) s0 s \<longleftrightarrow>
     s = (fst s0, fold (\<lambda>(addr, pid, wire) w. snd (send_message E (fst s0) wire addr pid w)) rs (snd s0))"
proof (induction rs arbitrary: s0)
  case (Cons r rs)
  show ?case by (cases s0) (simp add: solo_Cons Cons.IH split_beta)
qed auto

lemma solo_query: "n_am_lighthouse n \<Longrightarrow>
  solo (run_rsect E) [QueryRoute pid target] (n, w) s \<longleftrightarrow> s = handle_lighthouse_query E n pid target w"
  by (auto simp: solo_Cons [of _ "QueryRoute _ _"] solo_Cons [of _ "QueryPeers _ _ _"] query_section_def solo_responses
      handle_lighthouse_query_def Let_def split_beta split: option.splits)

lemma solo_response:
  "solo (run_rsect E) [ResponsePeers target pid addr cert] (n, w) s \<longleftrightarrow> handle_lighthouse_response E n target pid addr cert w = Some s"
  by (auto simp: solo_Cons [of _ "ResponsePeers _ _ _ _"] response_section_def note_section_def solo_start
      handle_lighthouse_response_def Let_def split_beta split: option.splits)

lemma solo_dispatch: "solo (run_rsect E) (dispatch_sects tun src pid b n) (n, w) s \<longleftrightarrow> dispatch E tun src pid b n w = Some s"
proof (cases b)
  case (LighthouseQuery sq target)
  then show ?thesis by (cases "n_am_lighthouse n") (auto simp: solo_query handle_lighthouse_query_def)
next
  case (LighthouseResponse sq target pid addr cert relay)
  then show ?thesis by (simp add: solo_response)
next
  case (Disconnect sq)
  then show ?thesis by (auto simp: solo_op_iff)
qed (auto simp: solo_Cons)

lemma solo_session:
  "solo (run_rsect E) [SessLookup tun src packet header] (n, w) s \<longleftrightarrow> handle_session_packet E tun n src packet header w = Some s"
  by (auto simp: solo_Cons [of _ "SessLookup _ _ _ _"] solo_Cons [of _ "SessOpen _ _ _ _ _"] session_section_def
      handle_session_packet_def solo_dispatch split: option.splits)

lemma solo_relay: "solo (run_rsect E) [Relay data dst] (n, w) s \<longleftrightarrow> s = (n, relay_datagram n data dst w)"
  by (auto simp: solo_Cons)

lemma solo_packet: "solo (run_rsect E) [Packet tun src packet] (n, w) s \<longleftrightarrow> handle_packet E tun n src packet w = Some s"
  by (auto simp: solo_Cons [of _ "Packet _ _ _"] packet_section_def handle_packet_def solo_handshake_1 solo_handshake_2 solo_relay
      solo_session split: option.splits)

section \<open>Every schedule ends\<close>

text \<open>No section silences the generator, and only \<open>DataCheck\<close> writes to the TUN device.\<close>

lemma quiet_resend: "quiet w0 w \<Longrightarrow> quiet w0 (send_retransmission E n r w)"
  by (auto simp: send_retransmission_def quiet_simps intro!: quiet_fold)

lemma quiet_bye: "quiet w0 w \<Longrightarrow> quiet w0 (send_disconnect E nk t w)"
  by (simp add: send_disconnect_def Let_def split_beta quiet_simps)

lemma sect_quiet: "quiet w (snd (snd (run_sect E a (n, w))))"
  by (cases a) (auto simp: Let_def split_beta discover_section_def outbound_send_section_def quiet_simps quiet_resend quiet_bye
      split: option.splits dest: quiet_maintain_loop [OF quiet_refl])

lemma rsect_quiet: "(\<And>tun pid pkt. a \<noteq> DataCheck tun pid pkt) \<Longrightarrow> quiet w (snd (snd (run_rsect E a (n, w))))"
proof (cases a)
  case (Hs1Process src packet now)
  then show ?thesis
    using quiet_process_1 [OF quiet_refl, of E packet "n_cert n" "n_signing_key n" "n_network_key n" "n_ca_vk n" "n_am_relay n" w]
    by (auto simp: hs1_process_section_def Let_def quiet_refl split: option.splits sum.splits)
next
  case (Hs2Pending src packet sid)
  have "quiet w w1" if "process_handshake_2 E packet ini (n_network_key n) (n_ca_vk n) w = (r, w1)" for ini r w1
    using that quiet_process_2 [OF quiet_refl [of w], of E packet ini "n_network_key n" "n_ca_vk n"] by simp
  with Hs2Pending show ?thesis
    by (auto simp: hs2_pending_section_def quiet_refl split: option.splits sum.splits prod.splits)
next
  case (SessOpen tun src packet header pid)
  then show ?thesis by (auto simp: session_section_def quiet_simps split: option.splits dest: open_session_world)
next
  case (StartSend addr pid name)
  then show ?thesis
    using quiet_create [OF quiet_refl, of E "n_cert n" "n_signing_key n" "n_network_key n" "n_am_relay n" w]
    by (auto simp: start_section_def Let_def split_beta quiet_simps split: option.splits)
qed (auto simp: sect_quiet hs1_cache_section_def query_section_def response_section_def connect_section_def Let_def split_beta quiet_simps
       split: option.splits)

lemma rsect_live:
  assumes "rng_live w" and "run_rsect E a (n, w) = (todo, n', w')"
  shows "rng_live w'"
proof (cases "\<exists>tun pid pkt. a = DataCheck tun pid pkt")
  case True
  then obtain tun pid pkt where "w' = handle_data E tun n pid pkt w" using assms(2) by auto
  then show ?thesis using assms(1) handle_data_effect [of E tun n pid pkt w] by (auto simp: tun_write_def rng_live_def)
next
  case False
  then show ?thesis using rsect_quiet [of a w E n] assms by (auto simp: quiet_def)
qed

lemma dispatch_rank: "b \<in> set (dispatch_sects tun src pid pb n) \<Longrightarrow> rsect_rank b < 4"
  by (cases pb) (auto split: if_splits)

interpretation all_threads: ranked_threads "run_rsect E" rsect_rank "\<lambda>s. rng_live (snd s)" for E
proof
  fix s a todo s'
  assume "rng_live (snd s)" "run_rsect E a s = (todo, s')"
  then show "rng_live (snd s')" by (cases s; cases s') (auto dest: rsect_live)
next
  fix s a todo s' b
  assume live: "rng_live (snd s)" and run: "run_rsect E a s = (todo, s')" and b: "b \<in> set todo"
  obtain n w where s: "s = (n, w)" by fastforce
  show "rsect_rank b < rsect_rank a"
  proof (cases a)
    case (Op c)
    then show ?thesis using run b threads.rank_falls [of E c s] by (auto simp: split_beta prod_eq_iff)
  next
    case (Hs1Process src packet now)
    then show ?thesis
      using run b s live process_1_returns [of w E packet "n_cert n" "n_signing_key n" "n_network_key n" "n_ca_vk n" "n_am_relay n"]
      by (auto simp: hs1_process_section_def Let_def split: option.splits sum.splits if_splits)
  next
    case (StartSend addr pid name)
    then show ?thesis
      using run b s live create_returns [of w E "n_cert n" "n_signing_key n" "n_network_key n" "n_am_relay n"]
      by (auto simp: start_section_def Let_def split_beta split: option.splits if_splits)
  next
    case (SessOpen tun src packet header pid)
    then show ?thesis using run b s dispatch_rank by (fastforce simp: session_section_def split: option.splits)
  qed (use run b s in \<open>auto simp: packet_section_def hs1_cache_section_def hs1_pending_section_def hs2_pending_section_def
         hs2_existing_section_def query_section_def response_section_def connect_peers_section_def connect_section_def Let_def split_beta
         split: option.splits sum.splits prod.splits if_splits\<close>)
qed

section \<open>Certificates and the TUN device under every schedule\<close>

lemma tables_put: "peer_of n pid = Some p \<Longrightarrow> peer_static p' = peer_static p \<Longrightarrow> tables (put_peer pid p' n) = tables n"
  by (simp add: put_peer_def peer_view_update tables_peers)

lemma tables_note: "tables (note_section pid addr n) = tables n"
  by (auto simp: note_section_def static_simps split: option.splits intro: tables_put)

lemma tables_answers:
  assumes "peer_of n rid = Some req"
  shows "tables (fst (snd (lighthouse_answers E n rid target req found w))) = tables n"
proof -
  have one: "tables (put_peer rid (snd (next_seq req)) n) = tables n" by (rule tables_put [OF assms]) (simp add: static_simps)
  moreover have "tables (put_peer i (snd (next_seq p)) (put_peer rid (snd (next_seq req)) n)) = tables n"
    if "peer_of (put_peer rid (snd (next_seq req)) n) i = Some p" for i p
    using tables_put [OF that, of "snd (next_seq p)"] one by (simp add: static_simps)
  ultimately show ?thesis by (auto simp: lighthouse_answers_def Let_def split_beta split: option.splits)
qed

lemma tables_session: "tables (fst (snd (session_section E tun src packet header pid n w))) = tables n"
  by (auto simp: session_section_def split: option.splits elim!: open_session_packet_SomeD intro: tables_put)

lemma rsect_tables: "(\<And>c. a \<noteq> Op c) \<Longrightarrow> tables (fst (snd (run_rsect E a (n, w)))) = tables n"
proof (cases a)
  case (KeepaliveTx pid tok src)
  then show ?thesis by (auto simp: answer_keepalive_def Let_def split_beta split: option.splits dest: tables_tx)
next
  case (AckPeer pid tok)
  then show ?thesis
    by (auto simp: handle_keepalive_ack_def Let_def split_beta static_simps split: option.splits intro: tables_put)
next
  case (ConnectOne l connected)
  then show ?thesis by (auto simp: connect_section_def refresh_lighthouse_address_def Let_def split_beta tables_node_simps)
qed (auto simp: tables_note tables_session hs1_cache_section_def hs1_process_section_def hs2_pending_section_def query_section_def
       response_section_def start_section_def Let_def split_beta tables_node_simps tables_answers
       split: option.splits sum.splits)

text \<open>A handshake that is being completed belongs to a certificate of the CA.\<close>

fun rsect_ok :: "ext \<Rightarrow> CaVerifyKey \<Rightarrow> rsect \<Rightarrow> bool" where
  "rsect_ok E vk (Op a) = sect_ok E vk a"
| "rsect_ok E vk (Hs1Relay _ response _) = issued E (hr_peer_cert response) vk"
| "rsect_ok E vk (Hs1Pending _ response _ _) = issued E (hr_peer_cert response) vk"
| "rsect_ok E vk (Hs2Relay _ result _) = issued E (hres_peer_cert result) vk"
| "rsect_ok E vk (Hs2Existing _ result _ _) = issued E (hres_peer_cert result) vk"
| "rsect_ok E vk _ = True"

fun safe_pool :: "ext \<Rightarrow> Node \<Rightarrow> rsect multiset \<Rightarrow> Node \<times> world \<Rightarrow> bool" where
  "safe_pool E n0 P (n, w) \<longleftrightarrow>
     node_config n = node_config n0 \<and> peers_ok E n \<and> routes_ok E n \<and> (\<forall>a \<in># P. rsect_ok E (n_ca_vk n0) a)
   \<and> (\<forall>pkt \<in> set (tun_out w). authorized_packet E n0 pkt)"

lemma rtodo_ok:
  assumes "run_rsect E a (n, w) = (todo, n', w')" and "rsect_ok E (n_ca_vk n) a" and "b \<in> set todo"
  shows "rsect_ok E (n_ca_vk n) b"
proof (cases a)
  case (Op c)
  then show ?thesis using assms todo_ok [of E c n w _ n' w' "n_ca_vk n"] by (auto simp: split_beta prod_eq_iff)
next
  case (Hs1Process src packet now)
  then show ?thesis
    using assms(1,3) by (auto simp: hs1_process_section_def Let_def split: option.splits sum.splits if_splits) (rule process_1_issued)
next
  case (Hs2Pending src packet sid)
  then show ?thesis
    using assms(1,3) by (auto simp: hs2_pending_section_def split: option.splits prod.splits sum.splits if_splits dest: process_2_issued)
next
  case (SessOpen tun src packet header pid)
  have "rsect_ok E vk c" if "c \<in> set (dispatch_sects tun src pid pb m)" for c pb m vk
    using that by (cases pb) (auto split: if_splits)
  then show ?thesis using SessOpen assms(1,3) by (auto simp: session_section_def split: option.splits)
qed (use assms in \<open>auto simp: packet_section_def hs1_cache_section_def hs1_pending_section_def hs2_existing_section_def query_section_def
       response_section_def start_section_def connect_peers_section_def connect_section_def args_ok_def Let_def split_beta
       split: option.splits if_splits\<close>)

lemma data_section_authorized:
  assumes "peers_ok E n" and "\<forall>pkt \<in> set (tun_out w). authorized_packet E n pkt"
  shows "\<forall>pkt \<in> set (tun_out (handle_data E tun n pid x w)). authorized_packet E n pkt"
  using handle_data_effect [of E tun n pid x w] assms peer_packet_authorized unfolding peers_ok_def tun_write_def by fastforce

lemma op_pool: "safe_pool E n0 (add_mset (Op c) P) (n, w) \<Longrightarrow> certified_pool E n0 {#c#} (n, w)"
  by simp

interpretation safe: pool_invariant "run_rsect E" "safe_pool E n0" for E n0
proof
  fix a P s todo s'
  assume inv: "safe_pool E n0 (add_mset a P) s" and run: "run_rsect E a s = (todo, s')"
  obtain n w n' w' where s: "s = (n, w)" "s' = (n', w')" by fastforce
  have ok: "node_config n = node_config n0" "peers_ok E n" "routes_ok E n" "rsect_ok E (n_ca_vk n) a"
    "\<forall>pkt \<in> set (tun_out w). authorized_packet E n0 pkt" and vk: "n_ca_vk n = n_ca_vk n0"
    and same: "authorized_packet E n = authorized_packet E n0"
    using inv s node_config_fields [of n n0] authorized_packet_cong [of n n0 E] by auto
  have "node_config n' = node_config n \<and> peers_ok E n' \<and> routes_ok E n'"
  proof (cases "\<exists>c. a = Op c")
    case True
    then obtain c todo' where c: "a = Op c" "run_sect E c (n, w) = (todo', n', w')" using run s by (auto simp: split_beta prod_eq_iff)
    show ?thesis
      using certified.inv_section [OF op_pool [OF inv [unfolded s c(1)]] c(2)] ok(1) by simp
  next
    case False
    then have "tables n' = tables n" using rsect_tables [of a E n w] run s by auto
    with ok show ?thesis
      using peers_ok_view [of n' n] node_config_fields [of n' n] by (simp add: tables_def routes_ok_def)
  qed
  moreover have "\<forall>pkt \<in> set (tun_out w'). authorized_packet E n0 pkt"
  proof (cases "\<exists>tun pid pkt. a = DataCheck tun pid pkt")
    case True
    then show ?thesis using run s data_section_authorized [OF ok(2), of w] ok(5) same by auto
  next
    case False
    then show ?thesis using rsect_quiet [of a w E n] run s ok(5) by (auto simp: quiet_def)
  qed
  ultimately show "safe_pool E n0 (mset todo + P) s'"
    using s ok inv rtodo_ok [OF run [unfolded s]] vk by auto
qed

section \<open>Programs\<close>

text \<open>A thread starts with whole operations: packets as they arrive, rounds of the lighthouse thread, maintenance
  ticks, packets from the TUN device, and the farewell.\<close>

fun starts_work :: "rsect \<Rightarrow> bool" where
  "starts_work (Packet _ _ _) = True"
| "starts_work (Relay _ _) = True"
| "starts_work ConnectSlots = True"
| "starts_work (Op Tick) = True"
| "starts_work (Op (Outbound _ _)) = True"
| "starts_work (Op Shutdown) = True"
| "starts_work _ = False"

definition daemon_program :: "rsect list list \<Rightarrow> bool" where
  "daemon_program ts \<longleftrightarrow> list_all (list_all starts_work) ts"

lemma program_safe: "daemon_program ts \<Longrightarrow> a \<in># pool ts \<Longrightarrow> rsect_ok E vk a"
proof -
  assume "daemon_program ts" "a \<in># pool ts"
  then have "starts_work a" by (auto simp: daemon_program_def pool_def list_all_iff)
  then show ?thesis by (cases a rule: starts_work.cases) auto
qed

section \<open>The sections and the operations\<close>

text \<open>The two models of the operations agree. Splitting them at their locks changes nothing while no other thread comes in: run one after
  the other, the sections of a packet end in a state exactly when its handler, as a unit, returns that
  state, for both handshake messages and every kind of session packet; and the sections of a lighthouse
  round, of \<open>add_peer\<close>, \<open>remove_peer\<close>, \<open>request_discovery\<close>, \<open>send_to_overlay\<close>, \<open>notify_shutdown\<close> and of a
  maintenance tick that does not panic do what the operation does, and nothing else.\<close>

lemma sections_refine_operations:
  "(solo (run_rsect E) [Packet tun src packet] (n, w) s \<longleftrightarrow> handle_packet E tun n src packet w = Some s)
   \<and> (solo (run_rsect E) [Relay data dst] (n, w) s \<longleftrightarrow> s = (n, relay_datagram n data dst w))
   \<and> (solo (run_rsect E) [ConnectSlots] (n, w) s \<longleftrightarrow> connect_lighthouses E n w = Some s)
   \<and> (solo (run_rsect E) [Op (AddStart a)] (n, w) s \<longleftrightarrow> s = snd (add_peer_args E n a w))
   \<and> (solo (run_rsect E) [Op (RemovePeers pid)] (n, w) s \<longleftrightarrow> s = remove_peer E n pid w)
   \<and> (solo (run_rsect E) [Op (Discover ip)] (n, w) s \<longleftrightarrow> s = request_discovery E n ip w)
   \<and> (solo (run_rsect E) [Op (Outbound pkt overlay)] (n, w) s \<longleftrightarrow> s = send_to_overlay E n pkt overlay w)
   \<and> (solo (run_rsect E) [Op Shutdown] (n, w) s \<longleftrightarrow> s = notify_shutdown E n w)
   \<and> (maintenance_tick E n w = Some t \<longrightarrow> solo (run_rsect E) [Op Tick] (n, w) s \<longleftrightarrow> s = t)"
  unfolding solo_op
  by (intro conjI impI solo_packet solo_relay solo_connect solo_iff solo_add solo_remove solo_discover solo_outbound solo_shutdown)
    (erule solo_tick)

text \<open>The work of the threads is finite: no interleaving of their sections goes on forever while the random
  generator delivers, and every schedule can be carried on until nothing is left to do.\<close>

lemma all_threads_finish:
  assumes "rng_live w"
  shows "\<not> (\<exists>f. f 0 = (ts, (n, w)) \<and> (\<forall>i. sched (run_rsect E) (f i) (f (Suc i))))"
    and "(sched (run_rsect E))\<^sup>*\<^sup>* (ts, (n, w)) c \<Longrightarrow> \<exists>c'. (sched (run_rsect E))\<^sup>*\<^sup>* c c' \<and> finished c'"
proof -
  show "\<not> (\<exists>f. f 0 = (ts, (n, w)) \<and> (\<forall>i. sched (run_rsect E) (f i) (f (Suc i))))"
    by (rule all_threads.no_infinite_schedule) (simp add: assms)
  assume "(sched (run_rsect E))\<^sup>*\<^sup>* (ts, (n, w)) c"
  then have "rng_live (snd (snd c))" using all_threads.calm_schedule [of E "(ts, (n, w))" "fst c" "snd c"] assms by simp
  then show "\<exists>c'. (sched (run_rsect E))\<^sup>*\<^sup>* c c' \<and> finished c'" by (rule all_threads.sched_finishes)
qed

section \<open>Properties\<close>

text \<open>C4. No interleaving makes the daemon trust someone the CA did not certify, or lets traffic through
  that no certificate authorizes. From a node whose peers are certified and whose routes are backed by
  certificates, let any number of threads handle any packets that arrive, with ticks, rounds and packets
  from the TUN device in between. At every point of every schedule, in the middle of operations too,
  every peer holds a certificate of the CA whose keys hash to its id, with the routes it authorizes; every
  routing entry is one a certificate of the CA gives to the peer it leads to; and every packet written
  to the TUN device has a source that a certificate of the CA authorizes and a destination this node accepts.\<close>

theorem threads_stay_safe:
  assumes "(sched (run_rsect E))\<^sup>*\<^sup>* (ts, (n, w)) (ts', (n', w'))" and "daemon_program ts"
    and "peers_ok E n" and "routes_ok E n" and "tun_out w = []"
  shows "(\<forall>pid p. peer_of n' pid = Some p \<longrightarrow>
         issued E (ps_cert p) (n_ca_vk n) \<and> pid = node_id_from_cert E (ps_cert p) \<and> ps_routes p = authorized_peer_routes E (ps_cert p))
    \<and> list_all (\<lambda>(net, pid). \<exists>cert. issued E cert (n_ca_vk n) \<and> node_id_from_cert E cert = pid \<and> net \<in> set (authorized_peer_routes E cert))
         (routes (n_routes n'))
    \<and> list_all (\<lambda>pkt. accepts_destination E n pkt \<and> (\<exists>cert ip. issued E cert (n_ca_vk n) \<and> parse_source_ip pkt = Some ip
         \<and> list_ex (\<lambda>r. net_contains E r ip) (authorized_peer_routes E cert))) (tun_out w')"
proof -
  have "safe_pool E n (pool ts) (n, w)" using assms(3-5) program_safe [OF assms(2)] by simp
  from safe.inv_schedule [OF assms(1) this]
  have inv: "node_config n' = node_config n" "peers_ok E n'" "routes_ok E n'" "\<forall>pkt \<in> set (tun_out w'). authorized_packet E n pkt" by simp_all
  then show ?thesis
    using node_config_fields(2) [OF inv(1)]
    by (simp add: peers_ok_def peer_ok_def routes_ok_def route_backed_def authorized_packet_def list_all_iff)
qed

theorem threads_stay_safe_witness:
  "\<exists>ts' n' w'. (sched (run_rsect demo_ext))\<^sup>*\<^sup>* ([[Packet True default_listen [1]], [Op Tick]], (demo_node demo_cert demo_sk, demo_world)) (ts', (n', w'))
    \<and> finished (ts', (n', w'))
    \<and> list_all (\<lambda>pkt. accepts_destination demo_ext (demo_node demo_cert demo_sk) pkt) (tun_out w')"
proof -
  let ?n = "demo_node demo_cert demo_sk"
  obtain ts' n' w' where run: "(sched (run_rsect demo_ext))\<^sup>*\<^sup>* ([[Packet True default_listen [1]], [Op Tick]], (?n, demo_world)) (ts', (n', w'))"
    "finished (ts', (n', w'))"
    using all_threads.sched_finishes [of "([[Packet True default_listen [1]], [Op Tick]], (?n, demo_world))" demo_ext] by auto
  have "peers_ok demo_ext ?n" "routes_ok demo_ext ?n"
    by (simp_all add: peers_ok_def routes_ok_def demo_node_def new_node_def RouteTable_new_def routes_wf_def)
  moreover have "daemon_program [[Packet True default_listen [1]], [Op Tick]]" "tun_out demo_world = []"
    by (simp_all add: daemon_program_def demo_world_def)
  ultimately have "list_all (\<lambda>pkt. accepts_destination demo_ext ?n pkt) (tun_out w')"
    using threads_stay_safe [OF run(1)] by (simp add: list_all_iff)
  with run show ?thesis by blast
qed

end
