(* ===== verification/Shutdown.thy ===== *)
theory Shutdown
  imports Interleave Delivery
begin

text \<open>
  The threads of the daemon from their start to their end: the loops of the lighthouse, maintenance,
  receive and main threads, the wait between two iterations, and the signal handler that stops them.
  A thread looks at \<open>running\<close> at the head of its loop only, so a body may still run after the signal;
  the wait is on a condition variable whose flag, \<open>shutdown\<close>, has a lock, and the handler sets \<open>running\<close>
  first and the flag later. Time is not modelled: a sleeping thread may wake at any point, as its
  timeout or a spurious wakeup would make it, and \<open>waiting\<close> holds the threads that sleep and have not
  been notified.
\<close>

section \<open>The threads\<close>

datatype worker = PunchThread | MaintenanceThread | ReceiveThread | MainThread

text \<open>What the socket and the TUN device will deliver, and who sleeps on the condition variable.\<close>

record life = daemon +
  l_recv :: "nat \<Rightarrow> recv_result"
  l_tun :: "nat \<Rightarrow> tun_read"
  waiting :: "worker set"

datatype life_sect =
    Head worker
  | Work worker
  | WaitLock worker
  | Asleep worker
  | Farewell
  | SignalRunning
  | SignalShutdown

text \<open>The head of a loop: what an iteration consists of, or what comes after the loop.\<close>

fun loop_body :: "bool \<Rightarrow> worker \<Rightarrow> life_sect list" where
  "loop_body has_tun MainThread = (if has_tun then [Work MainThread] else [WaitLock MainThread, Head MainThread])"
| "loop_body has_tun t = [Work t]"

text \<open>What is left of an iteration after its body.\<close>

fun loop_rest :: "worker \<Rightarrow> life_sect list" where
  "loop_rest PunchThread = [WaitLock PunchThread, Head PunchThread]"
| "loop_rest MaintenanceThread = [WaitLock MaintenanceThread, Head MaintenanceThread]"
| "loop_rest ReceiveThread = [Head ReceiveThread]"
| "loop_rest MainThread = [Head MainThread]"

definition loop_head :: "bool \<Rightarrow> worker \<Rightarrow> life \<Rightarrow> life_sect list" where
  "loop_head has_tun t s =
     (if n_running (d_node s) then loop_body has_tun t else if t = MainThread then [Farewell] else [])"

text \<open>One body, and what follows it. One that does not return runs on; one that panics ends its thread. Reading
  the TUN device returns, as the device is set to non-blocking; \<open>set_nonblock\<close> does nothing on Windows, where
  a read returns only with the next packet.\<close>

fun work :: "ext \<Rightarrow> bool \<Rightarrow> IpNetwork list \<Rightarrow> worker \<Rightarrow> life \<Rightarrow> life_sect list \<times> life" where
  "work E has_tun overlay PunchThread s =
     (case connect_lighthouses E (d_node s) (d_world s) of
        None \<Rightarrow> ([Work PunchThread], s)
      | Some (n, w) \<Rightarrow> (loop_rest PunchThread, s\<lparr>d_node := n, d_world := w\<rparr>))"
| "work E has_tun overlay MaintenanceThread s =
     (case maintenance_tick E (d_node s) (d_world s) of
        None \<Rightarrow> ([], s)
      | Some (n, w) \<Rightarrow> (loop_rest MaintenanceThread, s\<lparr>d_node := n, d_world := w\<rparr>))"
| "work E has_tun overlay ReceiveThread s =
     (case receive_once E has_tun (l_recv s 0) (d_node s) (d_assembler s) (d_last_cleanup s) (d_world s) of
        None \<Rightarrow> ([Work ReceiveThread], s)
      | Some (n, a, t, w) \<Rightarrow>
          (loop_rest ReceiveThread, s\<lparr>d_node := n, d_assembler := a, d_last_cleanup := t, d_world := w, l_recv := \<lambda>i. l_recv s (i + 1)\<rparr>))"
| "work E has_tun overlay MainThread s =
     (let (n, idle, w) = send_once E overlay (l_tun s 0) (d_node s) (d_idle_reads s) (d_world s)
      in (loop_rest MainThread, s\<lparr>d_node := n, d_idle_reads := idle, d_world := w, l_tun := \<lambda>i. l_tun s (i + 1)\<rparr>))"

text \<open>\<open>wait_for_shutdown_or_timeout\<close> up to the point where the thread sleeps.\<close>

definition wait_for_shutdown_or_timeout :: "worker \<Rightarrow> life \<Rightarrow> life_sect list \<times> life" where
  "wait_for_shutdown_or_timeout t s =
     (if n_shutdown (d_node s) then ([], s) else ([Asleep t], s\<lparr>waiting := insert t (waiting s)\<rparr>))"

fun run_life :: "ext \<Rightarrow> bool \<Rightarrow> IpNetwork list \<Rightarrow> life_sect \<Rightarrow> life \<Rightarrow> life_sect list \<times> life" where
  "run_life E has_tun overlay (Head t) s = (loop_head has_tun t s, s)"
| "run_life E has_tun overlay (Work t) s = work E has_tun overlay t s"
| "run_life E has_tun overlay (WaitLock t) s = wait_for_shutdown_or_timeout t s"
| "run_life E has_tun overlay (Asleep t) s = ([], s\<lparr>waiting := waiting s - {t}\<rparr>)"
| "run_life E has_tun overlay Farewell s =
     (let (n, w) = notify_shutdown E (d_node s) (d_world s) in ([], s\<lparr>d_node := n, d_world := w\<rparr>))"
| "run_life E has_tun overlay SignalRunning s =
     ([SignalShutdown], s\<lparr>d_node := (d_node s)\<lparr>n_running := False\<rparr>, d_signals := d_signals s + 1\<rparr>)"
| "run_life E has_tun overlay SignalShutdown s =
     ([], s\<lparr>d_node := (d_node s)\<lparr>n_shutdown := True\<rparr>, waiting := {}\<rparr>)"

text \<open>The process: the handler of a first signal, and the four threads.\<close>

definition life_threads :: "life_sect list list" where
  "life_threads = [[SignalRunning], [Head PunchThread], [Head MaintenanceThread], [Head ReceiveThread], [Head MainThread]]"

text \<open>The handler has no section left to run.\<close>

definition handler_done :: "life_sect list list \<Rightarrow> bool" where
  "handler_done ts \<longleftrightarrow> SignalRunning \<notin> set (concat ts) \<and> SignalShutdown \<notin> set (concat ts)"

section \<open>What a body leaves alone\<close>

lemma node_config_flags: "node_config n' = node_config n \<Longrightarrow> n_running n' = n_running n \<and> n_shutdown n' = n_shutdown n"
  by (cases n; cases n'; simp add: node_config_def)

lemma keeps_flags: "keeps E n n' \<Longrightarrow> n_running n' = n_running n \<and> n_shutdown n' = n_shutdown n"
  unfolding keeps_def by (blast dest: node_config_flags)

lemma keeps_received:
  "handle_received E tun r n a w = Some (n', a', w') \<Longrightarrow> keeps E n n'"
  using keeps_datagram [OF keeps_refl]
  by (auto simp: handle_received_def Let_def keeps_refl split: recv_result.splits if_splits)

lemma keeps_send_once: "keeps E n (fst (send_once E overlay r n idle w))"
  using keeps_overlay [OF keeps_refl] by (auto simp: send_once_def Let_def split_beta keeps_refl split: tun_read.splits)

lemma quiet_received: "handle_received E tun r n a w = Some (n', a', w') \<Longrightarrow> rng_live w \<Longrightarrow> rng_live w'"
  using datagram_effect by (fastforce simp: handle_received_def Let_def split: recv_result.splits if_splits)

lemma received_returns: "rng_live w \<Longrightarrow> handle_received E tun r n a w \<noteq> None"
  using datagram_returns by (auto simp: handle_received_def Let_def split: recv_result.splits)

lemma connects_returns: "rng_live w \<Longrightarrow> connect_lighthouses E n w \<noteq> None"
  unfolding connect_lighthouses_def Let_def by (rule connect_loop_returns)

text \<open>What every body does to the flags, the sleepers and the generator, and that it returns.\<close>

definition tame :: "life \<Rightarrow> worker \<Rightarrow> life_sect list \<times> life \<Rightarrow> bool" where
  "tame s t r \<longleftrightarrow> n_running (d_node (snd r)) = n_running (d_node s) \<and> n_shutdown (d_node (snd r)) = n_shutdown (d_node s)
     \<and> waiting (snd r) = waiting s \<and> fst r \<in> {[], loop_rest t, [Work t]}
     \<and> (rng_live (d_world s) \<longrightarrow> fst r \<noteq> [Work t] \<and> rng_live (d_world (snd r)))"

lemma tame_punch: "tame s PunchThread (work E has_tun overlay PunchThread s)"
proof (cases "connect_lighthouses E (d_node s) (d_world s)")
  case None
  then have "\<not> rng_live (d_world s)" using connects_returns by metis
  with None show ?thesis by (simp add: tame_def)
next
  case (Some r)
  then show ?thesis
    using connect_ok [of E "d_node s" "d_world s" "fst r" "snd r"] keeps_flags [of E "d_node s" "fst r"]
    by (simp add: tame_def split_beta quiet_def)
qed

lemma tame_maintenance: "tame s MaintenanceThread (work E has_tun overlay MaintenanceThread s)"
proof (cases "maintenance_tick E (d_node s) (d_world s)")
  case (Some r)
  from keeps_flags [OF keeps_tick [OF keeps_refl Some]] quiet_tick [OF quiet_refl Some] Some show ?thesis
    by (simp add: tame_def split_beta quiet_def)
qed (simp add: tame_def)

lemma tame_receive: "tame s ReceiveThread (work E has_tun overlay ReceiveThread s)"
proof (cases "handle_received E has_tun (l_recv s 0) (d_node s) (d_assembler s) (d_world s)")
  case None
  then have "\<not> rng_live (d_world s)" using received_returns by metis
  with None show ?thesis by (simp add: tame_def receive_once_def)
next
  case (Some r)
  obtain n a1 w1 where r: "r = (n, a1, w1)" by (metis prod_cases3)
  obtain a c w where c: "periodic_cleanup a1 (d_last_cleanup s) w1 = (a, c, w)" by (metis prod_cases3)
  show ?thesis
    using keeps_flags [OF keeps_received [OF Some [unfolded r]]] quiet_received [OF Some [unfolded r]]
      periodic_cleanup_ok(2) [of w1 a1 "d_last_cleanup s"] c Some r
    by (simp add: tame_def receive_once_def quiet_def)
qed

lemma tame_main: "tame s MainThread (work E has_tun overlay MainThread s)"
proof -
  have "rng_live (d_world s) \<Longrightarrow> rng_live (snd (snd (send_once E overlay r (d_node s) idle (d_world s))))" for r idle
    using quiet_overlay [OF quiet_refl, of "d_world s" E "d_node s"]
    by (simp add: send_once_def Let_def split_beta quiet_def split: tun_read.splits)
  then show ?thesis
    using keeps_flags [OF keeps_send_once [of E "d_node s" overlay]] by (simp add: tame_def split_beta)
qed

lemma work_tame: "tame s t (work E has_tun overlay t s)"
  using tame_punch tame_maintenance tame_receive tame_main by (cases t) simp_all

lemma work_frame:
  assumes "work E has_tun overlay t s = (todo, s')"
  shows "n_running (d_node s') = n_running (d_node s)" "n_shutdown (d_node s') = n_shutdown (d_node s)" "waiting s' = waiting s"
    "todo \<in> {[], loop_rest t, [Work t]}" "rng_live (d_world s) \<Longrightarrow> todo \<noteq> [Work t] \<and> rng_live (d_world s')"
  using work_tame [of s t E has_tun overlay] assms by (simp_all add: tame_def)

section \<open>No wakeup is lost\<close>

text \<open>Until the handler is done one of its sections is in the pool; \<open>running\<close> falls with the first,
  \<open>shutdown\<close> rises with the second, and once it has risen nobody sleeps without having been notified.\<close>

fun wakeup_pool :: "life_sect multiset \<Rightarrow> life \<Rightarrow> bool" where
  "wakeup_pool P s \<longleftrightarrow>
     (SignalRunning \<in># P \<or> \<not> n_running (d_node s))
   \<and> (SignalRunning \<in># P \<or> SignalShutdown \<in># P \<or> n_shutdown (d_node s))
   \<and> (n_shutdown (d_node s) \<longrightarrow> waiting s = {}) \<and> rng_live (d_world s)"

interpretation wakeup: pool_invariant "run_life E has_tun overlay" wakeup_pool for E has_tun overlay
proof
  fix a P s todo s'
  assume inv: "wakeup_pool (add_mset a P) s" and run: "run_life E has_tun overlay a s = (todo, s')"
  show "wakeup_pool (mset todo + P) s'"
  proof (cases a)
    case (Work t)
    moreover have "SignalRunning \<notin> set todo" "SignalShutdown \<notin> set todo"
      using run Work work_frame(4) [of E has_tun overlay t s todo s'] by (cases t; auto)+
    ultimately show ?thesis using run work_frame(1-3,5) [of E has_tun overlay t s todo s'] inv by auto
  next
    case Farewell
    with run inv keeps_flags [OF keeps_notify [OF keeps_refl, of E "d_node s" "d_world s"]]
      quiet_notify [OF quiet_refl, of "d_world s" E "d_node s"] show ?thesis
      by (auto simp: Let_def split_beta quiet_def)
  qed (use inv run in \<open>auto simp: wait_for_shutdown_or_timeout_def split: if_splits\<close>)
qed

section \<open>Stopping\<close>

fun life_rank :: "life_sect \<Rightarrow> nat" where
  "life_rank (Head _) = 1"
| "life_rank (Work _) = 2"
| "life_rank (WaitLock _) = 1"
| "life_rank SignalRunning = 1"
| "life_rank _ = 0"

definition stopping :: "life \<Rightarrow> bool" where
  "stopping s \<longleftrightarrow> \<not> n_running (d_node s) \<and> n_shutdown (d_node s) \<and> rng_live (d_world s)"

interpretation stop: ranked_threads "run_life E has_tun overlay" life_rank stopping for E has_tun overlay
proof
  fix a s todo s'
  assume stop: "stopping s" and run: "run_life E has_tun overlay a s = (todo, s')"
  have bye: "rng_live (snd (notify_shutdown E (d_node s) (d_world s)))"
    using stop quiet_notify [OF quiet_refl, of "d_world s" E "d_node s"] by (simp add: stopping_def quiet_def)
  show "stopping s'"
  proof (cases a)
    case (Work t)
    with run stop work_frame [of E has_tun overlay t s todo s'] show ?thesis by (simp add: stopping_def)
  next
    case Farewell
    with run stop bye keeps_flags [OF keeps_notify [OF keeps_refl, of E "d_node s" "d_world s"]] show ?thesis
      by (auto simp: stopping_def Let_def split_beta)
  qed (use stop run in \<open>auto simp: stopping_def wait_for_shutdown_or_timeout_def\<close>)
  show "life_rank b < life_rank a" if "b \<in> set todo" for b
  proof (cases a)
    case (Work t)
    with run stop that work_frame(4,5) [of E has_tun overlay t s todo s'] show ?thesis by (cases t) (auto simp: stopping_def)
  qed (use stop run that in \<open>auto simp: stopping_def wait_for_shutdown_or_timeout_def loop_head_def Let_def split_beta split: if_splits\<close>)
qed

section \<open>Properties\<close>

text \<open>C15. A shutdown reaches every thread, however they are scheduled. When the handler of the signal is
  done, no thread sleeps that has not been notified, whichever point of its loop it had reached: the
  order in which the handler sets its two flags and a thread tests them loses no wakeup. From there
  on no schedule runs forever, as long as the random generator delivers, every schedule can be carried
  on to the end of all four threads, and nobody goes to sleep again.\<close>

theorem shutdown_reaches_every_thread:
  assumes "(sched (run_life E has_tun overlay))\<^sup>*\<^sup>* (life_threads, s) (ts', s')" and "waiting s = {}" and "rng_live (d_world s)"
    and "handler_done ts'"
  shows "waiting s' = {}
    \<and> (\<forall>ts1 s1. (sched (run_life E has_tun overlay))\<^sup>*\<^sup>* (ts', s') (ts1, s1) \<longrightarrow> waiting s1 = {})
    \<and> (\<exists>c. (sched (run_life E has_tun overlay))\<^sup>*\<^sup>* (ts', s') c \<and> finished c)
    \<and> \<not> (\<exists>f. f 0 = (ts', s') \<and> (\<forall>i. sched (run_life E has_tun overlay) (f i) (f (Suc i))))"
proof -
  have "wakeup_pool (pool life_threads) s" using assms(2,3) by (simp add: life_threads_def pool_def)
  then have "wakeup_pool (pool ts') s'" by (rule wakeup.inv_schedule [OF assms(1)])
  then have stop: "stopping s'" and none: "waiting s' = {}" using assms(4) by (auto simp: handler_done_def pool_def stopping_def)
  have "waiting s1 = {}" if run: "(sched (run_life E has_tun overlay))\<^sup>*\<^sup>* (ts', s') (ts1, s1)" for ts1 s1
  proof -
    have "wakeup_pool (pool ts1) s1" by (rule wakeup.inv_schedule [OF run]) fact
    moreover have "stopping s1" by (rule stop.calm_schedule [OF run]) (simp add: stop)
    ultimately show ?thesis by (simp add: stopping_def)
  qed
  moreover have "\<exists>c. (sched (run_life E has_tun overlay))\<^sup>*\<^sup>* (ts', s') c \<and> finished c"
    by (rule stop.sched_finishes) (simp add: stop)
  moreover have "\<not> (\<exists>f. f 0 = (ts', s') \<and> (\<forall>i. sched (run_life E has_tun overlay) (f i) (f (Suc i))))"
    using stop.no_infinite_schedule [of "(ts', s')"] stop by auto
  ultimately show ?thesis using none by blast
qed

text \<open>A daemon at its start: the demonstration node, a socket and a TUN device that deliver nothing.\<close>

definition demo_life :: life where
  "demo_life = daemon.extend (daemon_init (demo_node demo_cert demo_sk) demo_world)
     \<lparr>l_recv = \<lambda>_. RecvTimeout, l_tun = \<lambda>_. TunWouldBlock, waiting = {}\<rparr>"

theorem shutdown_reaches_every_thread_witness:
  "\<exists>ts' s' c. (sched (run_life demo_ext False []))\<^sup>*\<^sup>* (life_threads, demo_life) (ts', s')
     \<and> Asleep MainThread \<in> set (concat ts') \<and> waiting s' = {} \<and> (sched (run_life demo_ext False []))\<^sup>*\<^sup>* (ts', s') c \<and> finished c"
proof -
  let ?R = "run_life demo_ext False []"
  let ?s1 = "demo_life\<lparr>waiting := {MainThread}\<rparr>"
  let ?s2 = "?s1\<lparr>d_node := (d_node ?s1)\<lparr>n_running := False\<rparr>, d_signals := d_signals ?s1 + 1\<rparr>"
  let ?s3 = "?s2\<lparr>d_node := (d_node ?s2)\<lparr>n_shutdown := True\<rparr>, waiting := {}\<rparr>"
  let ?ts = "\<lambda>signal main. [signal, [Head PunchThread], [Head MaintenanceThread], [Head ReceiveThread], main]"
  have start: "n_running (d_node demo_life)" "\<not> n_shutdown (d_node demo_life)" "waiting demo_life = {}" "rng_live (d_world demo_life)"
    using demo_rng by (simp_all add: demo_life_def daemon.defs daemon_init_def demo_node_def new_node_def instant_now_def rng_live_def)
  have "sched ?R (life_threads, demo_life) (?ts [SignalRunning] [WaitLock MainThread, Head MainThread], demo_life)"
    using sched_run [of 4 life_threads "Head MainThread" "[]" ?R demo_life] by (simp add: life_threads_def loop_head_def start)
  moreover have "sched ?R (?ts [SignalRunning] [WaitLock MainThread, Head MainThread], demo_life) (?ts [SignalRunning] [Asleep MainThread, Head MainThread], ?s1)"
    using sched_run [of 4 "?ts [SignalRunning] [WaitLock MainThread, Head MainThread]" "WaitLock MainThread" "[Head MainThread]" ?R demo_life]
    by (simp add: wait_for_shutdown_or_timeout_def start)
  moreover have "sched ?R (?ts [SignalRunning] [Asleep MainThread, Head MainThread], ?s1) (?ts [SignalShutdown] [Asleep MainThread, Head MainThread], ?s2)"
    using sched_run [of 0 "?ts [SignalRunning] [Asleep MainThread, Head MainThread]" SignalRunning "[]" ?R ?s1] by simp
  moreover have "sched ?R (?ts [SignalShutdown] [Asleep MainThread, Head MainThread], ?s2) (?ts [] [Asleep MainThread, Head MainThread], ?s3)"
    using sched_run [of 0 "?ts [SignalShutdown] [Asleep MainThread, Head MainThread]" SignalShutdown "[]" ?R ?s2] by simp
  ultimately have run: "(sched ?R)\<^sup>*\<^sup>* (life_threads, demo_life) (?ts [] [Asleep MainThread, Head MainThread], ?s3)"
    by (meson rtranclp.rtrancl_into_rtrancl rtranclp.rtrancl_refl)
  from shutdown_reaches_every_thread [OF run start(3,4)]
  have "\<exists>c. (sched ?R)\<^sup>*\<^sup>* (?ts [] [Asleep MainThread, Head MainThread], ?s3) c \<and> finished c" by (simp add: handler_done_def)
  then obtain c where "(sched ?R)\<^sup>*\<^sup>* (?ts [] [Asleep MainThread, Head MainThread], ?s3) c" "finished c" by blast
  with run show ?thesis by (intro exI [of _ "?ts [] [Asleep MainThread, Head MainThread]"] exI [of _ ?s3] exI [of _ c]) simp
qed

end
