(* ===== verification/Crossing.thy ===== *)
theory Crossing
  imports Connect Node_Peers
begin

text \<open>
  Two nodes that dial each other at once. \<open>handle_handshake_1\<close> and \<open>handle_handshake_2\<close> decide whether a
  completed handshake crossed another one, from the pending handshakes and from the existing session, and
  \<open>accept_handshake_session\<close> then lets the session of the node with the lower id win. What is shown here is
  when that keeps both ends on one session, and when it does not.
\<close>

declare map_of_eq_Some_iff [simp del] Some_eq_map_of_iff [simp del]

section \<open>What a completed handshake does to the session\<close>

lemma handshake_1_outcome:
  assumes "HandshakeCache_get (n_handshake_cache n) (blake3_hash E m) (fst (instant_now w)) = None"
    and "process_handshake_1 E m (n_cert n) (n_signing_key n) (n_network_key n) (n_ca_vk n) (n_am_relay n) (snd (instant_now w))
      = Some (Inr resp, w1)"
    and "pid = node_id_from_cert E (hr_peer_cert resp)" "pid \<noteq> n_our_id n"
    and "n1 = n\<lparr>n_handshake_cache := HandshakeCache_insert (n_handshake_cache n) (blake3_hash E m) (hr_msg resp) pid (fst (instant_now w))\<rparr>"
  shows "\<exists>p w'. handle_handshake_1 E n src m w =
      Some (if accept_handshake_session (n_our_id n) pid (map_option ps_handshake_initiator_id (peer_of n pid)) pid
               (list_ex (\<lambda>(_, h). ph_peer_id h = Some pid) (n_pending n))
            then with_peer E n1 pid p else n1, w')
    \<and> fresh_peer E n pid (hr_peer_cert resp) (hr_session_key resp) (hr_peer_rx_session_id resp) (hr_my_rx_session_id resp) p
    \<and> ps_handshake_initiator_id p = pid"
proof -
  have f: "(find (\<lambda>(_, h). ph_peer_id h = Some pid) (n_pending n) \<noteq> None) \<longleftrightarrow> list_ex (\<lambda>(_, h). ph_peer_id h = Some pid) (n_pending n)"
    by (force simp: find_None_iff list_ex_iff)
  let ?entry = "find (\<lambda>(_, h). ph_peer_id h = Some pid) (n_pending n)"
  let ?p = "new_peer E n1 pid (hr_session_key resp) (hr_peer_cert resp) src
      (case ?entry of Some (_, p) \<Rightarrow> Some (ph_direct_addr p) | None \<Rightarrow> if addr_is_relay n1 src then None else Some src)
      (addr_is_relay n1 src) (hr_peer_is_relay resp) (hr_peer_rx_session_id resp) (hr_my_rx_session_id resp) pid (fst (instant_now w1))"
  have "fresh_peer E n1 pid (hr_peer_cert resp) (hr_session_key resp) (hr_peer_rx_session_id resp) (hr_my_rx_session_id resp) ?p"
    by (rule fresh_peer_new)
  then have "fresh_peer E n pid (hr_peer_cert resp) (hr_session_key resp) (hr_peer_rx_session_id resp) (hr_my_rx_session_id resp) ?p"
    by (simp add: fresh_peer_def assms(5))
  moreover have "ps_handshake_initiator_id ?p = pid" by (simp add: new_peer_def Let_def)
  moreover have "\<exists>w'. handle_handshake_1 E n src m w =
      Some (if accept_handshake_session (n_our_id n) pid (map_option ps_handshake_initiator_id (peer_of n pid)) pid
               (list_ex (\<lambda>(_, h). ph_peer_id h = Some pid) (n_pending n))
            then with_peer E n1 pid ?p else n1, w')"
    using assms f by (simp add: handle_handshake_1_def Let_def split_beta add_peer_eq)
  ultimately show ?thesis by blast
qed

lemma handshake_2_refused:
  assumes "map_of (n_pending n) sid = Some h"
    and "process_handshake_2 E m (ph_initiate h) (n_network_key n) (n_ca_vk n) w = (Inr res, w1)"
    and "pid = node_id_from_cert E (hres_peer_cert res)" "pred_option ((=) pid) (ph_peer_id h)"
    and "peer_of n pid = Some p" "ps_handshake_initiator_id p = pid" "pid < n_our_id n"
  shows "fst (handle_handshake_2 E n src m sid w) = n\<lparr>n_pending := AList.delete sid (n_pending n)\<rparr>"
proof -
  have "\<not> accept_handshake_session (n_our_id n) pid (Some pid) (n_our_id n) True"
    using assms(7) by (auto simp: accept_handshake_session_def Let_def min_def dest: leD)
  moreover have "pid \<noteq> n_our_id n" using assms(7) by auto
  ultimately show ?thesis
    using assms(1-6) by (auto simp: handle_handshake_2_def Let_def split_beta add_peer_eq option.pred_set split: option.splits)
qed

section \<open>Properties\<close>

text \<open>C27. Crossing dials can leave the two ends with different sessions. Let both nodes have the session that the one
  with the lower id, \<open>nA\<close>, initiated, while the handshake \<open>ini\<close> that \<open>nB\<close> started is still pending there, and
  let its first message now reach \<open>nA\<close> and the answer \<open>nB\<close>. If \<open>nA\<close> has a handshake with \<open>nB\<close> pending, both
  keep the session. If not, as when \<open>nA\<close> has already completed its own, \<open>nA\<close> takes the handshake for an
  ordinary one and replaces the session, while \<open>nB\<close> refuses the result because it prefers the other's. Then
  \<open>nA\<close> sends to a session id that \<open>nB\<close> does not receive on and no longer receives on the one \<open>nB\<close> sends to,
  and the handshake is over at both ends.\<close>

theorem crossing_dials_split:
  assumes "blake3_sized E" "aead_sized E" "aead_correct E" "x25519_correct E" "mlkem_sized E" "signatures_correct E"
    and "ready E ca nA" "ready E ca nB" "n_network_key nB = n_network_key nA" "n_our_id nA < n_our_id nB"
    and "peer_of nA (n_our_id nB) = Some pa" "ps_handshake_initiator_id pa = n_our_id nA"
    and "peer_of nB (n_our_id nA) = Some pb" "ps_handshake_initiator_id pb = n_our_id nA" "ps_tx_session_id pb = ps_rx_session_id pa"
    and "create_handshake_1 E (n_cert nB) (n_signing_key nB) (n_network_key nB) (n_am_relay nB) w0 = Some (ini, w0')"
    and "map_of (n_pending nB) (hi_my_rx_session_id ini) = Some h" "ph_initiate h = ini" "pred_option ((=) (n_our_id nA)) (ph_peer_id h)"
    and "map_of (n_rx_sessions nB) (hi_my_rx_session_id ini) = None"
    and "rng_live wA" "within_skew (unix w0 0) (unix wA 0)" "in_validity E (n_cert nB) (unix wA 1)"
    and "HandshakeCache_get (n_handshake_cache nA) (blake3_hash E (hi_msg ini)) (fst (instant_now wA)) = None"
    and "\<forall>r. kem_draw E (hi_msg ini) (n_network_key nA) ca (snd (instant_now wA)) = Some r \<longrightarrow> kem_agrees E (hi_eph_mlkem_sk ini) r"
    and "within_skew (unix wA 2) (unix wB 0)" "in_validity E (n_cert nA) (unix wB 1)"
  shows "\<exists>resp wA1 nA' wA' nB' wB'. handle_handshake_1 E nA srcB (hi_msg ini) wA = Some (nA', wA')
    \<and> process_handshake_1 E (hi_msg ini) (n_cert nA) (n_signing_key nA) (n_network_key nA) ca (n_am_relay nA) (snd (instant_now wA)) = Some (Inr resp, wA1)
    \<and> handle_handshake_2 E nB srcA (hr_msg resp) (hi_my_rx_session_id ini) wB = (nB', wB')
    \<and> peer_of nB' (n_our_id nA) = Some pb \<and> map_of (n_pending nB') (hi_my_rx_session_id ini) = None
    \<and> (if list_ex (\<lambda>(_, h). ph_peer_id h = Some (n_our_id nB)) (n_pending nA)
       then peer_of nA' (n_our_id nB) = Some pa
       else \<exists>pa'. peer_of nA' (n_our_id nB) = Some pa' \<and> ps_handshake_initiator_id pa' = n_our_id nB
          \<and> ps_tx_session_id pa' = hi_my_rx_session_id ini \<and> map_of (n_rx_sessions nB') (ps_tx_session_id pa') = None
          \<and> (ps_rx_session_id pa' \<noteq> ps_tx_session_id pb \<longrightarrow> map_of (n_rx_sessions nA') (ps_tx_session_id pb) = None))"
proof -
  let ?a = "n_our_id nA" and ?b = "n_our_id nB" and ?sid = "hi_my_rx_session_id ini" and ?w = "snd (instant_now wA)"
  have c: "json_cert_ok E (n_cert nA)" "issued E (n_cert nA) ca" "holds_key E (n_cert nA) (n_signing_key nA)" "n_ca_vk nA = ca"
      "node_id_from_cert E (n_cert nA) = ?a"
    and d: "json_cert_ok E (n_cert nB)" "issued E (n_cert nB) ca" "holds_key E (n_cert nB) (n_signing_key nB)" "n_ca_vk nB = ca"
      "node_id_from_cert E (n_cert nB) = ?b"
    using assms(7,8) by (simp_all add: ready_def)
  have w: "unix ?w = unix wA" "rng_live ?w" using assms(21) by (simp_all add: instant_now_def rng_live_def)
  obtain resp wA1 res wB1 where r: "process_handshake_1 E (hi_msg ini) (n_cert nA) (n_signing_key nA) (n_network_key nA) ca (n_am_relay nA) ?w = Some (Inr resp, wA1)"
    and s: "process_handshake_2 E (hr_msg resp) ini (n_network_key nA) ca wB = (Inr res, wB1)"
    and e: "hres_my_rx_session_id res = hr_peer_rx_session_id resp" "hres_peer_cert res = n_cert nA" "hr_peer_cert resp = n_cert nB"
    using handshake_agrees [OF assms(1-6) d(1-3) c(1-3) assms(16) [unfolded assms(9)], of ?w wB "n_am_relay nA"] assms(22,23,25-27) w by auto
  have sid: "hr_peer_rx_session_id resp = ?sid"
    using s e(1) by (auto simp: process_handshake_2_def Let_def split: option.splits prod.splits sum.splits if_splits)
  define n1 where "n1 = nA\<lparr>n_handshake_cache := HandshakeCache_insert (n_handshake_cache nA) (blake3_hash E (hi_msg ini)) (hr_msg resp) ?b (fst (instant_now wA))\<rparr>"
  have ne: "?b \<noteq> ?a" using assms(10) by auto
  obtain p wA' where h1: "handle_handshake_1 E nA srcB (hi_msg ini) wA =
      Some (if accept_handshake_session ?a ?b (map_option ps_handshake_initiator_id (peer_of nA ?b)) ?b
              (list_ex (\<lambda>(_, h). ph_peer_id h = Some ?b) (n_pending nA))
            then with_peer E n1 ?b p else n1, wA')" (is "_ = Some (?nA', _)")
    and p: "fresh_peer E nA ?b (hr_peer_cert resp) (hr_session_key resp) (hr_peer_rx_session_id resp) (hr_my_rx_session_id resp) p"
      "ps_handshake_initiator_id p = ?b"
    using handshake_1_outcome [OF assms(24) r [folded c(4)] _ ne n1_def, of srcB] e(3) d(5) by simp blast
  have h2: "fst (handle_handshake_2 E nB srcA (hr_msg resp) ?sid wB) = nB\<lparr>n_pending := AList.delete ?sid (n_pending nB)\<rparr>" (is "_ = ?nB'")
    using handshake_2_refused [OF assms(17) _ _ assms(19,13,14,10)] s assms(9,18) d(4) e(2) c(5) by simp
  have acc: "accept_handshake_session ?a ?b (Some ?a) ?b sim \<longleftrightarrow> \<not> sim" for sim
    using assms(10) ne by (auto simp: accept_handshake_session_def Let_def min_def dest: leD)
  have same: "n_peers n1 = n_peers nA" "n_rx_sessions n1 = n_rx_sessions nA" by (simp_all add: n1_def)
  have "if list_ex (\<lambda>(_, h). ph_peer_id h = Some ?b) (n_pending nA)
       then peer_of ?nA' ?b = Some pa
       else \<exists>pa'. peer_of ?nA' ?b = Some pa' \<and> ps_handshake_initiator_id pa' = ?b
          \<and> ps_tx_session_id pa' = ?sid \<and> map_of (n_rx_sessions ?nB') (ps_tx_session_id pa') = None
          \<and> (ps_rx_session_id pa' \<noteq> ps_tx_session_id pb \<longrightarrow> map_of (n_rx_sessions ?nA') (ps_tx_session_id pb) = None)"
    using p sid assms(11,12,15,20)
    by (simp add: acc same with_peer_fields with_peer_tables fresh_peer_def without_session_def delete_conv')
  moreover have "peer_of ?nB' ?a = Some pb" "map_of (n_pending ?nB') ?sid = None" using assms(13) by (simp_all add: delete_conv')
  moreover have "handle_handshake_2 E nB srcA (hr_msg resp) ?sid wB = (?nB', snd (handle_handshake_2 E nB srcA (hr_msg resp) ?sid wB))"
    using h2 by (metis prod.collapse)
  ultimately show ?thesis using h1 r by blast
qed

text \<open>Two nodes with a session that the first initiated, and a handshake of the second that the first does not know of.\<close>

theorem crossing_dials_split_witness:
  "\<exists>nA nB ini w' resp wA1 nA' wA' nB' wB' pa' pb. create_handshake_1 demo_ext demo_cert2 demo_sk2 [1] False demo_world = Some (ini, w')
    \<and> peer_of nA 0x03000000 \<noteq> None \<and> peer_of nB 0x02000000 = Some pb
    \<and> ps_handshake_initiator_id pb = 0x02000000
    \<and> handle_handshake_1 demo_ext nA default_listen (hi_msg ini) demo_world = Some (nA', wA')
    \<and> process_handshake_1 demo_ext (hi_msg ini) demo_cert demo_sk [1] demo_ca False demo_world = Some (Inr resp, wA1)
    \<and> handle_handshake_2 demo_ext nB default_listen (hr_msg resp) (hi_my_rx_session_id ini) demo_world = (nB', wB')
    \<and> peer_of nB' 0x02000000 = Some pb \<and> peer_of nA' 0x03000000 = Some pa'
    \<and> ps_handshake_initiator_id pa' = 0x03000000 \<and> map_of (n_rx_sessions nB') (ps_tx_session_id pa') = None"
proof -
  obtain ini w' where c: "create_handshake_1 demo_ext demo_cert2 demo_sk2 [1] False demo_world = Some (ini, w')"
    using create_handshake_1_returns [OF demo_rng] by blast
  let ?pa = "demo_peer\<lparr>ps_handshake_initiator_id := 0x02000000, ps_tx_session_id := 4, ps_rx_session_id := 9\<rparr>"
    and ?pb = "demo_peer\<lparr>ps_handshake_initiator_id := 0x02000000, ps_tx_session_id := 9, ps_rx_session_id := 4\<rparr>"
  let ?nA = "(demo_node demo_cert demo_sk)\<lparr>n_peers := [(0x03000000, ?pa)]\<rparr>"
    and ?nB = "(demo_node demo_cert2 demo_sk2)\<lparr>n_peers := [(0x02000000, ?pb)],
      n_pending := [(hi_my_rx_session_id ini, PendingHandshake_new ini default_listen (Some 0x02000000) ''A'' 0)]\<rparr>"
  have f: "n_cert (demo_node c k) = c" "n_signing_key (demo_node c k) = k" "n_network_key (demo_node c k) = [1]" "n_ca_vk (demo_node c k) = demo_ca"
    "n_handshake_cache (demo_node c k) = HandshakeCache_new" "n_pending (demo_node c k) = []" "n_rx_sessions (demo_node c k) = []"
    "n_max_datagram (demo_node c k) = DEFAULT_MAX_DATAGRAM" "\<not> n_am_relay (demo_node c k)" for c k
    by (simp_all add: demo_node_def new_node_def demo_daemon_config_def demo_config_def udp_payload_limit_def)
  have len: "max_handshake_len demo_ext demo_cert \<le> 5000" "max_handshake_len demo_ext demo_cert2 \<le> 5000"
    by (simp_all add: max_handshake_len_def packet_lens demo_ext_def)
  have rdy: "ready demo_ext demo_ca ?nA" "ready demo_ext demo_ca ?nB"
    using len by (simp_all add: ready_def f demo_node_ids demo_ids demo_identity demo_identity2 MIN_DATAGRAM_def DEFAULT_MAX_DATAGRAM_def packet_lens)
  have i: "instant_now demo_world = (1000000000, demo_world)" by (simp add: instant_now_def demo_world_def)
  note split = crossing_dials_split [OF demo_blake3 demo_aead(2) demo_aead(1) demo_x25519 demo_mlkem(1) demo_signatures rdy,
      of ?pa ?pb demo_world ini w' "PendingHandshake_new ini default_listen (Some 0x02000000) ''A'' 0" demo_world demo_world default_listen default_listen]
  have "\<exists>resp wA1 nA' wA' nB' wB' pa'. handle_handshake_1 demo_ext ?nA default_listen (hi_msg ini) demo_world = Some (nA', wA')
    \<and> process_handshake_1 demo_ext (hi_msg ini) demo_cert demo_sk [1] demo_ca False demo_world = Some (Inr resp, wA1)
    \<and> handle_handshake_2 demo_ext ?nB default_listen (hr_msg resp) (hi_my_rx_session_id ini) demo_world = (nB', wB')
    \<and> peer_of nB' 0x02000000 = Some ?pb \<and> peer_of nA' 0x03000000 = Some pa'
    \<and> ps_handshake_initiator_id pa' = 0x03000000 \<and> map_of (n_rx_sessions nB') (ps_tx_session_id pa') = None"
    using split c demo_rng demo_validity demo_identity2(3)
    by (simp add: f demo_node_ids i PendingHandshake_new_def HandshakeCache_get_def HandshakeCache_new_def) blast
  then show ?thesis
  proof (elim exE conjE)
    fix resp wA1 nA' wA' nB' wB' pa'
    assume "handle_handshake_1 demo_ext ?nA default_listen (hi_msg ini) demo_world = Some (nA', wA')"
      "process_handshake_1 demo_ext (hi_msg ini) demo_cert demo_sk [1] demo_ca False demo_world = Some (Inr resp, wA1)"
      "handle_handshake_2 demo_ext ?nB default_listen (hr_msg resp) (hi_my_rx_session_id ini) demo_world = (nB', wB')"
      "peer_of nB' 0x02000000 = Some ?pb" "peer_of nA' 0x03000000 = Some pa'"
      "ps_handshake_initiator_id pa' = 0x03000000" "map_of (n_rx_sessions nB') (ps_tx_session_id pa') = None"
    moreover have "peer_of ?nA 0x03000000 \<noteq> None" "peer_of ?nB 0x02000000 = Some ?pb" "ps_handshake_initiator_id ?pb = 0x02000000"
      by simp_all
    ultimately show ?thesis using c by blast
  qed
qed

end
